theory Spec2Isabelle
  imports Complex_Main "HOL-Library.Code_Target_Nat"
begin

section \<open>Strings of the JavaScript runtime\<close>

text \<open>
  A JavaScript string is a sequence of UTF-16 code units. The model keeps the code units as
  natural numbers, so that the pound sign (U+00A3) and the euro sign (U+20AC) of the price
  pattern are single elements, as they are for the regular expressions of the source.
  \<open>js\<close> turns an ASCII literal into such a string.
\<close>

type_synonym codeunit = nat

type_synonym jsstring = "codeunit list"

definition js :: "string \<Rightarrow> jsstring" where
  "js s = map of_char s"

definition isDigit :: "codeunit \<Rightarrow> bool" where
  "isDigit c = (48 \<le> c \<and> c \<le> 57)"

definition isWordChar :: "codeunit \<Rightarrow> bool" where
  "isWordChar c = ((97 \<le> c \<and> c \<le> 122) \<or> (65 \<le> c \<and> c \<le> 90) \<or> isDigit c \<or> c = 95)"

text \<open>The class \<open>\s\<close>: WhiteSpace and LineTerminator of ECMAScript.\<close>

definition isWhiteSpace :: "codeunit \<Rightarrow> bool" where
  "isWhiteSpace c =
     (c \<in> set [9, 10, 11, 12, 13, 32, 160, 5760, 8232, 8233, 8239, 8287, 12288, 65279]
      \<or> (8192 \<le> c \<and> c \<le> 8202))"

text \<open>
  Case mapping is the runtime's, not the repository's: it follows the Unicode tables of the
  engine the program runs on. These tables are a parameter of the model. \<open>upperCaseOf\<close>
  gives, for one code unit, the code units of the upper-case form of the one-character
  string (\<open>String.prototype.toUpperCase\<close>, which can answer with more than one code unit,
  as \<open>SS\<close> for the sharp s); \<open>lowerCaseOf\<close> is \<open>String.prototype.toLowerCase\<close> on a whole
  string (it depends on the neighbours of a character, as for the final sigma).

  What the tables say about the code units the source itself names is fixed and written
  out: in ASCII only the letters \<open>a\<close> to \<open>z\<close> and \<open>A\<close> to \<open>Z\<close> have another case, which is 32
  away; the pound and euro signs and the white space outside ASCII have no case and are
  the other case of no character. The parameter is consulted for every other code unit.
\<close>

record runtime =
  upperCaseOf :: "codeunit \<Rightarrow> jsstring"
  lowerCaseOf :: "jsstring \<Rightarrow> jsstring"

definition asciiUpperUnit :: "codeunit \<Rightarrow> codeunit" where
  "asciiUpperUnit c = (if 97 \<le> c \<and> c \<le> 122 then c - 32 else c)"

definition asciiLowerUnit :: "codeunit \<Rightarrow> codeunit" where
  "asciiLowerUnit c = (if 65 \<le> c \<and> c \<le> 90 then c + 32 else c)"

definition caselessUnit :: "codeunit \<Rightarrow> bool" where
  "caselessUnit c = (128 \<le> c \<and> (c = 163 \<or> c = 8364 \<or> isWhiteSpace c))"

definition plainUnit :: "codeunit \<Rightarrow> bool" where
  "plainUnit c = (c < 128 \<or> caselessUnit c)"

text \<open>
  \<open>Canonicalize\<close> of a regular expression with flag \<open>i\<close> and without flag \<open>u\<close>: the code
  unit is mapped to upper case; it is kept when the upper-case form is not one code unit,
  and when the form would take a non-ASCII code unit into ASCII.
\<close>

definition canonicalize :: "runtime \<Rightarrow> codeunit \<Rightarrow> codeunit" where
  "canonicalize rt c =
     (if c < 128 then asciiUpperUnit c
      else if caselessUnit c then c
      else (case upperCaseOf rt c of
              [cu] \<Rightarrow> if cu < 128 \<or> caselessUnit cu then c else cu
            | _ \<Rightarrow> c))"

text \<open>\<open>String.prototype.toLowerCase\<close>.\<close>

definition toLowerCase :: "runtime \<Rightarrow> jsstring \<Rightarrow> jsstring" where
  "toLowerCase rt s = (if list_all plainUnit s then map asciiLowerUnit s else lowerCaseOf rt s)"

text \<open>\<open>[...new Set(xs)]\<close>: the elements of \<open>xs\<close> in the order of their first occurrence.\<close>

definition setAdd :: "'a list \<Rightarrow> 'a \<Rightarrow> 'a list" where
  "setAdd acc x = (if x \<in> set acc then acc else acc @ [x])"

definition newSet :: "'a list \<Rightarrow> 'a list" where
  "newSet xs = foldl setAdd [] xs"

section \<open>Regular expressions\<close>

text \<open>
  The fragment of the pattern language the source uses: pattern characters, the classes
  \<open>[...]\<close>, \<open>\d\<close> and \<open>\s\<close>, the assertion \<open>\b\<close>, sequence, the greedy quantifiers
  \<open>?\<close> and \<open>*\<close>. \<open>r+\<close> is \<open>Seq r (Star r)\<close> and \<open>r{1,2}\<close> is \<open>Seq r (Opt r)\<close>.
  The matcher compares code units as flag \<open>i\<close> has it. The one expression of the source
  without the flag, \<open>/[$\<pounds>\<euro>]/g\<close>, is a class of three caseless characters, for which the
  flag changes nothing (\<open>inClass_currency\<close> below).
\<close>

datatype cclass = Chars "codeunit list" | Digit | Space

datatype regex =
    Eps
  | Lit codeunit
  | Cls cclass
  | WordB
  | Seq regex regex
  | Opt regex
  | Star regex

fun inClass :: "runtime \<Rightarrow> cclass \<Rightarrow> codeunit \<Rightarrow> bool" where
  "inClass rt (Chars cs) c = (canonicalize rt c \<in> set (map (canonicalize rt) cs))"
| "inClass rt Digit c = isDigit c"
| "inClass rt Space c = isWhiteSpace c"

definition wordBefore :: "jsstring \<Rightarrow> nat \<Rightarrow> bool" where
  "wordBefore s i = (0 < i \<and> i \<le> length s \<and> isWordChar (s ! (i - 1)))"

definition wordAfter :: "jsstring \<Rightarrow> nat \<Rightarrow> bool" where
  "wordAfter s i = (i < length s \<and> isWordChar (s ! i))"

definition isWordBoundary :: "jsstring \<Rightarrow> nat \<Rightarrow> bool" where
  "isWordBoundary s i = (wordBefore s i \<noteq> wordAfter s i)"

text \<open>
  The backtracking matcher, as the list of the end positions of the matches of \<open>r\<close> that
  start at \<open>i\<close>, in the order in which backtracking finds them: the head is the match the
  runtime reports. A greedy quantifier tries its body first and drops an iteration that
  consumed nothing. The bound \<open>e \<le> length s\<close> in the last equation holds of every end
  position; it is written out for the termination proof.
\<close>

function ends :: "runtime \<Rightarrow> regex \<Rightarrow> jsstring \<Rightarrow> nat \<Rightarrow> nat list" where
  "ends rt Eps s i = [i]"
| "ends rt (Lit c) s i =
     (if i < length s \<and> canonicalize rt (s ! i) = canonicalize rt c then [Suc i] else [])"
| "ends rt (Cls k) s i = (if i < length s \<and> inClass rt k (s ! i) then [Suc i] else [])"
| "ends rt WordB s i = (if isWordBoundary s i then [i] else [])"
| "ends rt (Seq r1 r2) s i = concat (map (\<lambda>e. ends rt r2 s e) (ends rt r1 s i))"
| "ends rt (Opt r) s i = filter (\<lambda>e. i < e) (ends rt r s i) @ [i]"
| "ends rt (Star r) s i =
     concat (map (\<lambda>e. if i < e \<and> e \<le> length s then ends rt (Star r) s e else []) (ends rt r s i))
     @ [i]"
  by pat_completeness auto
termination
  by (relation "measures [\<lambda>(rt, r, s, i). size r, \<lambda>(rt, r, s, i). length s - i]") auto

text \<open>\<open>RegExp.prototype.exec\<close> from index \<open>from\<close>: the leftmost start with a match.\<close>

fun firstMatch :: "runtime \<Rightarrow> regex \<Rightarrow> jsstring \<Rightarrow> nat list \<Rightarrow> (nat \<times> nat) option" where
  "firstMatch rt r s [] = None"
| "firstMatch rt r s (i # is) =
     (case ends rt r s i of [] \<Rightarrow> firstMatch rt r s is | e # _ \<Rightarrow> Some (i, e))"

definition regexExec :: "runtime \<Rightarrow> regex \<Rightarrow> jsstring \<Rightarrow> nat \<Rightarrow> (nat \<times> nat) option" where
  "regexExec rt r s from = firstMatch rt r s [from..<Suc (length s)]"

text \<open>\<open>regex.test(content)\<close> for an expression without flag \<open>g\<close>: the search starts at 0.\<close>

definition regexTest :: "runtime \<Rightarrow> regex \<Rightarrow> jsstring \<Rightarrow> bool" where
  "regexTest rt r s = (regexExec rt r s 0 \<noteq> None)"

lemmas ends_Star = ends.simps(7)
declare ends.simps(7) [simp del]

lemma ends_bounds:
  "e \<in> set (ends rt r s i) \<Longrightarrow> i \<le> length s \<Longrightarrow> i \<le> e \<and> e \<le> length s"
proof (induction rt r s i arbitrary: e rule: ends.induct)
  case (1 rt s i)
  then show ?case by simp
next
  case (2 rt c s i)
  then show ?case by (simp split: if_splits)
next
  case (3 rt k s i)
  then show ?case by (simp split: if_splits)
next
  case (4 rt s i)
  then show ?case by (simp split: if_splits)
next
  case (5 rt r1 r2 s i)
  from "5.prems"(1) obtain m where m: "m \<in> set (ends rt r1 s i)" and e: "e \<in> set (ends rt r2 s m)"
    by auto
  from "5.IH"(1) [OF m "5.prems"(2)] have "i \<le> m" "m \<le> length s" by simp_all
  with "5.IH"(2) [OF m e] show ?case by simp
next
  case (6 rt r s i)
  from "6.prems"(1) have "e = i \<or> e \<in> set (ends rt r s i)" by auto
  with "6.IH" "6.prems"(2) show ?case by auto
next
  case (7 rt r s i)
  from "7.prems"(1) have "e = i \<or> (\<exists>m \<in> set (ends rt r s i). i < m \<and> m \<le> length s
      \<and> e \<in> set (ends rt (Star r) s m))"
    by (subst (asm) ends_Star) (auto split: if_splits)
  then show ?case
  proof
    assume "e = i"
    with "7.prems"(2) show ?thesis by simp
  next
    assume "\<exists>m \<in> set (ends rt r s i). i < m \<and> m \<le> length s \<and> e \<in> set (ends rt (Star r) s m)"
    then obtain m where m: "m \<in> set (ends rt r s i)" and g: "i < m" "m \<le> length s"
      and e: "e \<in> set (ends rt (Star r) s m)" by blast
    from "7.IH"(2) [OF m _ e] g show ?thesis by simp
  qed
qed

lemma firstMatch_bounds:
  "firstMatch rt r s is = Some (i, e) \<Longrightarrow> \<forall>j \<in> set is. j \<le> length s \<Longrightarrow>
     i \<in> set is \<and> i \<le> e \<and> e \<le> length s"
proof (induction "is")
  case Nil
  then show ?case by simp
next
  case (Cons j js)
  show ?case
  proof (cases "ends rt r s j")
    case Nil
    with Cons show ?thesis by simp
  next
    case (Cons e' es)
    with Cons.prems have "i = j" "e = e'" by simp_all
    moreover have "e' \<in> set (ends rt r s j)" using Cons by simp
    ultimately show ?thesis using ends_bounds [of e' rt r s j] Cons.prems(2) by simp
  qed
qed

lemma regexExec_bounds:
  "regexExec rt r s p = Some (i, e) \<Longrightarrow> p \<le> i \<and> i \<le> e \<and> e \<le> length s"
proof -
  assume "regexExec rt r s p = Some (i, e)"
  then have m: "firstMatch rt r s [p..<Suc (length s)] = Some (i, e)"
    by (simp only: regexExec_def)
  have "\<forall>j \<in> set [p..<Suc (length s)]. j \<le> length s"
    by (simp only: set_upt) simp
  from firstMatch_bounds [OF m this]
  have "i \<in> set [p..<Suc (length s)]" and b: "i \<le> e" "e \<le> length s"
    by blast+
  then have "p \<le> i" by (simp only: set_upt) simp
  with b show ?thesis by blast
qed

text \<open>
  \<open>content.match(regex)\<close> for an expression with flag \<open>g\<close>: every match from the left, each
  search starting where the last match ended (one further after an empty match). The
  source turns the \<open>null\<close> of no match into the empty array.
\<close>

function matchAllFrom :: "runtime \<Rightarrow> regex \<Rightarrow> jsstring \<Rightarrow> nat \<Rightarrow> jsstring list" where
  "matchAllFrom rt r s p =
     (case regexExec rt r s p of
        None \<Rightarrow> []
      | Some (i, e) \<Rightarrow>
          take (e - i) (drop i s) # matchAllFrom rt r s (if e = i then Suc e else e))"
  by pat_completeness auto
termination
proof (relation "measure (\<lambda>(rt, r, s, p). Suc (length s) - p)")
  show "wf (measure (\<lambda>(rt, r, s, p). Suc (length s) - p))" by simp
next
  fix rt :: runtime and r :: regex and s :: jsstring and p :: nat and x2 :: "nat \<times> nat"
    and i e :: nat
  assume "regexExec rt r s p = Some x2" "(i, e) = x2"
  then have "regexExec rt r s p = Some (i, e)" by simp
  from regexExec_bounds [OF this] have b: "p \<le> i" "i \<le> e" "e \<le> length s"
    by simp_all
  have "Suc (length s) - (if e = i then Suc e else e) < Suc (length s) - p"
  proof (cases "e = i")
    case True
    with b show ?thesis by simp
  next
    case False
    with b have "p < e" by simp
    with b False show ?thesis by simp
  qed
  then show "((rt, r, s, if e = i then Suc e else e), rt, r, s, p)
      \<in> measure (\<lambda>(rt, r, s, p). Suc (length s) - p)"
    by (simp only: in_measure prod.case)
qed

definition matchAll :: "runtime \<Rightarrow> regex \<Rightarrow> jsstring \<Rightarrow> jsstring list" where
  "matchAll rt r s = matchAllFrom rt r s 0"

declare matchAllFrom.simps [simp del]

section \<open>Rule compiler\<close>

text \<open>
  \<open>escapeRegex\<close> puts a backslash (92) before each of the characters
  \<open>. * + ? ^ $ { } ( ) | [ ] \\<close>, which are the syntax characters of a pattern.
\<close>

definition isSyntaxChar :: "codeunit \<Rightarrow> bool" where
  "isSyntaxChar c = (c \<in> set [46, 42, 43, 63, 94, 36, 123, 125, 40, 41, 124, 91, 93, 92])"

definition escapeRegex :: "jsstring \<Rightarrow> jsstring" where
  "escapeRegex v = concat (map (\<lambda>c. if isSyntaxChar c then [92, c] else [c]) v)"

text \<open>
  \<open>new RegExp(source, 'i')\<close> on the sources the compiler builds: pattern characters,
  escaped syntax characters and \<open>\b\<close> (92, 98). A source with anything else is outside
  the fragment of the model and is reported as the constructor's error.
\<close>

datatype error = SyntaxError

fun parseAtoms :: "jsstring \<Rightarrow> error + regex list" where
  "parseAtoms [] = Inr []"
| "parseAtoms [c] =
     (if c = 92 \<or> isSyntaxChar c then Inl SyntaxError else Inr [Lit c])"
| "parseAtoms (c # d # ds) =
     (if c = 92 then
        (if d = 98 then map_sum id (Cons WordB) (parseAtoms ds)
         else if isSyntaxChar d then map_sum id (Cons (Lit d)) (parseAtoms ds)
         else Inl SyntaxError)
      else if isSyntaxChar c then Inl SyntaxError
      else map_sum id (Cons (Lit c)) (parseAtoms (d # ds)))"

definition seqs :: "regex list \<Rightarrow> regex" where
  "seqs rs = foldr Seq rs Eps"

definition newRegExp :: "jsstring \<Rightarrow> error + regex" where
  "newRegExp source = map_sum id seqs (parseAtoms source)"

text \<open>
  A compiled check: \<open>label\<close> is the field \<open>term\<close>, \<open>pattern\<close> or \<open>keyword\<close> of the
  source's three kinds of check, which have one shape.
\<close>

record check =
  label :: jsstring
  regex :: regex

record detectors =
  restrictedTermChecks :: "check list"
  exceptionChecks :: "check list"
  priceKeywordChecks :: "check list"

record config =
  enabled :: bool
  guildId :: jsstring
  ruleChannelIds :: "jsstring set"
  ruleChannelNames :: "jsstring set"
  modLogChannelId :: jsstring
  modLogChannelName :: jsstring
  restrictedTerms :: "jsstring list"
  exceptionPatterns :: "jsstring list"
  enablePricePattern :: bool
  priceKeywords :: "jsstring list"
  warningCooldownMs :: real
  logMatchedTerms :: bool
  rulesUrl :: jsstring

text \<open>
  \<open>buildConfig()\<close> when none of the \<open>RG_*\<close> variables is set: every list falls back to
  its \<open>DEFAULT_*\<close> constant, the two flags to \<open>true\<close>, the cooldown to
  \<open>DEFAULT_COOLDOWN_SECONDS * 1000\<close>.
\<close>

definition defaultConfig :: config where
  "defaultConfig =
     \<lparr>enabled = True, guildId = [], ruleChannelIds = {}, ruleChannelNames = {js ''chatter''},
      modLogChannelId = [], modLogChannelName = js ''mod-log'',
      restrictedTerms = [js ''sell''], exceptionPatterns = [],
      enablePricePattern = True, priceKeywords = [js ''usd'', js ''shipped''],
      warningCooldownMs = 0, logMatchedTerms = True, rulesUrl = []\<rparr>"

text \<open>The template \<open>`\\b${escapeRegex(term)}\\b`\<close>.\<close>

definition wordSource :: "jsstring \<Rightarrow> jsstring" where
  "wordSource t = [92, 98] @ escapeRegex t @ [92, 98]"

fun compileChecks :: "(jsstring \<Rightarrow> jsstring) \<Rightarrow> jsstring list \<Rightarrow> error + check list" where
  "compileChecks src [] = Inr []"
| "compileChecks src (t # ts) =
     (case newRegExp (src t) of
        Inl e \<Rightarrow> Inl e
      | Inr r \<Rightarrow>
          (case compileChecks src ts of
             Inl e \<Rightarrow> Inl e
           | Inr cs \<Rightarrow> Inr (\<lparr>label = t, regex = r\<rparr> # cs)))"

definition buildDetectors :: "config \<Rightarrow> error + detectors" where
  "buildDetectors config =
     (case compileChecks wordSource (restrictedTerms config) of
        Inl e \<Rightarrow> Inl e
      | Inr tcs \<Rightarrow>
          (case compileChecks escapeRegex (exceptionPatterns config) of
             Inl e \<Rightarrow> Inl e
           | Inr ecs \<Rightarrow>
               (case compileChecks wordSource (priceKeywords config) of
                  Inl e \<Rightarrow> Inl e
                | Inr kcs \<Rightarrow>
                    Inr \<lparr>restrictedTermChecks = tcs, exceptionChecks = ecs,
                         priceKeywordChecks = kcs\<rparr>)))"

section \<open>Classifier\<close>

record verdict =
  triggered :: bool
  matchedTerms :: "jsstring list"
  matchedPriceSignals :: "jsstring list"
  triggerTypes :: "jsstring list"

text \<open>
  The two literals of \<open>detectContent\<close>. \<open>[$\<pounds>\<euro>]\s?\d+(?:[.,]\d{1,2})?\<close> with flags \<open>gi\<close>:
  36 is the dollar sign, 163 the pound sign, 8364 the euro sign, 46 and 44 are \<open>.\<close> and \<open>,\<close>.
\<close>

definition currencySymbols :: "codeunit list" where
  "currencySymbols = [36, 163, 8364]"

definition symbolAmountRegex :: regex where
  "symbolAmountRegex =
     Seq (Cls (Chars currencySymbols))
       (Seq (Opt (Cls Space))
          (Seq (Seq (Cls Digit) (Star (Cls Digit)))
             (Opt (Seq (Cls (Chars [46, 44])) (Seq (Cls Digit) (Opt (Cls Digit)))))))"

definition rawSymbolRegex :: regex where
  "rawSymbolRegex = Cls (Chars currencySymbols)"

text \<open>
  The three loops of \<open>detectContent\<close> that push the term, keyword or pattern of every check
  whose expression the text passes, in the order of the checks.
\<close>

definition testedLabels :: "runtime \<Rightarrow> check list \<Rightarrow> jsstring \<Rightarrow> jsstring list" where
  "testedLabels rt checks content =
     map label (filter (\<lambda>c. regexTest rt (regex c) content) checks)"

text \<open>
  The trigger types are the strings \<open>'word match'\<close> and \<open>'price pattern'\<close> of the source.
\<close>

definition detectContent :: "runtime \<Rightarrow> jsstring \<Rightarrow> detectors \<Rightarrow> config \<Rightarrow> verdict" where
  "detectContent rt content detectors config =
     (let matchedTerms = testedLabels rt (restrictedTermChecks detectors) content;
          matchedPriceSignals =
            (if enablePricePattern config
             then matchAll rt symbolAmountRegex content @ matchAll rt rawSymbolRegex content
                  @ testedLabels rt (priceKeywordChecks detectors) content
             else []);
          exceptionMatches = testedLabels rt (exceptionChecks detectors) content
      in if length exceptionMatches > 0
         then \<lparr>triggered = False, matchedTerms = [], matchedPriceSignals = [],
               triggerTypes = []\<rparr>
         else
           (let uniqueTerms = newSet matchedTerms;
                uniquePriceSignals = newSet matchedPriceSignals;
                triggerTypes =
                  (if length uniqueTerms > 0 then [js ''word match''] else [])
                  @ (if length uniquePriceSignals > 0 then [js ''price pattern''] else [])
            in \<lparr>triggered = length triggerTypes > 0, matchedTerms = uniqueTerms,
                 matchedPriceSignals = uniquePriceSignals, triggerTypes = triggerTypes\<rparr>))"

section \<open>Session state\<close>

text \<open>
  A JavaScript \<open>Map\<close> keeps its entries in insertion order: \<open>set\<close> replaces the value of
  a key in place or appends a new entry, \<open>get\<close> of an absent key is \<open>undefined\<close>.
\<close>

type_synonym ('k, 'v) jsMap = "('k \<times> 'v) list"

definition mapGet :: "('k, 'v) jsMap \<Rightarrow> 'k \<Rightarrow> 'v option" where
  "mapGet m k = map_of m k"

fun mapSet :: "('k, 'v) jsMap \<Rightarrow> 'k \<Rightarrow> 'v \<Rightarrow> ('k, 'v) jsMap" where
  "mapSet [] k v = [(k, v)]"
| "mapSet ((k', v') # m) k v = (if k' = k then (k, v) # m else (k', v') # mapSet m k v)"

datatype channelType = GuildText | OtherChannelType

record channel =
  name :: "jsstring option"
  type' :: channelType

record author =
  id' :: jsstring
  tag :: jsstring
  bot' :: bool

text \<open>
  The fields of a message the pipeline reads. \<open>guildId'\<close> is \<open>message.guildId\<close> (absent
  outside a guild; \<open>inGuild()\<close> tests it), \<open>channel\<close> is absent when the channel is not
  cached, \<open>content'\<close> is \<open>message.content\<close> and may be absent.
\<close>

record message =
  author :: author
  guildId' :: "jsstring option"
  channelId :: jsstring
  channel :: "channel option"
  content' :: "jsstring option"
  createdTimestamp :: int
  url :: jsstring

record metrics =
  day :: jsstring
  triggersToday :: nat
  byChannel :: "(jsstring, nat) jsMap"
  byRule :: "(jsstring, nat) jsMap"

record state =
  cooldowns :: "(jsstring, int) jsMap"
  modLogChannelIds :: "(jsstring option, jsstring) jsMap"
  metrics :: metrics

section \<open>Cooldown tracker\<close>

definition cooldownKey :: "message \<Rightarrow> jsstring" where
  "cooldownKey message = id' (author message) @ js '':'' @ channelId message"

text \<open>
  \<open>now\<close> is a reading of \<open>Date.now()\<close>, an integer of milliseconds; the cooldown is a
  number of milliseconds that need not be whole. \<open>lastWarningAt && ...\<close> is false for an
  absent entry and for the timestamp 0.
\<close>

definition isCoolingDown :: "state \<Rightarrow> message \<Rightarrow> config \<Rightarrow> int \<Rightarrow> bool \<times> state" where
  "isCoolingDown state message config now =
     (let lastWarningAt = mapGet (cooldowns state) (cooldownKey message)
      in if (case lastWarningAt of
               None \<Rightarrow> False
             | Some t \<Rightarrow> t \<noteq> 0 \<and> real_of_int (now - t) < warningCooldownMs config)
         then (True, state)
         else (False, state\<lparr>cooldowns := mapSet (cooldowns state) (cooldownKey message) now\<rparr>))"

section \<open>Metrics aggregator\<close>

text \<open>\<open>getUtcDay\<close> on the ISO string of the clock: \<open>date.toISOString().slice(0, 10)\<close>.\<close>

definition getUtcDay :: "jsstring \<Rightarrow> jsstring" where
  "getUtcDay isoString = take 10 isoString"

definition bumpCount :: "(jsstring, nat) jsMap \<Rightarrow> jsstring \<Rightarrow> nat \<Rightarrow> (jsstring, nat) jsMap" where
  "bumpCount m key delta =
     mapSet m key ((case mapGet m key of None \<Rightarrow> 0 | Some v \<Rightarrow> v) + delta)"

text \<open>
  \<open>isoString\<close> is \<open>new Date().toISOString()\<close> at the call. The counters are natural numbers
  (the source's are doubles, exact below \<open>2^53\<close>). The keys of \<open>byRule\<close> are the template
  literals \<open>`term:${term.toLowerCase()}`\<close> and \<open>`price:${signal.toLowerCase()}`\<close>.
\<close>

definition bumpMetrics :: "runtime \<Rightarrow> state \<Rightarrow> message \<Rightarrow> verdict \<Rightarrow> jsstring \<Rightarrow> state" where
  "bumpMetrics rt state message detection isoString =
     (let currentDay = getUtcDay isoString;
          m0 = metrics state;
          m1 = (if day m0 \<noteq> currentDay
                then m0\<lparr>day := currentDay, triggersToday := 0, byChannel := [], byRule := []\<rparr>
                else m0);
          m2 = m1\<lparr>triggersToday := triggersToday m1 + 1,
                  byChannel := bumpCount (byChannel m1) (channelId message) 1\<rparr>;
          m3 = m2\<lparr>byRule := foldl (\<lambda>m term. bumpCount m (js ''term:'' @ toLowerCase rt term) 1)
                  (byRule m2) (matchedTerms detection)\<rparr>;
          m4 = m3\<lparr>byRule := foldl (\<lambda>m signal. bumpCount m (js ''price:'' @ toLowerCase rt signal) 1)
                  (byRule m3) (matchedPriceSignals detection)\<rparr>
      in state\<lparr>metrics := m4\<rparr>)"

text \<open>
  The state \<open>startRuleGuardian\<close> creates: empty maps, no trigger yet, the day of the
  start.
\<close>

definition initialState :: "jsstring \<Rightarrow> state" where
  "initialState isoString =
     \<lparr>cooldowns = [], modLogChannelIds = [],
      metrics = \<lparr>day = getUtcDay isoString, triggersToday = 0, byChannel = [], byRule = []\<rparr>\<rparr>"

section \<open>Decision orchestrator\<close>

text \<open>
  \<open>Array.prototype.join\<close>, and the decimal form in which a template literal prints a
  count or a whole number (plain digits, as the runtime prints every whole number below
  \<open>10^21\<close>).
\<close>

fun join :: "jsstring \<Rightarrow> jsstring list \<Rightarrow> jsstring" where
  "join sep [] = []"
| "join sep [x] = x"
| "join sep (x # y # ys) = x @ sep @ join sep (y # ys)"

function showNat :: "nat \<Rightarrow> jsstring" where
  "showNat n = (if n < 10 then [48 + n] else showNat (n div 10) @ [48 + n mod 10])"
  by pat_completeness auto
termination
  by (relation "measure (\<lambda>n. n)") auto

declare showNat.simps [simp del]

definition showInt :: "int \<Rightarrow> jsstring" where
  "showInt i = (if i < 0 then 45 # showNat (nat (- i)) else showNat (nat i))"

text \<open>
  \<open>topEntries\<close>: the entries by falling count; the sort is stable, so that entries with
  equal counts keep the order of the map.
\<close>

definition topEntries :: "(jsstring, nat) jsMap \<Rightarrow> nat \<Rightarrow> (jsstring \<times> nat) list" where
  "topEntries m limit = take limit (sort_key (\<lambda>(k, c). - int c) m)"

text \<open>
  A value thrown by an outward call: an \<open>Error\<close> object with its message, a falsy value,
  or another value with its string form.
\<close>

datatype thrown = ErrorObject jsstring | Falsy | OtherValue jsstring

fun formatError :: "thrown \<Rightarrow> jsstring" where
  "formatError Falsy = js ''unknown error''"
| "formatError (ErrorObject msg) = msg"
| "formatError (OtherValue str) = str"

definition isStandardTextChannel :: "message \<Rightarrow> bool" where
  "isStandardTextChannel message =
     (case channel message of None \<Rightarrow> False | Some ch \<Rightarrow> type' ch = GuildText)"

definition shouldProcessMessage :: "runtime \<Rightarrow> message \<Rightarrow> config \<Rightarrow> bool" where
  "shouldProcessMessage rt message config =
     (if guildId' message = None then False
      else if \<not> isStandardTextChannel message then False
      else if guildId config \<noteq> [] \<and> guildId' message \<noteq> Some (guildId config) then False
      else if bot' (author message) then False
      else if ruleChannelIds config \<noteq> {} then channelId message \<in> ruleChannelIds config
      else toLowerCase rt
             (case channel message of
                None \<Rightarrow> []
              | Some ch \<Rightarrow> (case name ch of None \<Rightarrow> [] | Some n \<Rightarrow> n))
           \<in> ruleChannelNames config)"

definition buildWarningMessage :: "runtime \<Rightarrow> config \<Rightarrow> verdict \<Rightarrow> message \<Rightarrow> jsstring" where
  "buildWarningMessage rt config detection message =
     (let matchedTermSet = set (map (toLowerCase rt) (matchedTerms detection));
          hasWordMatch = js ''word match'' \<in> set (triggerTypes detection);
          hasPriceMatch = js ''price pattern'' \<in> set (triggerTypes detection);
          channelLabel =
            (case channel message of
               None \<Rightarrow> js ''<#'' @ channelId message @ js ''>''
             | Some ch \<Rightarrow>
                 (case name ch of
                    None \<Rightarrow> js ''<#'' @ channelId message @ js ''>''
                  | Some n \<Rightarrow>
                      if n = [] then js ''<#'' @ channelId message @ js ''>'' else js ''#'' @ n));
          lines1 =
            (if js ''sell'' \<in> matchedTermSet
             then [js ''Please use the word '' @ [34] @ js ''rehome'' @ [34] @ js '' instead.'']
             else if hasWordMatch
             then [js ''Restricted terms are not allowed here. Please edit your message to remove them.'']
             else []);
          lines2 =
            lines1 @
            (if hasPriceMatch
             then [js ''Please refrain from using prices in '' @ channelLabel
                   @ js '' and send prices only in DMs.'']
             else []);
          lines3 =
            (if length lines2 = 0
             then [js ''Restricted terms/prices are not allowed here.'',
                   js ''Please edit your message to remove them.'']
             else lines2);
          lines4 = lines3 @ (if rulesUrl config \<noteq> [] then [js ''Rules: '' @ rulesUrl config] else [])
      in join [10] lines4)"

text \<open>The array \<open>lines\<close> of \<open>buildModLogMessage\<close>, and its join by line feeds.\<close>

definition buildModLogLines ::
  "message \<Rightarrow> verdict \<Rightarrow> config \<Rightarrow> jsstring \<Rightarrow> jsstring \<Rightarrow> state \<Rightarrow> jsstring list" where
  "buildModLogLines message detection config warningStatus warningError state =
     (let topChannels =
            join (js '', '')
              (map (\<lambda>(channelId, count). js ''<#'' @ channelId @ js ''> ('' @ showNat count @ js '')'')
                 (topEntries (byChannel (metrics state)) 3));
          topRules =
            join (js '', '')
              (map (\<lambda>(rule, count). rule @ js '' ('' @ showNat count @ js '')'')
                 (topEntries (byRule (metrics state)) 3));
          lines1 =
            [js ''**Rule Guardian Trigger**'',
             js ''User: <@'' @ id' (author message) @ js ''> ('' @ [96] @ tag (author message)
               @ [96] @ js '')'',
             js ''Channel: <#'' @ channelId message @ js ''>'',
             js ''Timestamp: <t:'' @ showInt (createdTimestamp message div 1000) @ js '':F>'',
             js ''Trigger type(s): '' @ join (js '', '') (triggerTypes detection),
             js ''Jump link: '' @ url message,
             js ''Warning status: '' @ warningStatus,
             js ''Daily trigger count: '' @ showNat (triggersToday (metrics state)),
             js ''Top channels today: '' @ (if topChannels = [] then js ''none'' else topChannels),
             js ''Top rules today: '' @ (if topRules = [] then js ''none'' else topRules)];
          matchedEntries =
            (if length (matchedTerms detection) > 0
             then [js ''terms=['' @ join (js '', '') (matchedTerms detection) @ js '']'']
             else [])
            @ (if length (matchedPriceSignals detection) > 0
               then [js ''price_signals=['' @ join (js '', '') (matchedPriceSignals detection)
                     @ js '']'']
               else []);
          lines2 =
            lines1 @
            (if logMatchedTerms config \<and> length matchedEntries > 0
             then [js ''Matched: '' @ join (js '' | '') matchedEntries]
             else [])
      in lines2 @ (if warningError \<noteq> [] then [js ''Warning error: '' @ warningError] else []))"

definition buildModLogMessage ::
  "message \<Rightarrow> verdict \<Rightarrow> config \<Rightarrow> jsstring \<Rightarrow> jsstring \<Rightarrow> state \<Rightarrow> jsstring" where
  "buildModLogMessage message detection config warningStatus warningError state =
     join [10] (buildModLogLines message detection config warningStatus warningError state)"

text \<open>
  The collaborators outside the core, as the results they give during one run of the
  pipeline: the two readings of the clock, the outcome of \<open>message.reply\<close> (\<open>None\<close> when
  the promise resolves, the thrown value when it rejects), the channel cache and the two
  fetches of the guild, the outcome of \<open>send\<close> on a channel.
\<close>

record guildChannel =
  chanId :: jsstring
  chanName :: jsstring
  chanType :: channelType

record world =
  dateNow :: int
  dateIso :: jsstring
  replyOutcome :: "jsstring \<Rightarrow> thrown option"
  channelsCache :: "jsstring \<Rightarrow> guildChannel option"
  fetchChannel :: "jsstring \<Rightarrow> thrown + guildChannel option"
  fetchChannels :: "thrown + guildChannel option list"
  sendOutcome :: "guildChannel \<Rightarrow> jsstring \<Rightarrow> thrown option"

text \<open>The outward calls a run makes, in their order.\<close>

datatype event =
    Reply jsstring
  | Send guildChannel jsstring
  | ConsoleError "jsstring list"

text \<open>
  The result of an asynchronous function: the calls it made, the state it left, and the
  value it threw if its promise rejected.
\<close>

type_synonym outcome = "event list \<times> state \<times> thrown option"

definition textChannel :: "guildChannel option \<Rightarrow> guildChannel option" where
  "textChannel c =
     (case c of None \<Rightarrow> None | Some ch \<Rightarrow> if chanType ch = GuildText then Some ch else None)"

text \<open>
  \<open>resolveModLogChannel\<close>: the cached id, then the configured id (a failed fetch counts
  as no channel), then the search by name among all channels, whose fetch may throw.
\<close>

definition resolveModLogChannel ::
  "runtime \<Rightarrow> message \<Rightarrow> config \<Rightarrow> state \<Rightarrow> world \<Rightarrow> (thrown + guildChannel option) \<times> state" where
  "resolveModLogChannel rt message config state w =
     (let cacheKey = guildId' message;
          cachedChannel =
            (case mapGet (modLogChannelIds state) cacheKey of
               None \<Rightarrow> None
             | Some cachedChannelId \<Rightarrow>
                 if cachedChannelId = [] then None
                 else textChannel (channelsCache w cachedChannelId))
      in case cachedChannel of
           Some ch \<Rightarrow> (Inr (Some ch), state)
         | None \<Rightarrow>
             (case (if modLogChannelId config \<noteq> []
                    then textChannel
                           (case fetchChannel w (modLogChannelId config) of
                              Inl e \<Rightarrow> None
                            | Inr c \<Rightarrow> c)
                    else None) of
                Some ch \<Rightarrow>
                  (Inr (Some ch),
                   state\<lparr>modLogChannelIds := mapSet (modLogChannelIds state) cacheKey (chanId ch)\<rparr>)
              | None \<Rightarrow>
                  (case fetchChannels w of
                     Inl e \<Rightarrow> (Inl e, state)
                   | Inr allChannels \<Rightarrow>
                       (case find (\<lambda>c. case c of
                                         None \<Rightarrow> False
                                       | Some ch \<Rightarrow>
                                           chanType ch = GuildText
                                           \<and> toLowerCase rt (chanName ch) = modLogChannelName config)
                               allChannels of
                          Some (Some byName) \<Rightarrow>
                            (Inr (Some byName),
                             state\<lparr>modLogChannelIds :=
                                      mapSet (modLogChannelIds state) cacheKey (chanId byName)\<rparr>)
                        | _ \<Rightarrow> (Inr None, state)))))"

text \<open>The body of the \<open>try\<close> of \<open>sendModLog\<close>, and \<open>sendModLog\<close> with its \<open>catch\<close>.\<close>

definition sendModLogTry ::
  "runtime \<Rightarrow> message \<Rightarrow> verdict \<Rightarrow> config \<Rightarrow> state \<Rightarrow> jsstring \<Rightarrow> jsstring \<Rightarrow> world \<Rightarrow> outcome" where
  "sendModLogTry rt message detection config state warningStatus warningError w =
     (case resolveModLogChannel rt message config state w of
        (Inl e, state1) \<Rightarrow> ([], state1, Some e)
      | (Inr None, state1) \<Rightarrow>
          ([ConsoleError [js ''Rule Guardian: mod-log channel not found. Configure RG_MOD_LOG_CHANNEL_ID or RG_MOD_LOG_CHANNEL_NAME.'']],
           state1, None)
      | (Inr (Some modLogChannel), state1) \<Rightarrow>
          (let content =
                 buildModLogMessage message detection config warningStatus warningError state1
           in ([Send modLogChannel content], state1, sendOutcome w modLogChannel content)))"

definition sendModLog ::
  "runtime \<Rightarrow> message \<Rightarrow> verdict \<Rightarrow> config \<Rightarrow> state \<Rightarrow> jsstring \<Rightarrow> jsstring \<Rightarrow> world \<Rightarrow> outcome" where
  "sendModLog rt message detection config state warningStatus warningError w =
     (case sendModLogTry rt message detection config state warningStatus warningError w of
        (events, state1, None) \<Rightarrow> (events, state1, None)
      | (events, state1, Some error) \<Rightarrow>
          (events @ [ConsoleError [js ''Rule Guardian: failed to send mod-log message:'',
                                   formatError error]],
           state1, None))"

definition handleTriggeredMessage ::
  "runtime \<Rightarrow> message \<Rightarrow> verdict \<Rightarrow> config \<Rightarrow> state \<Rightarrow> world \<Rightarrow> outcome" where
  "handleTriggeredMessage rt message detection config state w =
     (let now = dateNow w;
          (shouldSuppressWarning, state1) = isCoolingDown state message config now;
          (replied, warningStatus, warningError) =
            (if \<not> shouldSuppressWarning
             then (case replyOutcome w (buildWarningMessage rt config detection message) of
                     None \<Rightarrow>
                       ([Reply (buildWarningMessage rt config detection message)], js ''sent'', [])
                   | Some error \<Rightarrow>
                       ([Reply (buildWarningMessage rt config detection message)], js ''failed'',
                        formatError error))
             else ([], js ''cooldown_suppressed'', []));
          (logged, state2, raised) =
            sendModLog rt message detection config state1 warningStatus warningError w
      in (replied @ logged, state2, raised))"

definition contentOrEmpty :: "message \<Rightarrow> jsstring" where
  "contentOrEmpty message = (case content' message of None \<Rightarrow> [] | Some c \<Rightarrow> c)"

definition onMessageCreate ::
  "runtime \<Rightarrow> message \<Rightarrow> config \<Rightarrow> detectors \<Rightarrow> state \<Rightarrow> world \<Rightarrow> outcome" where
  "onMessageCreate rt message config detectors state w =
     (if \<not> shouldProcessMessage rt message config then ([], state, None)
      else
        (let detection = detectContent rt (contentOrEmpty message) detectors config
         in if \<not> triggered detection then ([], state, None)
            else handleTriggeredMessage rt message detection config
                   (bumpMetrics rt state message detection (dateIso w)) w))"

section \<open>The words of the specification\<close>

text \<open>
  Two code units are the same letter, case set aside, when the runtime's case-insensitive
  comparison takes them to one code unit. A pattern occurs in a text at \<open>i\<close>
  case-insensitively when the slice of the text at \<open>i\<close> has the length of the pattern and
  agrees with it unit by unit in this way.
\<close>

definition sameIgnoringCase :: "runtime \<Rightarrow> jsstring \<Rightarrow> jsstring \<Rightarrow> bool" where
  "sameIgnoringCase rt a b = (map (canonicalize rt) a = map (canonicalize rt) b)"

definition occursAt :: "runtime \<Rightarrow> jsstring \<Rightarrow> jsstring \<Rightarrow> nat \<Rightarrow> bool" where
  "occursAt rt p s i = sameIgnoringCase rt (take (length p) (drop i s)) p"

definition containsIgnoringCase :: "runtime \<Rightarrow> jsstring \<Rightarrow> jsstring \<Rightarrow> bool" where
  "containsIgnoringCase rt p s = list_ex (occursAt rt p s) [0..<Suc (length s)]"

text \<open>
  A term occurs as a whole word when an occurrence of it stands delimited: no word
  character comes directly before it and none directly after it. The word characters
  are those of the pattern language: the letters \<open>a\<close> to \<open>z\<close> and \<open>A\<close> to \<open>Z\<close>, the digits
  and the underscore (\<open>isWordChar\<close>).
\<close>

definition wholeWordAt :: "runtime \<Rightarrow> jsstring \<Rightarrow> jsstring \<Rightarrow> nat \<Rightarrow> bool" where
  "wholeWordAt rt t s i =
     (occursAt rt t s i \<and> \<not> wordBefore s i \<and> \<not> wordAfter s (i + length t))"

definition containsWholeWord :: "runtime \<Rightarrow> jsstring \<Rightarrow> jsstring \<Rightarrow> bool" where
  "containsWholeWord rt t s = list_ex (wholeWordAt rt t s) [0..<Suc (length s)]"

text \<open>A term that begins and ends with a word character.\<close>

definition wordEdged :: "jsstring \<Rightarrow> bool" where
  "wordEdged t = (case t of [] \<Rightarrow> False | c # cs \<Rightarrow> isWordChar c \<and> isWordChar (last t))"

text \<open>
  The rule the compiler wraps terms and keywords in: an occurrence with a word boundary
  of the pattern language at both of its ends.
\<close>

definition boundedAt :: "runtime \<Rightarrow> jsstring \<Rightarrow> jsstring \<Rightarrow> nat \<Rightarrow> bool" where
  "boundedAt rt t s i =
     (occursAt rt t s i \<and> isWordBoundary s i \<and> isWordBoundary s (i + length t))"

definition containsBounded :: "runtime \<Rightarrow> jsstring \<Rightarrow> jsstring \<Rightarrow> bool" where
  "containsBounded rt t s = list_ex (boundedAt rt t s) [0..<Suc (length s)]"

text \<open>
  A text holds a bare currency symbol; at \<open>i\<close> it holds a currency symbol followed at once,
  or after one white-space character, by a digit; a string is a slice of a text; a code
  unit is one of those a price written with a symbol is made of.
\<close>

definition containsCurrencySymbol :: "jsstring \<Rightarrow> bool" where
  "containsCurrencySymbol s = list_ex (\<lambda>c. c \<in> set currencySymbols) s"

definition pricedAt :: "jsstring \<Rightarrow> nat \<Rightarrow> bool" where
  "pricedAt s i =
     (i < length s \<and> s ! i \<in> set currencySymbols
      \<and> ((Suc i < length s \<and> isDigit (s ! Suc i))
         \<or> (Suc (Suc i) < length s \<and> isWhiteSpace (s ! Suc i) \<and> isDigit (s ! Suc (Suc i)))))"

definition containsPricedAmount :: "jsstring \<Rightarrow> bool" where
  "containsPricedAmount s = list_ex (pricedAt s) [0..<length s]"

definition sliceOf :: "jsstring \<Rightarrow> jsstring \<Rightarrow> bool" where
  "sliceOf m s =
     list_ex (\<lambda>i. list_ex (\<lambda>n. m = take n (drop i s)) [0..<Suc (length s)]) [0..<Suc (length s)]"

definition priceUnit :: "codeunit \<Rightarrow> bool" where
  "priceUnit c = (c \<in> set currencySymbols \<or> isWhiteSpace c \<or> isDigit c \<or> c = 46 \<or> c = 44)"

text \<open>The count a counter map holds for a key (0 for an absent key).\<close>

definition countOf :: "(jsstring, nat) jsMap \<Rightarrow> jsstring \<Rightarrow> nat" where
  "countOf m k = (case mapGet m k of None \<Rightarrow> 0 | Some v \<Rightarrow> v)"

text \<open>The counters an update starts from: the stored ones, or none on a new day.\<close>

definition carriedMetrics :: "state \<Rightarrow> jsstring \<Rightarrow> metrics" where
  "carriedMetrics state isoString =
     (if day (metrics state) \<noteq> getUtcDay isoString
      then \<lparr>day = getUtcDay isoString, triggersToday = 0, byChannel = [], byRule = []\<rparr>
      else metrics state)"

section \<open>The compiled detectors and the parts of the price pattern\<close>

text \<open>
  What \<open>buildDetectors\<close> returns, written out, since every escaped source parses
  (\<open>buildDetectors_compiled\<close> below): a pattern becomes the sequence of its characters, a
  term or keyword the same between two word boundaries.
\<close>

definition literalRegex :: "jsstring \<Rightarrow> regex" where
  "literalRegex p = seqs (map Lit p)"

definition wordRegex :: "jsstring \<Rightarrow> regex" where
  "wordRegex t = seqs (WordB # map Lit t @ [WordB])"

definition compiledDetectors :: "config \<Rightarrow> detectors" where
  "compiledDetectors config =
     \<lparr>restrictedTermChecks = map (\<lambda>t. \<lparr>label = t, regex = wordRegex t\<rparr>) (restrictedTerms config),
      exceptionChecks = map (\<lambda>p. \<lparr>label = p, regex = literalRegex p\<rparr>) (exceptionPatterns config),
      priceKeywordChecks = map (\<lambda>k. \<lparr>label = k, regex = wordRegex k\<rparr>) (priceKeywords config)\<rparr>"

text \<open>The parts \<open>\d+\<close> and \<open>(?:[.,]\d{1,2})?\<close> of the symbol-plus-amount pattern.\<close>

definition digitsRegex :: regex where
  "digitsRegex = Seq (Cls Digit) (Star (Cls Digit))"

definition fractionRegex :: regex where
  "fractionRegex = Opt (Seq (Cls (Chars [46, 44])) (Seq (Cls Digit) (Opt (Cls Digit))))"

text \<open>The code units a match of an expression can consume.\<close>

fun consumes :: "runtime \<Rightarrow> regex \<Rightarrow> codeunit \<Rightarrow> bool" where
  "consumes rt Eps c = False"
| "consumes rt (Lit x) c = (canonicalize rt c = canonicalize rt x)"
| "consumes rt (Cls k) c = inClass rt k c"
| "consumes rt WordB c = False"
| "consumes rt (Seq a b) c = (consumes rt a c \<or> consumes rt b c)"
| "consumes rt (Opt r) c = consumes rt r c"
| "consumes rt (Star r) c = consumes rt r c"

section \<open>Examples\<close>

text \<open>
  Concrete inputs on which the theorems below are instantiated and the code is evaluated.
  First a runtime. Its tables are those of Unicode on ASCII, on the letters of Latin-1
  (the small letters from 224 to 254, without the division sign 247, are 32 above their
  capitals; the sharp s, 223, has the upper-case form \<open>SS\<close>; the micro sign, 181, and the
  y with diaeresis, 255, have the capitals 924 and 376), on the Polish l with stroke
  (capital 321, small 322), on the long s (383), whose capital is \<open>S\<close>, on the Kelvin
  sign (8490), whose small letter is \<open>k\<close>, and on the Cyrillic letters from 1024 to 1119
  (the small letters from 1072 to 1103 are 32 above their capitals, those from 1104 to
  1119 are 80 above). Every other code unit is left alone.
\<close>

definition sampleUpper :: "codeunit \<Rightarrow> jsstring" where
  "sampleUpper c =
     (if 97 \<le> c \<and> c \<le> 122 then [c - 32]
      else if 224 \<le> c \<and> c \<le> 254 \<and> c \<noteq> 247 then [c - 32]
      else if c = 223 then [83, 83]
      else if c = 181 then [924]
      else if c = 255 then [376]
      else if c = 322 then [321]
      else if c = 383 then [83]
      else if 1072 \<le> c \<and> c \<le> 1103 then [c - 32]
      else if 1104 \<le> c \<and> c \<le> 1119 then [c - 80]
      else [c])"

definition sampleLowerUnit :: "codeunit \<Rightarrow> codeunit" where
  "sampleLowerUnit c =
     (if 65 \<le> c \<and> c \<le> 90 then c + 32
      else if 192 \<le> c \<and> c \<le> 222 \<and> c \<noteq> 215 then c + 32
      else if c = 376 then 255
      else if c = 321 then 322
      else if c = 8490 then 107
      else if 1040 \<le> c \<and> c \<le> 1071 then c + 32
      else if 1024 \<le> c \<and> c \<le> 1039 then c + 80
      else c)"

definition sampleRuntime :: runtime where
  "sampleRuntime = \<lparr>upperCaseOf = sampleUpper, lowerCaseOf = map sampleLowerUnit\<rparr>"

text \<open>A message of a human member in the text channel \<open>#chatter\<close>.\<close>

definition sampleMessage :: message where
  "sampleMessage =
     \<lparr>author = \<lparr>id' = js ''1001'', tag = js ''ann'', bot' = False\<rparr>,
      guildId' = Some (js ''42''), channelId = js ''7'',
      channel = Some \<lparr>name = Some (js ''chatter''), type' = GuildText\<rparr>,
      content' = Some (js ''DM me, $400 shipped''),
      createdTimestamp = 1700000000123, url = js ''https://discord.com/channels/42/7/9''\<rparr>"

text \<open>
  A run in which the reply is rejected and the log channel, found by its name, rejects
  the log message as well.
\<close>

definition failingWorld :: world where
  "failingWorld =
     \<lparr>dateNow = 1700000000456, dateIso = js ''2023-11-14T22:13:20.456Z'',
      replyOutcome = (\<lambda>content. Some (ErrorObject (js ''Missing Permissions''))),
      channelsCache = (\<lambda>channelId. None),
      fetchChannel = (\<lambda>channelId. Inr None),
      fetchChannels =
        Inr [None, Some \<lparr>chanId = js ''99'', chanName = js ''Mod-Log'', chanType = GuildText\<rparr>],
      sendOutcome = (\<lambda>modLogChannel content. Some (OtherValue (js ''rate limited'')))\<rparr>"

definition sampleVerdict :: verdict where
  "sampleVerdict =
     detectContent sampleRuntime (contentOrEmpty sampleMessage) (compiledDetectors defaultConfig)
       defaultConfig"

definition sampleState :: state where
  "sampleState =
     bumpMetrics sampleRuntime (initialState (js ''2023-11-14T09:00:00.000Z'')) sampleMessage
       sampleVerdict
       (dateIso failingWorld)"

section \<open>Lemmas\<close>

lemma asciiUpperUnit_ascii: "c < 128 \<Longrightarrow> asciiUpperUnit c < 128"
  unfolding asciiUpperUnit_def by (simp split: if_splits) arith

lemma canonicalize_ascii: "c < 128 \<Longrightarrow> canonicalize rt c = asciiUpperUnit c"
  by (simp add: canonicalize_def)

lemma canonicalize_caseless: "caselessUnit c \<Longrightarrow> canonicalize rt c = c"
  by (simp add: canonicalize_def caselessUnit_def)

lemma canonicalize_other:
  "128 \<le> c \<Longrightarrow> \<not> caselessUnit c \<Longrightarrow>
     128 \<le> canonicalize rt c \<and> \<not> caselessUnit (canonicalize rt c)"
  by (simp add: canonicalize_def split: list.splits)

lemma canonicalize_nonascii: "128 \<le> c \<Longrightarrow> 128 \<le> canonicalize rt c"
  by (cases "caselessUnit c") (simp_all add: canonicalize_caseless canonicalize_other)

lemma canonicalize_ascii_iff: "canonicalize rt c < 128 \<longleftrightarrow> c < 128"
  using canonicalize_nonascii [of c rt] asciiUpperUnit_ascii [of c]
  by (cases "c < 128") (simp_all add: canonicalize_ascii)

lemma canonicalize_caseless_iff: "caselessUnit (canonicalize rt c) \<longleftrightarrow> caselessUnit c"
proof (cases "c < 128")
  case True
  then have "canonicalize rt c < 128" by (simp add: canonicalize_ascii_iff)
  with True show ?thesis by (simp add: caselessUnit_def)
next
  case False
  then show ?thesis
    using canonicalize_other [of c rt] by (cases "caselessUnit c") (simp_all add: canonicalize_caseless)
qed

lemma canonicalize_eq_caseless:
  "caselessUnit d \<Longrightarrow> canonicalize rt c = d \<longleftrightarrow> c = d"
  using canonicalize_caseless_iff [of rt c] by (auto simp: canonicalize_caseless)

lemma toLowerCase_plain: "list_all plainUnit s \<Longrightarrow> toLowerCase rt s = map asciiLowerUnit s"
  by (simp add: toLowerCase_def)

lemma priceUnit_plain: "priceUnit c \<Longrightarrow> plainUnit c \<and> asciiLowerUnit c = c"
  unfolding priceUnit_def plainUnit_def caselessUnit_def asciiLowerUnit_def currencySymbols_def
    isDigit_def isWhiteSpace_def
  by auto

lemma toLowerCase_priceUnits: "list_all priceUnit m \<Longrightarrow> toLowerCase rt m = m"
proof -
  assume a: "list_all priceUnit m"
  then have "list_all plainUnit m"
    using priceUnit_plain by (auto simp: list_all_iff)
  moreover from a have "map asciiLowerUnit m = m"
    using priceUnit_plain by (intro map_idI) (auto simp: list_all_iff)
  ultimately show ?thesis by (simp add: toLowerCase_plain)
qed

lemma parseAtoms_plain:
  "\<not> isSyntaxChar c \<Longrightarrow> parseAtoms (c # xs) = map_sum id (Cons (Lit c)) (parseAtoms xs)"
  by (cases xs) (auto simp: isSyntaxChar_def)

lemma parseAtoms_escaped:
  "isSyntaxChar c \<Longrightarrow> parseAtoms (92 # c # xs) = map_sum id (Cons (Lit c)) (parseAtoms xs)"
  by (auto simp: isSyntaxChar_def)

lemma parseAtoms_wordb:
  "parseAtoms (92 # 98 # xs) = map_sum id (Cons WordB) (parseAtoms xs)"
  by simp

lemma parseAtoms_escapeRegex:
  "parseAtoms (escapeRegex p @ xs) = map_sum id ((@) (map Lit p)) (parseAtoms xs)"
proof (induction p)
  case Nil
  show ?case by (cases "parseAtoms xs") (simp_all add: escapeRegex_def)
next
  case (Cons c p)
  have e: "escapeRegex (c # p) = (if isSyntaxChar c then [92, c] else [c]) @ escapeRegex p"
    by (simp add: escapeRegex_def)
  show ?case
  proof (cases "isSyntaxChar c")
    case True
    then show ?thesis
      using parseAtoms_escaped [OF True, of "escapeRegex p @ xs"] Cons.IH
      by (simp add: e sum.map_comp comp_def)
  next
    case False
    then show ?thesis
      using parseAtoms_plain [OF False, of "escapeRegex p @ xs"] Cons.IH
      by (simp add: e sum.map_comp comp_def)
  qed
qed

lemma newRegExp_literal: "newRegExp (escapeRegex p) = Inr (literalRegex p)"
  using parseAtoms_escapeRegex [of p "[]"] by (simp add: newRegExp_def literalRegex_def)

lemma newRegExp_word: "newRegExp (wordSource t) = Inr (wordRegex t)"
proof -
  have "parseAtoms (escapeRegex t @ [92, 98]) = Inr (map Lit t @ [WordB])"
    using parseAtoms_escapeRegex [of t "[92, 98]"] by simp
  then have "parseAtoms (wordSource t) = Inr (WordB # map Lit t @ [WordB])"
    unfolding wordSource_def using parseAtoms_wordb [of "escapeRegex t @ [92, 98]"] by simp
  then show ?thesis by (simp add: newRegExp_def wordRegex_def)
qed

lemma compileChecks_word:
  "compileChecks wordSource ts = Inr (map (\<lambda>t. \<lparr>label = t, regex = wordRegex t\<rparr>) ts)"
  by (induction ts) (simp_all add: newRegExp_word)

lemma compileChecks_literal:
  "compileChecks escapeRegex ps = Inr (map (\<lambda>p. \<lparr>label = p, regex = literalRegex p\<rparr>) ps)"
  by (induction ps) (simp_all add: newRegExp_literal)

lemma buildDetectors_compiled: "buildDetectors config = Inr (compiledDetectors config)"
  by (simp add: buildDetectors_def compiledDetectors_def compileChecks_word compileChecks_literal)

lemma seqs_Nil: "seqs [] = Eps"
  by (simp add: seqs_def)

lemma seqs_Cons: "seqs (r # rs) = Seq r (seqs rs)"
  by (simp add: seqs_def)

lemma occursAt_Nil: "occursAt rt [] s i"
  by (simp add: occursAt_def sameIgnoringCase_def)

lemma occursAt_Cons:
  "occursAt rt (c # p) s i \<longleftrightarrow>
     i < length s \<and> canonicalize rt (s ! i) = canonicalize rt c \<and> occursAt rt p s (Suc i)"
proof (cases "i < length s")
  case True
  then have "drop i s = s ! i # drop (Suc i) s"
    by (simp add: Cons_nth_drop_Suc)
  with True show ?thesis
    by (simp add: occursAt_def sameIgnoringCase_def)
next
  case False
  then show ?thesis
    by (simp add: occursAt_def sameIgnoringCase_def)
qed

lemma ends_Lits:
  "ends rt (seqs (map Lit p @ rs)) s i =
     (if occursAt rt p s i then ends rt (seqs rs) s (i + length p) else [])"
proof (induction p arbitrary: i)
  case Nil
  show ?case by (simp add: occursAt_Nil)
next
  case (Cons c p)
  show ?case
    by (simp add: seqs_Cons occursAt_Cons Cons.IH)
qed

lemma ends_literalRegex:
  "ends rt (literalRegex p) s i = (if occursAt rt p s i then [i + length p] else [])"
  using ends_Lits [of rt p "[]" s i] by (simp add: literalRegex_def seqs_Nil)

lemma ends_Seq_WordB:
  "ends rt (Seq WordB r) s i = (if isWordBoundary s i then ends rt r s i else [])"
  by simp

lemma ends_wordRegex:
  "ends rt (wordRegex t) s i = (if boundedAt rt t s i then [i + length t] else [])"
proof -
  have "ends rt (seqs (map Lit t @ [WordB])) s i =
      (if occursAt rt t s i \<and> isWordBoundary s (i + length t) then [i + length t] else [])"
    by (simp add: ends_Lits seqs_Cons seqs_Nil)
  moreover have "wordRegex t = Seq WordB (seqs (map Lit t @ [WordB]))"
    by (simp add: wordRegex_def seqs_Cons)
  ultimately show ?thesis
    by (simp only: ends_Seq_WordB boundedAt_def) simp
qed

lemma firstMatch_None:
  "firstMatch rt r s is = None \<longleftrightarrow> \<not> list_ex (\<lambda>i. ends rt r s i \<noteq> []) is"
  by (induction "is") (simp_all split: list.splits)

lemma regexTest_iff:
  "regexTest rt r s \<longleftrightarrow> list_ex (\<lambda>i. ends rt r s i \<noteq> []) [0..<Suc (length s)]"
  by (simp only: regexTest_def regexExec_def firstMatch_None) simp

lemma regexTest_literalRegex: "regexTest rt (literalRegex p) s \<longleftrightarrow> containsIgnoringCase rt p s"
  by (simp only: regexTest_iff containsIgnoringCase_def ends_literalRegex) simp

lemma regexTest_wordRegex: "regexTest rt (wordRegex t) s \<longleftrightarrow> containsBounded rt t s"
  by (simp only: regexTest_iff containsBounded_def ends_wordRegex) simp

lemma testedLabels_literal:
  "testedLabels rt (map (\<lambda>p. \<lparr>label = p, regex = literalRegex p\<rparr>) ps) s =
     filter (\<lambda>p. containsIgnoringCase rt p s) ps"
  by (induction ps) (simp_all add: testedLabels_def regexTest_literalRegex)

lemma testedLabels_word:
  "testedLabels rt (map (\<lambda>t. \<lparr>label = t, regex = wordRegex t\<rparr>) ts) s =
     filter (\<lambda>t. containsBounded rt t s) ts"
  by (induction ts) (simp_all add: testedLabels_def regexTest_wordRegex)

lemma exceptionMatches_compiled:
  "testedLabels rt (exceptionChecks (compiledDetectors config)) content =
     filter (\<lambda>p. containsIgnoringCase rt p content) (exceptionPatterns config)"
  by (simp add: compiledDetectors_def testedLabels_literal)

lemma matchedTerms_compiled:
  "testedLabels rt (restrictedTermChecks (compiledDetectors config)) content =
     filter (\<lambda>t. containsBounded rt t content) (restrictedTerms config)"
  by (simp add: compiledDetectors_def testedLabels_word)

lemma matchedKeywords_compiled:
  "testedLabels rt (priceKeywordChecks (compiledDetectors config)) content =
     filter (\<lambda>t. containsBounded rt t content) (priceKeywords config)"
  by (simp add: compiledDetectors_def testedLabels_word)

lemma detectors_compiled:
  "buildDetectors config = Inr detectors \<Longrightarrow> detectors = compiledDetectors config"
  by (simp add: buildDetectors_compiled)

lemma set_foldl_setAdd: "set (foldl setAdd acc xs) = set acc \<union> set xs"
  by (induction xs arbitrary: acc) (auto simp: setAdd_def)

lemma distinct_foldl_setAdd: "distinct acc \<Longrightarrow> distinct (foldl setAdd acc xs)"
  by (induction xs arbitrary: acc) (auto simp: setAdd_def)

lemma set_newSet: "set (newSet xs) = set xs"
  by (simp add: newSet_def set_foldl_setAdd)

lemma distinct_newSet: "distinct (newSet xs)"
  by (simp add: newSet_def distinct_foldl_setAdd)

lemma newSet_empty: "newSet xs = [] \<longleftrightarrow> xs = []"
  using set_newSet [of xs] by (metis set_empty)

lemma triggerType_literals: "js ''word match'' \<noteq> js ''price pattern''"
  by (simp add: js_def)

text \<open>The verdict when no exception pattern matches, field by field.\<close>

lemma detectContent_no_exception:
  assumes "testedLabels rt (exceptionChecks detectors) content = []"
  shows "matchedTerms (detectContent rt content detectors config) =
           newSet (testedLabels rt (restrictedTermChecks detectors) content)"
    and "matchedPriceSignals (detectContent rt content detectors config) =
           newSet (if enablePricePattern config
                   then matchAll rt symbolAmountRegex content @ matchAll rt rawSymbolRegex content
                        @ testedLabels rt (priceKeywordChecks detectors) content
                   else [])"
    and "triggerTypes (detectContent rt content detectors config) =
           (if matchedTerms (detectContent rt content detectors config) \<noteq> []
            then [js ''word match''] else [])
           @ (if matchedPriceSignals (detectContent rt content detectors config) \<noteq> []
              then [js ''price pattern''] else [])"
    and "triggered (detectContent rt content detectors config) \<longleftrightarrow>
           triggerTypes (detectContent rt content detectors config) \<noteq> []"
  using assms by (simp_all add: detectContent_def Let_def)

lemma inClass_currency: "inClass rt (Chars currencySymbols) c \<longleftrightarrow> c \<in> set currencySymbols"
proof -
  have a: "canonicalize rt 36 = 36"
    by (simp add: canonicalize_ascii asciiUpperUnit_def)
  have b: "caselessUnit 163" "caselessUnit 8364"
    by (simp_all add: caselessUnit_def)
  have "canonicalize rt c = 36 \<longleftrightarrow> c = 36"
  proof (cases "c < 128")
    case True
    then show ?thesis by (auto simp: canonicalize_ascii asciiUpperUnit_def split: if_splits)
  next
    case False
    then show ?thesis using canonicalize_nonascii [of c rt] by simp
  qed
  then show ?thesis
    by (simp add: currencySymbols_def canonicalize_caseless [OF b(1)]
        canonicalize_caseless [OF b(2)] canonicalize_eq_caseless [OF b(1)]
        canonicalize_eq_caseless [OF b(2)] a)
qed

lemma inClass_separator: "inClass rt (Chars [46, 44]) c \<longleftrightarrow> c = 46 \<or> c = 44"
proof (cases "c < 128")
  case True
  then show ?thesis by (auto simp: canonicalize_ascii asciiUpperUnit_def split: if_splits)
next
  case False
  then show ?thesis
    using canonicalize_nonascii [of c rt] by (auto simp: canonicalize_ascii asciiUpperUnit_def)
qed

lemma firstMatch_Some:
  "firstMatch rt r s is = Some (i, e) \<Longrightarrow>
     \<exists>xs ys es. is = xs @ i # ys \<and> (\<forall>j \<in> set xs. ends rt r s j = []) \<and> ends rt r s i = e # es"
proof (induction "is")
  case Nil
  then show ?case by simp
next
  case (Cons j js)
  show ?case
  proof (cases "ends rt r s j")
    case Nil
    with Cons.prems have "firstMatch rt r s js = Some (i, e)" by simp
    from Cons.IH [OF this] obtain xs ys es where
      "js = xs @ i # ys" "\<forall>j \<in> set xs. ends rt r s j = []" "ends rt r s i = e # es" by blast
    with Nil have "j # js = (j # xs) @ i # ys \<and> (\<forall>j \<in> set (j # xs). ends rt r s j = [])
        \<and> ends rt r s i = e # es" by simp
    then show ?thesis by blast
  next
    case (Cons e' es)
    with Cons.prems have "i = j" "e = e'" by simp_all
    with Cons have "j # js = [] @ i # js \<and> (\<forall>j \<in> set []. ends rt r s j = [])
        \<and> ends rt r s i = e # es" by simp
    then show ?thesis by blast
  qed
qed

lemma upt_split_mid:
  "[p..<n] = xs @ i # ys \<Longrightarrow> xs = [p..<i] \<and> p \<le> i \<and> i < n"
proof -
  assume a: "[p..<n] = xs @ i # ys"
  have l: "length xs < length [p..<n]" by (simp only: a) simp
  have "i = [p..<n] ! length xs" by (simp only: a) simp
  with l have i: "i = p + length xs" by simp
  from l have n: "p + length xs < n" by simp
  have "xs = take (length xs) [p..<n]" by (simp only: a) simp
  also have "\<dots> = [p..<p + length xs]" using n by (simp add: take_upt)
  finally show ?thesis using i n by simp
qed

lemma regexExec_Some:
  assumes "regexExec rt r s p = Some (i, e)"
  shows "\<exists>es. ends rt r s i = e # es" and "\<forall>j. p \<le> j \<and> j < i \<longrightarrow> ends rt r s j = []"
    and "p \<le> i" and "i \<le> e" and "e \<le> length s"
proof -
  from assms have m: "firstMatch rt r s [p..<Suc (length s)] = Some (i, e)"
    by (simp only: regexExec_def)
  from firstMatch_Some [OF m] obtain xs ys es where
    u: "[p..<Suc (length s)] = xs @ i # ys" and n: "\<forall>j \<in> set xs. ends rt r s j = []"
    and h: "ends rt r s i = e # es" by blast
  from upt_split_mid [OF u] have x: "xs = [p..<i]" by simp
  from h show "\<exists>es. ends rt r s i = e # es" by blast
  from n x show "\<forall>j. p \<le> j \<and> j < i \<longrightarrow> ends rt r s j = []" by simp
  from regexExec_bounds [OF assms] show "p \<le> i" "i \<le> e" "e \<le> length s" by simp_all
qed

lemma regexExec_None:
  "regexExec rt r s p = None \<Longrightarrow> p \<le> j \<Longrightarrow> j \<le> length s \<Longrightarrow> ends rt r s j = []"
proof -
  assume n: "regexExec rt r s p = None" and "p \<le> j" "j \<le> length s"
  then have "j \<in> set [p..<Suc (length s)]" by (simp del: upt_Suc)
  moreover from n have "\<forall>i \<in> set [p..<Suc (length s)]. ends rt r s i = []"
    by (simp only: regexExec_def firstMatch_None list_ex_iff) blast
  ultimately show ?thesis by blast
qed

lemma matchAllFrom_elems:
  "m \<in> set (matchAllFrom rt r s p) \<Longrightarrow>
     \<exists>i e es. p \<le> i \<and> ends rt r s i = e # es \<and> i \<le> e \<and> e \<le> length s
       \<and> m = take (e - i) (drop i s)"
proof (induction rt r s p rule: matchAllFrom.induct)
  case (1 rt r s p)
  show ?case
  proof (cases "regexExec rt r s p")
    case None
    with "1.prems" show ?thesis by (simp add: matchAllFrom.simps [of rt r s p])
  next
    case (Some x)
    obtain i e where x: "x = (i, e)" by (cases x)
    note ex = Some [unfolded x]
    from regexExec_Some [OF ex] obtain es where
      h: "ends rt r s i = e # es" and b: "p \<le> i" "i \<le> e" "e \<le> length s" by blast
    from "1.prems" ex have
      "m = take (e - i) (drop i s) \<or> m \<in> set (matchAllFrom rt r s (if e = i then Suc e else e))"
      by (simp add: matchAllFrom.simps [of rt r s p])
    then show ?thesis
    proof
      assume "m = take (e - i) (drop i s)"
      with h b show ?thesis by blast
    next
      assume "m \<in> set (matchAllFrom rt r s (if e = i then Suc e else e))"
      from "1.IH" [OF ex refl this] obtain i' e' es' where
        "(if e = i then Suc e else e) \<le> i'" "ends rt r s i' = e' # es'" "i' \<le> e'"
        "e' \<le> length s" "m = take (e' - i') (drop i' s)" by blast
      moreover from this(1) b have "p \<le> i'" by (simp split: if_splits)
      ultimately show ?thesis by blast
    qed
  qed
qed

lemma ends_Seq_mem:
  "e \<in> set (ends rt (Seq a b) s i) \<longleftrightarrow> (\<exists>m \<in> set (ends rt a s i). e \<in> set (ends rt b s m))"
  by simp

lemma ends_Cls_mem:
  "e \<in> set (ends rt (Cls k) s i) \<longleftrightarrow> i < length s \<and> inClass rt k (s ! i) \<and> e = Suc i"
  by auto

lemma ends_Seq_nonempty:
  "m \<in> set (ends rt a s i) \<Longrightarrow> ends rt b s m \<noteq> [] \<Longrightarrow> ends rt (Seq a b) s i \<noteq> []"
  by auto

lemma ends_Opt_nonempty: "ends rt (Opt r) s i \<noteq> []"
  by simp

lemma ends_Opt_skip: "i \<in> set (ends rt (Opt r) s i)"
  by simp

lemma ends_Opt_take: "e \<in> set (ends rt r s i) \<Longrightarrow> i < e \<Longrightarrow> e \<in> set (ends rt (Opt r) s i)"
  by simp

lemma ends_Star_nonempty: "ends rt (Star r) s i \<noteq> []"
  by (subst ends_Star) simp

lemma filter_drop_skip:
  "p \<le> i \<Longrightarrow> i \<le> length s \<Longrightarrow> \<forall>j. p \<le> j \<and> j < i \<longrightarrow> \<not> P (s ! j) \<Longrightarrow>
     filter P (drop p s) = filter P (drop i s)"
proof (induction "i - p" arbitrary: p)
  case 0
  then show ?case by simp
next
  case (Suc n)
  then have lt: "p < i" "p < length s" by simp_all
  then have d: "drop p s = s ! p # drop (Suc p) s"
    by (simp add: Cons_nth_drop_Suc)
  from Suc.prems lt have np: "\<not> P (s ! p)" by simp
  have "filter P (drop (Suc p) s) = filter P (drop i s)"
  proof (rule Suc.hyps(1))
    show "n = i - Suc p" using Suc.hyps(2) by simp
    show "Suc p \<le> i" using lt by simp
    show "i \<le> length s" by (rule Suc.prems(2))
    show "\<forall>j. Suc p \<le> j \<and> j < i \<longrightarrow> \<not> P (s ! j)" using Suc.prems(3) by simp
  qed
  with d np show ?case by simp
qed

lemma matchAllFrom_Cls:
  "matchAllFrom rt (Cls k) s p = map (\<lambda>c. [c]) (filter (inClass rt k) (drop p s))"
proof (induction rt "Cls k" s p rule: matchAllFrom.induct)
  case (1 rt s p)
  show ?case
  proof (cases "regexExec rt (Cls k) s p")
    case None
    have "filter (inClass rt k) (drop p s) = []"
    proof (cases "p \<le> length s")
      case True
      have "\<forall>j. p \<le> j \<and> j < length s \<longrightarrow> \<not> inClass rt k (s ! j)"
      proof (intro allI impI)
        fix j assume j: "p \<le> j \<and> j < length s"
        then have "ends rt (Cls k) s j = []"
          using regexExec_None [OF None, of j] by simp
        with j show "\<not> inClass rt k (s ! j)" by (simp split: if_splits)
      qed
      from filter_drop_skip [OF True le_refl this] show ?thesis by simp
    next
      case False
      then show ?thesis by simp
    qed
    with None show ?thesis by (simp add: matchAllFrom.simps [of rt "Cls k" s p])
  next
    case (Some x)
    obtain i e where x: "x = (i, e)" by (cases x)
    note ex = Some [unfolded x]
    from regexExec_Some [OF ex] obtain es where
      h: "ends rt (Cls k) s i = e # es" and b: "p \<le> i" "i \<le> e" "e \<le> length s"
      and n: "\<forall>j. p \<le> j \<and> j < i \<longrightarrow> ends rt (Cls k) s j = []" by blast
    from h have c: "i < length s" "inClass rt k (s ! i)" "e = Suc i"
      by (simp_all split: if_splits)
    have "\<forall>j. p \<le> j \<and> j < i \<longrightarrow> \<not> inClass rt k (s ! j)"
    proof (intro allI impI)
      fix j assume j: "p \<le> j \<and> j < i"
      with n have "ends rt (Cls k) s j = []" by blast
      with j c(1) show "\<not> inClass rt k (s ! j)" by (simp split: if_splits)
    qed
    from filter_drop_skip [OF b(1) _ this] c(1)
    have "filter (inClass rt k) (drop p s) = filter (inClass rt k) (drop i s)" by simp
    also have "drop i s = s ! i # drop (Suc i) s"
      using c(1) by (simp add: Cons_nth_drop_Suc)
    finally have f: "filter (inClass rt k) (drop p s) = s ! i # filter (inClass rt k) (drop (Suc i) s)"
      using c(2) by simp
    have t: "take (e - i) (drop i s) = [s ! i]"
      using c by (simp add: take_Suc_conv_app_nth)
    have "matchAllFrom rt (Cls k) s (Suc i) = map (\<lambda>c. [c]) (filter (inClass rt k) (drop (Suc i) s))"
      using "1.hyps" [OF ex refl] c(3) by simp
    with ex c(3) t f show ?thesis
      by (simp add: matchAllFrom.simps [of rt "Cls k" s p])
  qed
qed

lemma matchAll_rawSymbol:
  "matchAll rt rawSymbolRegex s = map (\<lambda>c. [c]) (filter (\<lambda>c. c \<in> set currencySymbols) s)"
proof -
  have "inClass rt (Chars currencySymbols) = (\<lambda>c. c \<in> set currencySymbols)"
    by (rule ext) (rule inClass_currency)
  then show ?thesis
    by (simp add: matchAll_def rawSymbolRegex_def matchAllFrom_Cls)
qed

lemma symbolAmountRegex_parts:
  "symbolAmountRegex =
     Seq (Cls (Chars currencySymbols)) (Seq (Opt (Cls Space)) (Seq digitsRegex fractionRegex))"
  by (simp add: symbolAmountRegex_def digitsRegex_def fractionRegex_def)

lemma amount_nonempty:
  assumes "j < length s" "isDigit (s ! j)"
  shows "ends rt (Seq digitsRegex fractionRegex) s j \<noteq> []"
proof -
  have "Suc j \<in> set (ends rt (Cls Digit) s j)"
    using assms by simp
  moreover have "ends rt (Star (Cls Digit)) s (Suc j) \<noteq> []"
    by (rule ends_Star_nonempty)
  ultimately have "ends rt digitsRegex s j \<noteq> []"
    unfolding digitsRegex_def by (rule ends_Seq_nonempty)
  then obtain m where "m \<in> set (ends rt digitsRegex s j)"
    by (cases "ends rt digitsRegex s j") auto
  moreover have "ends rt fractionRegex s m \<noteq> []"
    unfolding fractionRegex_def by (rule ends_Opt_nonempty)
  ultimately show ?thesis
    by (rule ends_Seq_nonempty)
qed

lemma amount_ends:
  assumes "e \<in> set (ends rt (Seq digitsRegex fractionRegex) s j)" "j \<le> length s"
  shows "Suc j \<le> e \<and> e \<le> length s"
proof -
  from assms(1) obtain m where
    m: "m \<in> set (ends rt digitsRegex s j)" and e: "e \<in> set (ends rt fractionRegex s m)"
    unfolding ends_Seq_mem by blast
  from m obtain d where d: "d \<in> set (ends rt (Cls Digit) s j)"
    and s: "m \<in> set (ends rt (Star (Cls Digit)) s d)"
    unfolding digitsRegex_def ends_Seq_mem by blast
  from d have dj: "d = Suc j" "j < length s"
    unfolding ends_Cls_mem by simp_all
  from ends_bounds [OF s] dj have "Suc j \<le> m" "m \<le> length s" by simp_all
  with ends_bounds [OF e] show ?thesis by simp
qed

lemma symbolAmount_nonempty:
  assumes "pricedAt s i"
  shows "ends rt symbolAmountRegex s i \<noteq> []"
proof -
  from assms have i: "i < length s" "inClass rt (Chars currencySymbols) (s ! i)"
    by (simp_all add: pricedAt_def inClass_currency)
  then have c: "Suc i \<in> set (ends rt (Cls (Chars currencySymbols)) s i)"
    unfolding ends_Cls_mem by simp
  from assms have
    "(Suc i < length s \<and> isDigit (s ! Suc i))
     \<or> (Suc (Suc i) < length s \<and> isWhiteSpace (s ! Suc i) \<and> isDigit (s ! Suc (Suc i)))"
    by (simp add: pricedAt_def)
  then have "ends rt (Seq (Opt (Cls Space)) (Seq digitsRegex fractionRegex)) s (Suc i) \<noteq> []"
  proof
    assume a: "Suc i < length s \<and> isDigit (s ! Suc i)"
    have "Suc i \<in> set (ends rt (Opt (Cls Space)) s (Suc i))"
      by (rule ends_Opt_skip)
    moreover from a have "ends rt (Seq digitsRegex fractionRegex) s (Suc i) \<noteq> []"
      using amount_nonempty [of "Suc i" s rt] by blast
    ultimately show ?thesis by (rule ends_Seq_nonempty)
  next
    assume a: "Suc (Suc i) < length s \<and> isWhiteSpace (s ! Suc i) \<and> isDigit (s ! Suc (Suc i))"
    then have "Suc (Suc i) \<in> set (ends rt (Cls Space) s (Suc i))"
      unfolding ends_Cls_mem by simp
    then have "Suc (Suc i) \<in> set (ends rt (Opt (Cls Space)) s (Suc i))"
      by (rule ends_Opt_take) simp
    moreover from a have "ends rt (Seq digitsRegex fractionRegex) s (Suc (Suc i)) \<noteq> []"
      using amount_nonempty [of "Suc (Suc i)" s rt] by blast
    ultimately show ?thesis by (rule ends_Seq_nonempty)
  qed
  with c show ?thesis
    unfolding symbolAmountRegex_parts by (rule ends_Seq_nonempty)
qed

lemma symbolAmount_ends:
  assumes "e \<in> set (ends rt symbolAmountRegex s i)"
  shows "i < length s \<and> s ! i \<in> set currencySymbols \<and> Suc (Suc i) \<le> e \<and> e \<le> length s"
proof -
  from assms obtain c where c: "c \<in> set (ends rt (Cls (Chars currencySymbols)) s i)"
    and r: "e \<in> set (ends rt (Seq (Opt (Cls Space)) (Seq digitsRegex fractionRegex)) s c)"
    unfolding symbolAmountRegex_parts ends_Seq_mem by blast
  from c have i: "i < length s" "s ! i \<in> set currencySymbols" "c = Suc i"
    unfolding ends_Cls_mem by (simp_all add: inClass_currency del: inClass.simps)
  from r obtain w where w: "w \<in> set (ends rt (Opt (Cls Space)) s c)"
    and a: "e \<in> set (ends rt (Seq digitsRegex fractionRegex) s w)"
    unfolding ends_Seq_mem by blast
  from ends_bounds [OF w] i have wb: "Suc i \<le> w" "w \<le> length s" by simp_all
  from amount_ends [OF a wb(2)] wb i show ?thesis by simp
qed

lemma matchAll_nonempty: "matchAll rt r s \<noteq> [] \<longleftrightarrow> regexTest rt r s"
  by (cases "regexExec rt r s 0")
     (auto simp: matchAll_def regexTest_def matchAllFrom.simps [of rt r s 0])

lemma symbolAmount_match:
  assumes "m \<in> set (matchAll rt symbolAmountRegex s)"
  shows "\<exists>c rest. m = c # rest \<and> rest \<noteq> [] \<and> c \<in> set currencySymbols \<and> c \<in> set s"
proof -
  from matchAllFrom_elems [OF assms [unfolded matchAll_def]] obtain i e es where
    h: "ends rt symbolAmountRegex s i = e # es" and m: "m = take (e - i) (drop i s)" by blast
  then have "e \<in> set (ends rt symbolAmountRegex s i)" by simp
  from symbolAmount_ends [OF this]
  have b: "i < length s" "s ! i \<in> set currencySymbols" "Suc (Suc i) \<le> e" "e \<le> length s"
    by simp_all
  then obtain n where n: "e - i = Suc (Suc n)"
    by (metis Suc_diff_le Suc_le_D diff_Suc_Suc Suc_leD)
  from b(1) have d: "drop i s = s ! i # drop (Suc i) s"
    by (simp add: Cons_nth_drop_Suc)
  from b n have "Suc i < length s" by simp
  then have d2: "drop (Suc i) s = s ! Suc i # drop (Suc (Suc i)) s"
    by (simp add: Cons_nth_drop_Suc)
  have "m = s ! i # take (Suc n) (drop (Suc i) s)"
    by (simp add: m n d)
  moreover have "take (Suc n) (drop (Suc i) s) \<noteq> []"
    by (simp add: d2)
  moreover have "s ! i \<in> set s" using b(1) by simp
  ultimately show ?thesis using b(2) by blast
qed

lemma pricePattern_iff:
  assumes "testedLabels rt (exceptionChecks detectors) content = []"
  shows "js ''price pattern'' \<in> set (triggerTypes (detectContent rt content detectors config)) \<longleftrightarrow>
     matchedPriceSignals (detectContent rt content detectors config) \<noteq> []"
  using triggerType_literals
  by (simp add: detectContent_no_exception(3) [OF assms])

lemma containsPricedAmount_matches:
  assumes "containsPricedAmount s"
  shows "matchAll rt symbolAmountRegex s \<noteq> []"
proof -
  from assms obtain i where i: "i < length s" "pricedAt s i"
    by (auto simp: containsPricedAmount_def list_ex_iff)
  from symbolAmount_nonempty [OF i(2), of rt] i(1)
  have "\<exists>i \<in> set [0..<Suc (length s)]. ends rt symbolAmountRegex s i \<noteq> []"
    by (auto simp del: upt_Suc)
  then show ?thesis
    by (simp only: matchAll_nonempty regexTest_iff list_ex_iff)
qed

lemma containsCurrencySymbol_matches:
  "containsCurrencySymbol s \<Longrightarrow> matchAll rt rawSymbolRegex s \<noteq> []"
  by (simp add: containsCurrencySymbol_def matchAll_rawSymbol list_ex_iff filter_empty_conv)

lemma ends_consumes:
  "e \<in> set (ends rt r s i) \<Longrightarrow> i \<le> length s \<Longrightarrow> i \<le> j \<Longrightarrow> j < e \<Longrightarrow> consumes rt r (s ! j)"
proof (induction rt r s i arbitrary: e rule: ends.induct)
  case (1 rt s i)
  then show ?case by simp
next
  case (2 rt c s i)
  then have "i < length s" "canonicalize rt (s ! i) = canonicalize rt c" "e = Suc i"
    by (simp_all split: if_splits)
  with "2.prems" have "j = i" by simp
  with \<open>canonicalize rt (s ! i) = canonicalize rt c\<close> show ?case by simp
next
  case (3 rt k s i)
  then have "i < length s" "inClass rt k (s ! i)" "e = Suc i"
    by (simp_all split: if_splits)
  with "3.prems" have "j = i" by simp
  with \<open>inClass rt k (s ! i)\<close> show ?case by simp
next
  case (4 rt s i)
  then show ?case by (simp split: if_splits)
next
  case (5 rt r1 r2 s i)
  from "5.prems"(1) obtain m where m: "m \<in> set (ends rt r1 s i)" and e: "e \<in> set (ends rt r2 s m)"
    by auto
  from ends_bounds [OF m "5.prems"(2)] have b: "i \<le> m" "m \<le> length s" by simp_all
  show ?case
  proof (cases "j < m")
    case True
    from "5.IH"(1) [OF m "5.prems"(2,3) True] show ?thesis by simp
  next
    case False
    then have "m \<le> j" by simp
    from "5.IH"(2) [OF m e b(2) this "5.prems"(4)] show ?thesis by simp
  qed
next
  case (6 rt r s i)
  from "6.prems"(1) have "e = i \<or> e \<in> set (ends rt r s i)" by auto
  with "6.prems" have "e \<in> set (ends rt r s i)" by auto
  from "6.IH" [OF this "6.prems"(2,3,4)] show ?case by simp
next
  case (7 rt r s i)
  from "7.prems"(1) have "e = i \<or> (\<exists>m \<in> set (ends rt r s i). i < m \<and> m \<le> length s
      \<and> e \<in> set (ends rt (Star r) s m))"
    by (subst (asm) ends_Star) (auto split: if_splits)
  with "7.prems"(3,4) obtain m where m: "m \<in> set (ends rt r s i)" and g: "i < m" "m \<le> length s"
    and e: "e \<in> set (ends rt (Star r) s m)" by auto
  show ?case
  proof (cases "j < m")
    case True
    from "7.IH"(1) [OF m "7.prems"(2,3) True] show ?thesis by simp
  next
    case False
    then have mj: "m \<le> j" by simp
    from g have "i < m \<and> m \<le> length s" by simp
    from "7.IH"(2) [OF m this e g(2) mj "7.prems"(4)] show ?thesis by simp
  qed
qed

lemma consumes_symbolAmount:
  "consumes rt symbolAmountRegex c \<Longrightarrow> priceUnit c"
  unfolding symbolAmountRegex_def priceUnit_def
  by (auto simp: inClass_currency inClass_separator simp del: inClass.simps(1))

lemma symbolAmount_match_lower:
  assumes "m \<in> set (matchAll rt symbolAmountRegex s)"
  shows "list_all priceUnit m" and "sliceOf m s"
proof -
  from matchAllFrom_elems [OF assms [unfolded matchAll_def]] obtain i e es where
    h: "ends rt symbolAmountRegex s i = e # es" and m: "m = take (e - i) (drop i s)"
    and b: "i \<le> e" "e \<le> length s" by blast
  then have e: "e \<in> set (ends rt symbolAmountRegex s i)" by simp
  from b have i: "i \<le> length s" by simp
  have "\<forall>c \<in> set m. priceUnit c"
  proof
    fix c assume "c \<in> set m"
    then obtain k where k: "k < length m" "c = m ! k"
      by (auto simp: in_set_conv_nth)
    with m b have "k < e - i" "c = s ! (i + k)" by simp_all
    with ends_consumes [OF e i, of "i + k"] have "consumes rt symbolAmountRegex c" by simp
    then show "priceUnit c" by (rule consumes_symbolAmount)
  qed
  then show "list_all priceUnit m"
    by (simp add: list_all_iff)
  from i b have "i \<in> set [0..<Suc (length s)]" "e - i \<in> set [0..<Suc (length s)]"
    by (simp_all del: upt_Suc)
  with m show "sliceOf m s"
    unfolding sliceOf_def list_ex_iff by blast
qed

lemma rawSymbol_match_lower:
  assumes "m \<in> set (matchAll rt rawSymbolRegex s)"
  shows "list_all priceUnit m" and "sliceOf m s"
proof -
  from assms obtain c where c: "c \<in> set s" "c \<in> set currencySymbols" "m = [c]"
    by (auto simp: matchAll_rawSymbol)
  then show "list_all priceUnit m"
    by (simp add: priceUnit_def)
  from c(1) obtain i where i: "i < length s" "c = s ! i"
    by (auto simp: in_set_conv_nth)
  then have "m = take 1 (drop i s)"
    using c(3) by (simp add: take_Suc_conv_app_nth Cons_nth_drop_Suc [symmetric])
  moreover from i have "i \<in> set [0..<Suc (length s)]" "1 \<in> set [0..<Suc (length s)]"
    by (auto simp del: upt_Suc)
  ultimately show "sliceOf m s"
    unfolding sliceOf_def list_ex_iff by blast
qed

lemma matched_lists_compiled:
  assumes "buildDetectors config = Inr detectors"
  shows "set (matchedTerms (detectContent rt content detectors config)) \<subseteq> set (restrictedTerms config)"
    and "set (matchedPriceSignals (detectContent rt content detectors config)) \<subseteq>
           set (matchAll rt symbolAmountRegex content) \<union> set (matchAll rt rawSymbolRegex content)
           \<union> set (priceKeywords config)"
    and "distinct (matchedTerms (detectContent rt content detectors config))"
    and "distinct (matchedPriceSignals (detectContent rt content detectors config))"
proof -
  have d: "detectors = compiledDetectors config"
    using assms by (rule detectors_compiled)
  show "set (matchedTerms (detectContent rt content detectors config)) \<subseteq> set (restrictedTerms config)"
    by (auto simp: d detectContent_def Let_def set_newSet matchedTerms_compiled)
  show "set (matchedPriceSignals (detectContent rt content detectors config)) \<subseteq>
           set (matchAll rt symbolAmountRegex content) \<union> set (matchAll rt rawSymbolRegex content)
           \<union> set (priceKeywords config)"
    by (auto simp: d detectContent_def Let_def set_newSet matchedKeywords_compiled)
  show "distinct (matchedTerms (detectContent rt content detectors config))"
    by (simp add: detectContent_def Let_def distinct_newSet)
  show "distinct (matchedPriceSignals (detectContent rt content detectors config))"
    by (simp add: detectContent_def Let_def distinct_newSet)
qed

lemma mapGet_mapSet: "mapGet (mapSet m k v) k' = (if k' = k then Some v else mapGet m k')"
  by (induction m) (auto simp: mapGet_def)

lemma set_mapSet: "set (mapSet m k v) \<subseteq> insert (k, v) (set m)"
  by (induction m) (auto split: if_splits)

lemma isCoolingDown_fresh:
  assumes "\<forall>t. mapGet (cooldowns state) (cooldownKey message) = Some t \<longrightarrow>
      t = 0 \<or> warningCooldownMs config \<le> real_of_int (now - t)"
  shows "isCoolingDown state message config now =
     (False, state\<lparr>cooldowns := mapSet (cooldowns state) (cooldownKey message) now\<rparr>)"
  using assms by (auto simp: isCoolingDown_def Let_def split: option.splits)

lemma isCoolingDown_recent:
  assumes "mapGet (cooldowns state) (cooldownKey message) = Some t" "t \<noteq> 0"
    "real_of_int (now - t) < warningCooldownMs config"
  shows "isCoolingDown state message config now = (True, state)"
  using assms by (simp add: isCoolingDown_def Let_def)

lemma takeWhile_separator: "c \<notin> set xs \<Longrightarrow> takeWhile (\<lambda>x. x \<noteq> c) (xs @ c # ys) = xs"
  by (induction xs) auto

lemma cooldownKey_inj:
  assumes "58 \<notin> set (id' (author m1))" "58 \<notin> set (id' (author m2))"
    and "cooldownKey m1 = cooldownKey m2"
  shows "id' (author m1) = id' (author m2) \<and> channelId m1 = channelId m2"
proof -
  have c: "js '':'' = [58]" by (simp add: js_def)
  from assms(3) have e: "id' (author m1) @ 58 # channelId m1 = id' (author m2) @ 58 # channelId m2"
    by (simp add: cooldownKey_def c)
  have "id' (author m1) = takeWhile (\<lambda>x. x \<noteq> 58) (id' (author m1) @ 58 # channelId m1)"
    using assms(1) by (simp add: takeWhile_separator)
  also have "\<dots> = takeWhile (\<lambda>x. x \<noteq> 58) (id' (author m2) @ 58 # channelId m2)"
    by (simp only: e)
  also have "\<dots> = id' (author m2)"
    using assms(2) by (simp add: takeWhile_separator)
  finally have "id' (author m1) = id' (author m2)" .
  with e show ?thesis by simp
qed

lemma countOf_Nil: "countOf [] k = 0"
  by (simp add: countOf_def mapGet_def)

lemma countOf_bumpCount:
  "countOf (bumpCount m k d) k' = countOf m k' + (if k' = k then d else 0)"
  by (simp add: countOf_def bumpCount_def mapGet_mapSet)

lemma countOf_foldl_bumpCount:
  "countOf (foldl (\<lambda>m t. bumpCount m (f t) d) m ts) k =
     countOf m k + d * count_list (map f ts) k"
  by (induction ts arbitrary: m) (simp_all add: countOf_bumpCount)

lemma map_fst_mapSet:
  "map fst (mapSet m k v) = (if k \<in> fst ` set m then map fst m else map fst m @ [k])"
  by (induction m) (auto simp: rev_image_eqI)

lemma keys_mapSet: "fst ` set (mapSet m k v) = insert k (fst ` set m)"
proof -
  have "fst ` set (mapSet m k v) = set (map fst (mapSet m k v))" by simp
  also have "\<dots> = insert k (fst ` set m)"
    by (simp only: map_fst_mapSet) auto
  finally show ?thesis .
qed

lemma keys_bumpCount: "fst ` set (bumpCount m k d) = insert k (fst ` set m)"
  by (simp add: bumpCount_def keys_mapSet)

lemma keys_foldl_bumpCount:
  "fst ` set (foldl (\<lambda>m t. bumpCount m (f t) d) m ts) = fst ` set m \<union> f ` set ts"
  by (induction ts arbitrary: m) (simp_all add: keys_bumpCount)

lemma bumpMetrics_fields:
  "day (metrics (bumpMetrics rt state message detection isoString)) = getUtcDay isoString"
  "triggersToday (metrics (bumpMetrics rt state message detection isoString)) =
     triggersToday (carriedMetrics state isoString) + 1"
  "byChannel (metrics (bumpMetrics rt state message detection isoString)) =
     bumpCount (byChannel (carriedMetrics state isoString)) (channelId message) 1"
  "byRule (metrics (bumpMetrics rt state message detection isoString)) =
     foldl (\<lambda>m s. bumpCount m (js ''price:'' @ toLowerCase rt s) 1)
       (foldl (\<lambda>m t. bumpCount m (js ''term:'' @ toLowerCase rt t) 1)
          (byRule (carriedMetrics state isoString)) (matchedTerms detection))
       (matchedPriceSignals detection)"
  "cooldowns (bumpMetrics rt state message detection isoString) = cooldowns state"
  "modLogChannelIds (bumpMetrics rt state message detection isoString) = modLogChannelIds state"
  by (simp_all add: bumpMetrics_def carriedMetrics_def Let_def)

lemma count_list_pos: "x \<in> set xs \<Longrightarrow> 0 < count_list xs x"
  by (induction xs) auto

lemma sendModLog_returns:
  "snd (snd (sendModLog rt message detection config state warningStatus warningError w)) = None"
  by (simp add: sendModLog_def split: prod.splits option.splits)

lemma sendModLogTry_events:
  "fst (sendModLogTry rt message detection config state warningStatus warningError w) =
     (case fst (resolveModLogChannel rt message config state w) of
        Inl e \<Rightarrow> []
      | Inr None \<Rightarrow>
          [ConsoleError [js ''Rule Guardian: mod-log channel not found. Configure RG_MOD_LOG_CHANNEL_ID or RG_MOD_LOG_CHANNEL_NAME.'']]
      | Inr (Some ch) \<Rightarrow>
          [Send ch (buildModLogMessage message detection config warningStatus warningError
                      (snd (resolveModLogChannel rt message config state w)))])"
  by (simp add: sendModLogTry_def Let_def split: prod.splits sum.splits option.splits)

lemma sendModLog_events:
  "fst (sendModLog rt message detection config state warningStatus warningError w) =
     fst (sendModLogTry rt message detection config state warningStatus warningError w)
     @ (case snd (snd (sendModLogTry rt message detection config state warningStatus warningError w)) of
          None \<Rightarrow> []
        | Some e \<Rightarrow>
            [ConsoleError [js ''Rule Guardian: failed to send mod-log message:'', formatError e]])"
  by (simp add: sendModLog_def split: prod.splits option.splits)

lemma sendModLog_no_reply:
  "Reply t \<notin> set (fst (sendModLog rt message detection config state warningStatus warningError w))"
  by (simp add: sendModLog_events sendModLogTry_events split: sum.splits option.splits)

lemma sendModLog_sends:
  assumes "fst (resolveModLogChannel rt message config state w) = Inr (Some ch)"
  shows "Send ch (buildModLogMessage message detection config warningStatus warningError
                    (snd (resolveModLogChannel rt message config state w)))
           \<in> set (fst (sendModLog rt message detection config state warningStatus warningError w))"
  by (simp add: sendModLog_events sendModLogTry_events assms)

lemma buildModLogLines_status:
  "js ''Warning status: '' @ warningStatus
     \<in> set (buildModLogLines message detection config warningStatus warningError state)"
  by (simp add: buildModLogLines_def Let_def)

lemma buildModLogLines_error:
  "warningError \<noteq> [] \<Longrightarrow>
     js ''Warning error: '' @ warningError
       \<in> set (buildModLogLines message detection config warningStatus warningError state)"
  by (simp add: buildModLogLines_def Let_def)

lemma handleTriggeredMessage_suppressed:
  assumes "fst (isCoolingDown state message config (dateNow w))"
  shows "handleTriggeredMessage rt message detection config state w =
     sendModLog rt message detection config (snd (isCoolingDown state message config (dateNow w)))
       (js ''cooldown_suppressed'') [] w"
  using assms
  by (cases "isCoolingDown state message config (dateNow w)")
     (simp add: handleTriggeredMessage_def Let_def split: prod.splits)

lemma handleTriggeredMessage_failed:
  assumes "\<not> fst (isCoolingDown state message config (dateNow w))"
    and "replyOutcome w (buildWarningMessage rt config detection message) = Some e"
  shows "handleTriggeredMessage rt message detection config state w =
     (Reply (buildWarningMessage rt config detection message)
        # fst (sendModLog rt message detection config
                 (snd (isCoolingDown state message config (dateNow w)))
                 (js ''failed'') (formatError e) w),
      snd (sendModLog rt message detection config
             (snd (isCoolingDown state message config (dateNow w)))
             (js ''failed'') (formatError e) w))"
  using assms
  by (cases "isCoolingDown state message config (dateNow w)")
     (simp add: handleTriggeredMessage_def Let_def split: prod.splits)

lemma handleTriggeredMessage_sent:
  assumes "\<not> fst (isCoolingDown state message config (dateNow w))"
    and "replyOutcome w (buildWarningMessage rt config detection message) = None"
  shows "handleTriggeredMessage rt message detection config state w =
     (Reply (buildWarningMessage rt config detection message)
        # fst (sendModLog rt message detection config
                 (snd (isCoolingDown state message config (dateNow w)))
                 (js ''sent'') [] w),
      snd (sendModLog rt message detection config
             (snd (isCoolingDown state message config (dateNow w)))
             (js ''sent'') [] w))"
  using assms
  by (cases "isCoolingDown state message config (dateNow w)")
     (simp add: handleTriggeredMessage_def Let_def split: prod.splits)

lemma handleTriggeredMessage_returns:
  "snd (snd (handleTriggeredMessage rt message detection config state w)) = None"
proof (cases "fst (isCoolingDown state message config (dateNow w))")
  case True
  then show ?thesis
    by (simp add: handleTriggeredMessage_suppressed sendModLog_returns)
next
  case False
  then show ?thesis
    by (cases "replyOutcome w (buildWarningMessage rt config detection message)")
       (simp_all add: handleTriggeredMessage_failed handleTriggeredMessage_sent sendModLog_returns)
qed

lemma sendModLog_not_found:
  assumes "fst (resolveModLogChannel rt message config state w) = Inr None"
  shows "fst (sendModLog rt message detection config state warningStatus warningError w) =
     [ConsoleError [js ''Rule Guardian: mod-log channel not found. Configure RG_MOD_LOG_CHANNEL_ID or RG_MOD_LOG_CHANNEL_NAME.'']]"
  using assms
  by (cases "resolveModLogChannel rt message config state w")
     (simp add: sendModLog_def sendModLogTry_def)

lemma sendModLog_resolve_throws:
  assumes "fst (resolveModLogChannel rt message config state w) = Inl e"
  shows "fst (sendModLog rt message detection config state warningStatus warningError w) =
     [ConsoleError [js ''Rule Guardian: failed to send mod-log message:'', formatError e]]"
  using assms
  by (cases "resolveModLogChannel rt message config state w")
     (simp add: sendModLog_def sendModLogTry_def)

lemma sendModLog_send_throws:
  assumes "fst (resolveModLogChannel rt message config state w) = Inr (Some ch)"
    and "sendOutcome w ch (buildModLogMessage message detection config warningStatus warningError
           (snd (resolveModLogChannel rt message config state w))) = Some e"
  shows "fst (sendModLog rt message detection config state warningStatus warningError w) =
     [Send ch (buildModLogMessage message detection config warningStatus warningError
                 (snd (resolveModLogChannel rt message config state w))),
      ConsoleError [js ''Rule Guardian: failed to send mod-log message:'', formatError e]]"
  using assms
  by (cases "resolveModLogChannel rt message config state w")
     (simp add: sendModLog_def sendModLogTry_def Let_def)

lemma containsBounded_empty: "\<not> containsBounded rt t []"
  by (simp add: containsBounded_def boundedAt_def isWordBoundary_def wordBefore_def
      wordAfter_def)

lemma matchAll_empty:
  "matchAll rt symbolAmountRegex [] = []" "matchAll rt rawSymbolRegex [] = []"
proof -
  have "\<not> regexTest rt symbolAmountRegex []"
    by (simp add: regexTest_iff symbolAmountRegex_def)
  then show "matchAll rt symbolAmountRegex [] = []"
    using matchAll_nonempty [of rt symbolAmountRegex "[]"] by blast
  show "matchAll rt rawSymbolRegex [] = []"
    by (simp add: matchAll_rawSymbol)
qed

lemma detectContent_empty:
  "detectContent rt [] (compiledDetectors config) config =
     \<lparr>triggered = False, matchedTerms = [], matchedPriceSignals = [], triggerTypes = []\<rparr>"
  by (simp add: detectContent_def Let_def matchedTerms_compiled matchedKeywords_compiled
      containsBounded_empty matchAll_empty newSet_def)

lemma isWordChar_ascii: "isWordChar c \<Longrightarrow> c < 128"
  by (auto simp: isWordChar_def isDigit_def)

lemma asciiUpperUnit_isWordChar:
  "asciiUpperUnit a = asciiUpperUnit b \<Longrightarrow> isWordChar a = isWordChar b"
  unfolding asciiUpperUnit_def isWordChar_def isDigit_def
  by (simp split: if_splits) arith+

lemma canonicalize_isWordChar:
  assumes "canonicalize rt a = canonicalize rt b"
  shows "isWordChar a = isWordChar b"
proof (cases "a < 128")
  case True
  with assms have "b < 128"
    using canonicalize_ascii_iff [of rt a] canonicalize_ascii_iff [of rt b] by simp
  with True assms have "asciiUpperUnit a = asciiUpperUnit b"
    by (simp add: canonicalize_ascii)
  then show ?thesis by (rule asciiUpperUnit_isWordChar)
next
  case False
  with assms have "\<not> b < 128"
    using canonicalize_ascii_iff [of rt a] canonicalize_ascii_iff [of rt b] by simp
  with False show ?thesis
    using isWordChar_ascii [of a] isWordChar_ascii [of b] by blast
qed

lemma occursAt_nth:
  "occursAt rt p s i \<Longrightarrow> k < length p \<Longrightarrow>
     i + k < length s \<and> canonicalize rt (s ! (i + k)) = canonicalize rt (p ! k)"
proof (induction p arbitrary: i k)
  case Nil
  then show ?case by simp
next
  case (Cons c p)
  from Cons.prems(1) have h: "i < length s" "canonicalize rt (s ! i) = canonicalize rt c"
    "occursAt rt p s (Suc i)"
    by (simp_all add: occursAt_Cons)
  show ?case
  proof (cases k)
    case 0
    with h show ?thesis by simp
  next
    case (Suc n)
    with Cons.prems(2) have "n < length p" by simp
    from Cons.IH [OF h(3) this] Suc show ?thesis by simp
  qed
qed

text \<open>
  For a term that begins and ends with a word character, an occurrence has a word
  boundary at both ends exactly when no word character stands next to it on either side.
\<close>

lemma boundedAt_delimited:
  assumes "t \<noteq> []" "isWordChar (hd t)" "isWordChar (last t)"
  shows "boundedAt rt t s i \<longleftrightarrow>
     occursAt rt t s i \<and> \<not> wordBefore s i \<and> \<not> wordAfter s (i + length t)"
proof (cases "occursAt rt t s i")
  case False
  then show ?thesis by (simp add: boundedAt_def)
next
  case True
  from assms(1) have l: "0 < length t" by simp
  from occursAt_nth [OF True l] have f: "i < length s" "canonicalize rt (s ! i) = canonicalize rt (t ! 0)"
    by simp_all
  from assms(1,2) have "isWordChar (t ! 0)" by (simp add: hd_conv_nth)
  with canonicalize_isWordChar [OF f(2)] f(1) have a: "wordAfter s i"
    by (simp add: wordAfter_def)
  from l have l1: "length t - 1 < length t" by simp
  from occursAt_nth [OF True l1] have g: "i + (length t - 1) < length s"
    "canonicalize rt (s ! (i + (length t - 1))) = canonicalize rt (t ! (length t - 1))"
    by simp_all
  from assms(1,3) have "isWordChar (t ! (length t - 1))" by (simp add: last_conv_nth)
  with canonicalize_isWordChar [OF g(2)] have "isWordChar (s ! (i + (length t - 1)))" by simp
  moreover from l have "i + length t - 1 = i + (length t - 1)" by arith
  ultimately have b: "wordBefore s (i + length t)"
    using g(1) l by (simp add: wordBefore_def)
  from True a b show ?thesis
    by (simp add: boundedAt_def isWordBoundary_def)
qed

lemma wordEdged_iff: "wordEdged t \<longleftrightarrow> t \<noteq> [] \<and> isWordChar (hd t) \<and> isWordChar (last t)"
  by (cases t) (simp_all add: wordEdged_def)

lemma wholeWordAt_bounded: "wordEdged t \<Longrightarrow> wholeWordAt rt t s i \<longleftrightarrow> boundedAt rt t s i"
  using boundedAt_delimited [of t rt s i] by (simp add: wordEdged_iff wholeWordAt_def)

lemma containsWholeWord_bounded:
  "wordEdged t \<Longrightarrow> containsWholeWord rt t s \<longleftrightarrow> containsBounded rt t s"
  by (simp only: containsWholeWord_def containsBounded_def list_ex_iff)
     (simp add: wholeWordAt_bounded)

lemma onMessageCreate_returns:
  "snd (snd (onMessageCreate rt message config detectors state w)) = None"
  by (simp add: onMessageCreate_def Let_def handleTriggeredMessage_returns)

lemma resolveModLogChannel_cooldowns:
  "cooldowns (snd (resolveModLogChannel rt message config state w)) = cooldowns state"
  by (simp add: resolveModLogChannel_def Let_def
      split: option.splits sum.splits prod.splits if_splits)

lemma sendModLog_cooldowns:
  "cooldowns (fst (snd (sendModLog rt message detection config state warningStatus warningError w)))
     = cooldowns state"
  using resolveModLogChannel_cooldowns [of rt message config state w]
  by (cases "resolveModLogChannel rt message config state w")
     (simp add: sendModLog_def sendModLogTry_def Let_def
        split: sum.splits option.splits prod.splits)

lemma handleTriggeredMessage_cooldowns:
  "cooldowns (fst (snd (handleTriggeredMessage rt message detection config state w)))
     = cooldowns (snd (isCoolingDown state message config (dateNow w)))"
proof (cases "fst (isCoolingDown state message config (dateNow w))")
  case True
  then show ?thesis
    by (simp add: handleTriggeredMessage_suppressed sendModLog_cooldowns)
next
  case False
  then show ?thesis
    by (cases "replyOutcome w (buildWarningMessage rt config detection message)")
       (simp_all add: handleTriggeredMessage_failed handleTriggeredMessage_sent
          sendModLog_cooldowns)
qed

section \<open>The claims\<close>

text \<open>
  C1. For every message text and whatever the case tables of the runtime: when a
  configured exception pattern matches the text as a case-insensitive substring (a slice
  of the text agrees with the pattern, code unit by code unit, under the runtime's
  case-insensitive comparison), the verdict of the classifier has \<open>triggered = false\<close> and
  its matched terms, matched price signals and trigger types are empty, whatever
  restricted terms and price signals the text also holds. The detectors are the ones
  \<open>buildDetectors\<close> compiles from the configuration.
\<close>

theorem exception_overrides:
  assumes "buildDetectors config = Inr detectors"
    and "p \<in> set (exceptionPatterns config)"
    and "containsIgnoringCase rt p content"
  shows "detectContent rt content detectors config =
     \<lparr>triggered = False, matchedTerms = [], matchedPriceSignals = [], triggerTypes = []\<rparr>"
proof -
  have d: "detectors = compiledDetectors config"
    using assms(1) by (rule detectors_compiled)
  have "p \<in> set (testedLabels rt (exceptionChecks detectors) content)"
    using assms(2,3) by (simp add: d exceptionMatches_compiled)
  then have "length (testedLabels rt (exceptionChecks detectors) content) > 0"
    by (cases "testedLabels rt (exceptionChecks detectors) content") simp_all
  then show ?thesis
    by (simp add: detectContent_def Let_def)
qed

text \<open>
  The instance: the exception pattern is \<open>caf\<close> followed by the small e with acute
  accent (233); the text holds it in capitals (201 is the capital of 233), and also the
  restricted term \<open>sell\<close> and a price, which trigger when no exception is configured.
  The comparison is the one of the pattern language without flag \<open>u\<close>: the Cyrillic
  \<open>da\<close> (1076, 1072) is found in its capitals (1044, 1040); the long s (383) is not an
  \<open>s\<close>, the Kelvin sign (8490) not a \<open>k\<close>, and the sharp s (223) not \<open>ss\<close>.
\<close>

theorem exception_overrides_witness:
  "buildDetectors (defaultConfig\<lparr>exceptionPatterns := [js ''caf'' @ [233]]\<rparr>)
     = Inr (compiledDetectors (defaultConfig\<lparr>exceptionPatterns := [js ''caf'' @ [233]]\<rparr>))
   \<and> js ''caf'' @ [233]
       \<in> set (exceptionPatterns (defaultConfig\<lparr>exceptionPatterns := [js ''caf'' @ [233]]\<rparr>))
   \<and> containsIgnoringCase sampleRuntime (js ''caf'' @ [233])
        (js ''We SELL at the CAF'' @ [201] @ js '' for $5'')
   \<and> detectContent sampleRuntime (js ''We SELL at the CAF'' @ [201] @ js '' for $5'')
         (compiledDetectors (defaultConfig\<lparr>exceptionPatterns := [js ''caf'' @ [233]]\<rparr>))
         (defaultConfig\<lparr>exceptionPatterns := [js ''caf'' @ [233]]\<rparr>)
       = \<lparr>triggered = False, matchedTerms = [], matchedPriceSignals = [], triggerTypes = []\<rparr>
   \<and> triggered (detectContent sampleRuntime (js ''We SELL at the CAF'' @ [201] @ js '' for $5'')
         (compiledDetectors defaultConfig) defaultConfig)
   \<and> containsIgnoringCase sampleRuntime [1076, 1072] [1044, 1040]
   \<and> \<not> containsIgnoringCase sampleRuntime (js ''s'') [383]
   \<and> \<not> containsIgnoringCase sampleRuntime (js ''k'') [8490]
   \<and> \<not> containsIgnoringCase sampleRuntime (js ''ss'') [223]"
proof -
  let ?c = "defaultConfig\<lparr>exceptionPatterns := [js ''caf'' @ [233]]\<rparr>"
  let ?s = "js ''We SELL at the CAF'' @ [201] @ js '' for $5''"
  have h1: "buildDetectors ?c = Inr (compiledDetectors ?c)"
    by (rule buildDetectors_compiled)
  have h2: "js ''caf'' @ [233] \<in> set (exceptionPatterns ?c)"
    by simp
  have h3: "containsIgnoringCase sampleRuntime (js ''caf'' @ [233]) ?s"
    by code_simp
  have h4: "triggered (detectContent sampleRuntime ?s (compiledDetectors defaultConfig)
      defaultConfig)"
    by code_simp
  have h5: "containsIgnoringCase sampleRuntime [1076, 1072] [1044, 1040]"
    "\<not> containsIgnoringCase sampleRuntime (js ''s'') [383]"
    "\<not> containsIgnoringCase sampleRuntime (js ''k'') [8490]"
    "\<not> containsIgnoringCase sampleRuntime (js ''ss'') [223]"
    by code_simp+
  from exception_overrides [OF h1 h2 h3] h1 h2 h3 h4 h5 show ?thesis
    by simp
qed

text \<open>
  C2. For every message text that no exception pattern matches: \<open>triggered\<close> is true
  exactly when the matched terms or the matched price signals are non-empty; the
  word-match trigger type (\<open>'word match'\<close>) is among the trigger types exactly when the
  matched terms are non-empty, and the price-pattern trigger type (\<open>'price pattern'\<close>)
  exactly when the matched price signals are non-empty. The matched terms are the
  configured restricted terms of which an occurrence has a word boundary of the pattern
  language at both ends. In particular a text that holds, as a whole word and
  case-insensitively, a configured restricted term that begins and ends with a word
  character (a letter from \<open>a\<close> to \<open>z\<close> or \<open>A\<close> to \<open>Z\<close>, a digit or the underscore) has the
  word-match trigger type.

  The claim as the specification has it, for every configured term, does not hold: a
  term with another character at one of its ends, as \<open>c++\<close>, is not found where it
  stands between two spaces (the instance after the theorem and its witness).
\<close>

theorem verdict_assembly:
  assumes "buildDetectors config = Inr detectors"
    and "\<forall>p \<in> set (exceptionPatterns config). \<not> containsIgnoringCase rt p content"
  shows "(triggered (detectContent rt content detectors config) \<longleftrightarrow>
            matchedTerms (detectContent rt content detectors config) \<noteq> []
            \<or> matchedPriceSignals (detectContent rt content detectors config) \<noteq> [])
       \<and> (js ''word match'' \<in> set (triggerTypes (detectContent rt content detectors config)) \<longleftrightarrow>
            matchedTerms (detectContent rt content detectors config) \<noteq> [])
       \<and> (js ''price pattern'' \<in> set (triggerTypes (detectContent rt content detectors config)) \<longleftrightarrow>
            matchedPriceSignals (detectContent rt content detectors config) \<noteq> [])
       \<and> set (matchedTerms (detectContent rt content detectors config)) =
            {t \<in> set (restrictedTerms config). containsBounded rt t content}
       \<and> (\<forall>t \<in> set (restrictedTerms config). wordEdged t \<longrightarrow> containsWholeWord rt t content \<longrightarrow>
            js ''word match'' \<in> set (triggerTypes (detectContent rt content detectors config)))"
proof -
  let ?v = "detectContent rt content detectors config"
  have d: "detectors = compiledDetectors config"
    using assms(1) by (rule detectors_compiled)
  have e: "testedLabels rt (exceptionChecks detectors) content = []"
    using assms(2) by (simp add: d exceptionMatches_compiled)
  note f = detectContent_no_exception [OF e, of config]
  have t: "triggered ?v \<longleftrightarrow> matchedTerms ?v \<noteq> [] \<or> matchedPriceSignals ?v \<noteq> []"
    by (simp only: f(4)) (simp add: f(3))
  have w: "js ''word match'' \<in> set (triggerTypes ?v) \<longleftrightarrow> matchedTerms ?v \<noteq> []"
    using triggerType_literals by (simp add: f(3))
  have p: "js ''price pattern'' \<in> set (triggerTypes ?v) \<longleftrightarrow> matchedPriceSignals ?v \<noteq> []"
    using triggerType_literals by (simp add: f(3))
  have m: "set (matchedTerms ?v) = {t \<in> set (restrictedTerms config). containsBounded rt t content}"
    by (simp only: f(1) set_newSet) (simp add: d matchedTerms_compiled)
  have "\<forall>t \<in> set (restrictedTerms config). wordEdged t \<longrightarrow> containsWholeWord rt t content \<longrightarrow>
      js ''word match'' \<in> set (triggerTypes ?v)"
  proof (intro ballI impI)
    fix t assume "t \<in> set (restrictedTerms config)" "wordEdged t" "containsWholeWord rt t content"
    then have "t \<in> set (matchedTerms ?v)" by (simp add: m containsWholeWord_bounded)
    then have "matchedTerms ?v \<noteq> []" by (cases "matchedTerms ?v") simp_all
    with w show "js ''word match'' \<in> set (triggerTypes ?v)" by blast
  qed
  with t w p m show ?thesis by blast
qed

theorem verdict_assembly_witness:
  "buildDetectors (defaultConfig\<lparr>exceptionPatterns := [js ''sell my card'']\<rparr>)
     = Inr (compiledDetectors (defaultConfig\<lparr>exceptionPatterns := [js ''sell my card'']\<rparr>))
   \<and> \<not> containsIgnoringCase sampleRuntime (js ''sell my card'') (js ''I want to Sell my old card'')
   \<and> wordEdged (js ''sell'')
   \<and> containsWholeWord sampleRuntime (js ''sell'') (js ''I want to Sell my old card'')
   \<and> triggered (detectContent sampleRuntime (js ''I want to Sell my old card'')
         (compiledDetectors (defaultConfig\<lparr>exceptionPatterns := [js ''sell my card'']\<rparr>))
         (defaultConfig\<lparr>exceptionPatterns := [js ''sell my card'']\<rparr>))
   \<and> js ''word match'' \<in> set (triggerTypes (detectContent sampleRuntime
         (js ''I want to Sell my old card'')
         (compiledDetectors (defaultConfig\<lparr>exceptionPatterns := [js ''sell my card'']\<rparr>))
         (defaultConfig\<lparr>exceptionPatterns := [js ''sell my card'']\<rparr>)))
   \<and> detectContent sampleRuntime (js ''I want to Sell my old card'')
         (compiledDetectors (defaultConfig\<lparr>exceptionPatterns := [js ''sell my card'']\<rparr>))
         (defaultConfig\<lparr>exceptionPatterns := [js ''sell my card'']\<rparr>)
       = \<lparr>triggered = True, matchedTerms = [js ''sell''], matchedPriceSignals = [],
          triggerTypes = [js ''word match'']\<rparr>
   \<and> \<not> containsWholeWord sampleRuntime (js ''sell'') (js ''best seller, reselling'')
   \<and> \<not> triggered (detectContent sampleRuntime (js ''best seller, reselling'')
         (compiledDetectors (defaultConfig\<lparr>exceptionPatterns := [js ''sell my card'']\<rparr>))
         (defaultConfig\<lparr>exceptionPatterns := [js ''sell my card'']\<rparr>))"
proof -
  let ?c = "defaultConfig\<lparr>exceptionPatterns := [js ''sell my card'']\<rparr>"
  let ?s = "js ''I want to Sell my old card''"
  have h1: "buildDetectors ?c = Inr (compiledDetectors ?c)"
    by (rule buildDetectors_compiled)
  have n: "\<not> containsIgnoringCase sampleRuntime (js ''sell my card'') ?s"
    by code_simp
  have h2: "\<forall>p \<in> set (exceptionPatterns ?c). \<not> containsIgnoringCase sampleRuntime p ?s"
    using n by simp
  have e: "wordEdged (js ''sell'')"
    by code_simp
  have w: "containsWholeWord sampleRuntime (js ''sell'') ?s"
    by code_simp
  have t: "js ''sell'' \<in> set (restrictedTerms ?c)"
    by (simp add: defaultConfig_def)
  have m: "detectContent sampleRuntime ?s (compiledDetectors ?c) ?c
       = \<lparr>triggered = True, matchedTerms = [js ''sell''], matchedPriceSignals = [],
          triggerTypes = [js ''word match'']\<rparr>"
    by code_simp
  have x: "\<not> containsWholeWord sampleRuntime (js ''sell'') (js ''best seller, reselling'')"
    by code_simp
  have y: "\<not> triggered (detectContent sampleRuntime (js ''best seller, reselling'')
         (compiledDetectors ?c) ?c)"
    by code_simp
  from verdict_assembly [OF h1 h2] t e w
  have "triggered (detectContent sampleRuntime ?s (compiledDetectors ?c) ?c)
      \<and> js ''word match'' \<in> set (triggerTypes (detectContent sampleRuntime ?s
            (compiledDetectors ?c) ?c))"
    by (simp add: m)
  with h1 n e w m x y show ?thesis
    by blast
qed

text \<open>
  The restricted term \<open>c++\<close> stands between two spaces in \<open>I like c++ a lot\<close>, no
  exception pattern is configured, and the verdict has no trigger type: after the last
  \<open>+\<close> comes a space, which is no word boundary.
\<close>

theorem verdict_assembly_counterexample:
  "buildDetectors (defaultConfig\<lparr>restrictedTerms := [js ''c++'']\<rparr>)
     = Inr (compiledDetectors (defaultConfig\<lparr>restrictedTerms := [js ''c++'']\<rparr>))
   \<and> exceptionPatterns (defaultConfig\<lparr>restrictedTerms := [js ''c++'']\<rparr>) = []
   \<and> js ''c++'' \<in> set (restrictedTerms (defaultConfig\<lparr>restrictedTerms := [js ''c++'']\<rparr>))
   \<and> containsWholeWord sampleRuntime (js ''c++'') (js ''I like c++ a lot'')
   \<and> js ''word match'' \<notin> set (triggerTypes (detectContent sampleRuntime (js ''I like c++ a lot'')
         (compiledDetectors (defaultConfig\<lparr>restrictedTerms := [js ''c++'']\<rparr>))
         (defaultConfig\<lparr>restrictedTerms := [js ''c++'']\<rparr>)))
   \<and> detectContent sampleRuntime (js ''I like c++ a lot'')
         (compiledDetectors (defaultConfig\<lparr>restrictedTerms := [js ''c++'']\<rparr>))
         (defaultConfig\<lparr>restrictedTerms := [js ''c++'']\<rparr>)
       = \<lparr>triggered = False, matchedTerms = [], matchedPriceSignals = [], triggerTypes = []\<rparr>"
proof -
  let ?c = "defaultConfig\<lparr>restrictedTerms := [js ''c++'']\<rparr>"
  have h1: "buildDetectors ?c = Inr (compiledDetectors ?c)"
    by (rule buildDetectors_compiled)
  have h2: "exceptionPatterns ?c = []"
    by (simp add: defaultConfig_def)
  have h3: "js ''c++'' \<in> set (restrictedTerms ?c)"
    by simp
  have h4: "containsWholeWord sampleRuntime (js ''c++'') (js ''I like c++ a lot'')"
    by code_simp
  have h5: "detectContent sampleRuntime (js ''I like c++ a lot'') (compiledDetectors ?c) ?c
       = \<lparr>triggered = False, matchedTerms = [], matchedPriceSignals = [], triggerTypes = []\<rparr>"
    by code_simp
  from h5 have h6: "js ''word match'' \<notin> set (triggerTypes (detectContent sampleRuntime
      (js ''I like c++ a lot'') (compiledDetectors ?c) ?c))"
    by simp
  from h1 h2 h3 h4 h6 h5 show ?thesis
    by blast
qed

text \<open>
  C3. For every cooldown duration \<open>D > 0\<close> and every (user, channel) key: a
  warning-eligible trigger at \<open>t1\<close> with no prior entry (or with a stale one, or with the
  recorded timestamp 0, which counts as no entry) is not suppressed and records \<open>t1\<close>; a
  later trigger for the key less than \<open>D\<close> milliseconds after \<open>t1\<close> is suppressed and
  leaves the state as it is, when \<open>t1\<close> is not 0; once \<open>D\<close> or more have elapsed since
  \<open>t1\<close> the next trigger is not suppressed again and records its own timestamp. For
  \<open>D = 0\<close> the tracker does not suppress a call whose timestamp is not earlier than the
  one recorded for the key, and records the timestamp of the call; a call whose timestamp
  is earlier than the recorded one is suppressed and records nothing.

  The claim as the specification has it does not hold: with \<open>D = 0\<close> a call is suppressed
  when the clock has stepped back behind the recorded timestamp, and with \<open>D > 0\<close> a
  trigger recorded at timestamp 0 suppresses nothing (the instances after
  the theorem and its witness).
\<close>

theorem cooldown_window:
  "(0 < warningCooldownMs config \<longrightarrow>
      (\<forall>t. mapGet (cooldowns state) (cooldownKey message) = Some t \<longrightarrow>
           t = 0 \<or> warningCooldownMs config \<le> real_of_int (t1 - t)) \<longrightarrow>
        isCoolingDown state message config t1 =
          (False, state\<lparr>cooldowns := mapSet (cooldowns state) (cooldownKey message) t1\<rparr>)
      \<and> mapGet (cooldowns (snd (isCoolingDown state message config t1))) (cooldownKey message)
          = Some t1
      \<and> (t1 \<noteq> 0 \<longrightarrow>
           (\<forall>t2. real_of_int (t2 - t1) < warningCooldownMs config \<longrightarrow>
              isCoolingDown (snd (isCoolingDown state message config t1)) message config t2 =
                (True, snd (isCoolingDown state message config t1))))
      \<and> (\<forall>t3. warningCooldownMs config \<le> real_of_int (t3 - t1) \<longrightarrow>
            fst (isCoolingDown (snd (isCoolingDown state message config t1)) message config t3)
              = False
            \<and> mapGet (cooldowns (snd (isCoolingDown
                 (snd (isCoolingDown state message config t1)) message config t3)))
                 (cooldownKey message) = Some t3))
   \<and> (warningCooldownMs config = 0 \<longrightarrow>
        (\<forall>t. mapGet (cooldowns state) (cooldownKey message) = Some t \<longrightarrow> t = 0 \<or> t \<le> t1) \<longrightarrow>
          isCoolingDown state message config t1 =
            (False, state\<lparr>cooldowns := mapSet (cooldowns state) (cooldownKey message) t1\<rparr>)
        \<and> mapGet (cooldowns (snd (isCoolingDown state message config t1))) (cooldownKey message)
            = Some t1)
   \<and> (warningCooldownMs config = 0 \<longrightarrow>
        (\<forall>t. mapGet (cooldowns state) (cooldownKey message) = Some t \<longrightarrow> t \<noteq> 0 \<longrightarrow> t1 < t \<longrightarrow>
           isCoolingDown state message config t1 = (True, state)))"
proof (intro conjI impI)
  let ?k = "cooldownKey message"
  let ?s1 = "state\<lparr>cooldowns := mapSet (cooldowns state) ?k t1\<rparr>"
  assume d: "0 < warningCooldownMs config"
    and stale: "\<forall>t. mapGet (cooldowns state) ?k = Some t \<longrightarrow>
        t = 0 \<or> warningCooldownMs config \<le> real_of_int (t1 - t)"
  from stale show first: "isCoolingDown state message config t1 = (False, ?s1)"
    by (rule isCoolingDown_fresh)
  have rec: "mapGet (cooldowns ?s1) ?k = Some t1"
    by (simp add: mapGet_mapSet)
  then show "mapGet (cooldowns (snd (isCoolingDown state message config t1))) ?k = Some t1"
    by (simp add: first)
  show "\<forall>t3. warningCooldownMs config \<le> real_of_int (t3 - t1) \<longrightarrow>
      fst (isCoolingDown (snd (isCoolingDown state message config t1)) message config t3) = False
      \<and> mapGet (cooldowns (snd (isCoolingDown
           (snd (isCoolingDown state message config t1)) message config t3))) ?k = Some t3"
  proof (intro allI impI)
    fix t3 assume e: "warningCooldownMs config \<le> real_of_int (t3 - t1)"
    have "isCoolingDown ?s1 message config t3 =
        (False, ?s1\<lparr>cooldowns := mapSet (cooldowns ?s1) ?k t3\<rparr>)"
      using e rec by (intro isCoolingDown_fresh) simp
    then show "fst (isCoolingDown (snd (isCoolingDown state message config t1)) message config t3)
        = False
      \<and> mapGet (cooldowns (snd (isCoolingDown
           (snd (isCoolingDown state message config t1)) message config t3))) ?k = Some t3"
      by (simp add: first mapGet_mapSet)
  qed
  assume pos: "t1 \<noteq> 0"
  show "\<forall>t2. real_of_int (t2 - t1) < warningCooldownMs config \<longrightarrow>
      isCoolingDown (snd (isCoolingDown state message config t1)) message config t2 =
        (True, snd (isCoolingDown state message config t1))"
    using isCoolingDown_recent [OF rec pos] by (simp add: first)
next
  let ?k = "cooldownKey message"
  assume z: "warningCooldownMs config = 0"
    and old: "\<forall>t. mapGet (cooldowns state) ?k = Some t \<longrightarrow> t = 0 \<or> t \<le> t1"
  have "\<forall>t. mapGet (cooldowns state) ?k = Some t \<longrightarrow>
      t = 0 \<or> warningCooldownMs config \<le> real_of_int (t1 - t)"
    using old z by auto
  from isCoolingDown_fresh [OF this]
  show f: "isCoolingDown state message config t1 =
      (False, state\<lparr>cooldowns := mapSet (cooldowns state) ?k t1\<rparr>)" .
  then show "mapGet (cooldowns (snd (isCoolingDown state message config t1))) ?k = Some t1"
    by (simp add: mapGet_mapSet)
next
  assume z: "warningCooldownMs config = 0"
  show "\<forall>t. mapGet (cooldowns state) (cooldownKey message) = Some t \<longrightarrow> t \<noteq> 0 \<longrightarrow> t1 < t \<longrightarrow>
      isCoolingDown state message config t1 = (True, state)"
  proof (intro allI impI)
    fix t
    assume g: "mapGet (cooldowns state) (cooldownKey message) = Some t" and n: "t \<noteq> 0"
      and l: "t1 < t"
    from l z have "real_of_int (t1 - t) < warningCooldownMs config" by simp
    from isCoolingDown_recent [OF g n this]
    show "isCoolingDown state message config t1 = (True, state)" .
  qed
qed

theorem cooldown_window_witness:
  "0 < warningCooldownMs (defaultConfig\<lparr>warningCooldownMs := 30000\<rparr>)
   \<and> mapGet (cooldowns ((initialState (js ''2024-05-01T10:00:00.000Z''))
        \<lparr>cooldowns := [(js ''1001:7'', 400)]\<rparr>)) (cooldownKey sampleMessage) = Some 400
   \<and> warningCooldownMs (defaultConfig\<lparr>warningCooldownMs := 30000\<rparr>) \<le> real_of_int (40000 - 400)
   \<and> isCoolingDown
        ((initialState (js ''2024-05-01T10:00:00.000Z''))\<lparr>cooldowns := [(js ''1001:7'', 400)]\<rparr>)
        sampleMessage (defaultConfig\<lparr>warningCooldownMs := 30000\<rparr>) 40000
      = (False,
         (initialState (js ''2024-05-01T10:00:00.000Z''))\<lparr>cooldowns := [(js ''1001:7'', 40000)]\<rparr>)
   \<and> isCoolingDown
        ((initialState (js ''2024-05-01T10:00:00.000Z''))\<lparr>cooldowns := [(js ''1001:7'', 40000)]\<rparr>)
        sampleMessage (defaultConfig\<lparr>warningCooldownMs := 30000\<rparr>) 69999
      = (True,
         (initialState (js ''2024-05-01T10:00:00.000Z''))\<lparr>cooldowns := [(js ''1001:7'', 40000)]\<rparr>)
   \<and> isCoolingDown
        ((initialState (js ''2024-05-01T10:00:00.000Z''))\<lparr>cooldowns := [(js ''1001:7'', 40000)]\<rparr>)
        sampleMessage (defaultConfig\<lparr>warningCooldownMs := 30000\<rparr>) 70000
      = (False,
         (initialState (js ''2024-05-01T10:00:00.000Z''))\<lparr>cooldowns := [(js ''1001:7'', 70000)]\<rparr>)
   \<and> warningCooldownMs defaultConfig = 0
   \<and> isCoolingDown
        ((initialState (js ''2024-05-01T10:00:00.000Z''))\<lparr>cooldowns := [(js ''1001:7'', 400)]\<rparr>)
        sampleMessage defaultConfig 400
      = (False,
         (initialState (js ''2024-05-01T10:00:00.000Z''))\<lparr>cooldowns := [(js ''1001:7'', 400)]\<rparr>)
   \<and> isCoolingDown
        ((initialState (js ''2024-05-01T10:00:00.000Z''))\<lparr>cooldowns := [(js ''1001:7'', 400)]\<rparr>)
        sampleMessage defaultConfig 399
      = (True,
         (initialState (js ''2024-05-01T10:00:00.000Z''))\<lparr>cooldowns := [(js ''1001:7'', 400)]\<rparr>)"
proof -
  let ?s = "(initialState (js ''2024-05-01T10:00:00.000Z''))\<lparr>cooldowns := [(js ''1001:7'', 400)]\<rparr>"
  let ?s1 = "(initialState (js ''2024-05-01T10:00:00.000Z''))\<lparr>cooldowns := [(js ''1001:7'', 40000)]\<rparr>"
  let ?s3 = "(initialState (js ''2024-05-01T10:00:00.000Z''))\<lparr>cooldowns := [(js ''1001:7'', 70000)]\<rparr>"
  let ?c = "defaultConfig\<lparr>warningCooldownMs := 30000\<rparr>"
  have k: "cooldownKey sampleMessage = js ''1001:7''"
    by (simp add: cooldownKey_def sampleMessage_def js_def)
  have d: "0 < warningCooldownMs ?c"
    by simp
  have g: "mapGet (cooldowns ?s) (cooldownKey sampleMessage) = Some 400"
    by (simp add: k mapGet_def)
  have e: "warningCooldownMs ?c \<le> real_of_int (40000 - 400)"
    by simp
  have stale: "\<forall>t. mapGet (cooldowns ?s) (cooldownKey sampleMessage) = Some t \<longrightarrow>
      t = 0 \<or> warningCooldownMs ?c \<le> real_of_int (40000 - t)"
    using g e by simp
  have u: "?s\<lparr>cooldowns := mapSet (cooldowns ?s) (cooldownKey sampleMessage) 40000\<rparr> = ?s1"
    by (simp add: k)
  note w = cooldown_window [of ?c ?s sampleMessage 40000]
  from w d stale have "isCoolingDown ?s sampleMessage ?c 40000 =
      (False, ?s\<lparr>cooldowns := mapSet (cooldowns ?s) (cooldownKey sampleMessage) 40000\<rparr>)"
    by blast
  then have first: "isCoolingDown ?s sampleMessage ?c 40000 = (False, ?s1)"
    by (simp only: u)
  have n: "(40000 :: int) \<noteq> 0" by simp
  from w d stale n have
    "\<forall>t2. real_of_int (t2 - 40000) < warningCooldownMs ?c \<longrightarrow>
       isCoolingDown (snd (isCoolingDown ?s sampleMessage ?c 40000)) sampleMessage ?c t2 =
         (True, snd (isCoolingDown ?s sampleMessage ?c 40000))"
    by blast
  then have second: "isCoolingDown ?s1 sampleMessage ?c 69999 = (True, ?s1)"
    by (simp add: first)
  have third: "isCoolingDown ?s1 sampleMessage ?c 70000 = (False, ?s3)"
    by (simp add: isCoolingDown_def Let_def k mapGet_def)
  have z: "warningCooldownMs defaultConfig = 0"
    by (simp add: defaultConfig_def)
  have old: "\<forall>t. mapGet (cooldowns ?s) (cooldownKey sampleMessage) = Some t \<longrightarrow> t = 0 \<or> t \<le> 400"
    using g by simp
  have u0: "?s\<lparr>cooldowns := mapSet (cooldowns ?s) (cooldownKey sampleMessage) 400\<rparr> = ?s"
    by (simp add: k)
  from cooldown_window [of defaultConfig ?s sampleMessage 400] z old
  have "isCoolingDown ?s sampleMessage defaultConfig 400 =
      (False, ?s\<lparr>cooldowns := mapSet (cooldowns ?s) (cooldownKey sampleMessage) 400\<rparr>)"
    by blast
  then have zero: "isCoolingDown ?s sampleMessage defaultConfig 400 = (False, ?s)"
    by (simp only: u0)
  have m: "(400 :: int) \<noteq> 0" "(399 :: int) < 400" by simp_all
  from cooldown_window [of defaultConfig ?s sampleMessage 399] z g m
  have earlier: "isCoolingDown ?s sampleMessage defaultConfig 399 = (True, ?s)"
    by blast
  from d g e first second third z zero earlier show ?thesis
    by blast
qed

text \<open>
  With \<open>D = 0\<close> (the default configuration) and the timestamp 200 recorded for the key, a
  call at 100 is suppressed and records nothing. With \<open>D = 30000\<close>, a first trigger at
  timestamp 0 is recorded, and the trigger 5 milliseconds later is not suppressed.
\<close>

theorem cooldown_window_counterexample:
  "warningCooldownMs defaultConfig = 0
   \<and> isCoolingDown
        ((initialState (js ''2024-05-01T10:00:00.000Z''))\<lparr>cooldowns := [(js ''1001:7'', 200)]\<rparr>)
        sampleMessage defaultConfig 100
      = (True,
         (initialState (js ''2024-05-01T10:00:00.000Z''))\<lparr>cooldowns := [(js ''1001:7'', 200)]\<rparr>)
   \<and> isCoolingDown (initialState (js ''2024-05-01T10:00:00.000Z'')) sampleMessage
        (defaultConfig\<lparr>warningCooldownMs := 30000\<rparr>) 0
      = (False,
         (initialState (js ''2024-05-01T10:00:00.000Z''))\<lparr>cooldowns := [(js ''1001:7'', 0)]\<rparr>)
   \<and> real_of_int (5 - 0) < warningCooldownMs (defaultConfig\<lparr>warningCooldownMs := 30000\<rparr>)
   \<and> isCoolingDown
        ((initialState (js ''2024-05-01T10:00:00.000Z''))\<lparr>cooldowns := [(js ''1001:7'', 0)]\<rparr>)
        sampleMessage (defaultConfig\<lparr>warningCooldownMs := 30000\<rparr>) 5
      = (False,
         (initialState (js ''2024-05-01T10:00:00.000Z''))\<lparr>cooldowns := [(js ''1001:7'', 5)]\<rparr>)"
proof -
  have k: "cooldownKey sampleMessage = js ''1001:7''"
    by (simp add: cooldownKey_def sampleMessage_def js_def)
  show ?thesis
    by (simp add: isCoolingDown_def Let_def k mapGet_def defaultConfig_def initialState_def)
qed

text \<open>
  C4. Every metrics update sets the stored day to the UTC day of the update. When that day
  differs from the stored one, the update starts from \<open>triggersToday = 0\<close> and empty
  per-channel and per-rule maps (\<open>carriedMetrics\<close>), so that the first event of a new
  day ends with \<open>triggersToday = 1\<close>; otherwise it starts from the stored counters. It
  then adds 1 to \<open>triggersToday\<close>, 1 to the counter of the event's channel, and 1 to the
  counter of the rule-key \<open>term:\<close> followed by the lower-case form of the term for each
  matched term, and of the rule-key \<open>price:\<close> followed by the lower-case form of the
  signal for each matched price signal; no other counter changes and no other key
  appears. The lower-case form is the one of the runtime (\<open>toLowerCase\<close>).
\<close>

theorem metrics_update:
  "day (metrics (bumpMetrics rt state message detection isoString)) = getUtcDay isoString
   \<and> triggersToday (metrics (bumpMetrics rt state message detection isoString)) =
       triggersToday (carriedMetrics state isoString) + 1
   \<and> (\<forall>c. countOf (byChannel (metrics (bumpMetrics rt state message detection isoString))) c =
         countOf (byChannel (carriedMetrics state isoString)) c
         + (if c = channelId message then 1 else 0))
   \<and> (\<forall>k. countOf (byRule (metrics (bumpMetrics rt state message detection isoString))) k =
         countOf (byRule (carriedMetrics state isoString)) k
         + count_list (map (\<lambda>term. js ''term:'' @ toLowerCase rt term) (matchedTerms detection)) k
         + count_list (map (\<lambda>signal. js ''price:'' @ toLowerCase rt signal)
             (matchedPriceSignals detection)) k)
   \<and> fst ` set (byChannel (metrics (bumpMetrics rt state message detection isoString))) =
       insert (channelId message) (fst ` set (byChannel (carriedMetrics state isoString)))
   \<and> fst ` set (byRule (metrics (bumpMetrics rt state message detection isoString))) =
       fst ` set (byRule (carriedMetrics state isoString))
       \<union> (\<lambda>term. js ''term:'' @ toLowerCase rt term) ` set (matchedTerms detection)
       \<union> (\<lambda>signal. js ''price:'' @ toLowerCase rt signal) ` set (matchedPriceSignals detection)
   \<and> (day (metrics state) \<noteq> getUtcDay isoString \<longrightarrow>
         triggersToday (carriedMetrics state isoString) = 0
       \<and> byChannel (carriedMetrics state isoString) = []
       \<and> byRule (carriedMetrics state isoString) = []
       \<and> triggersToday (metrics (bumpMetrics rt state message detection isoString)) = 1)
   \<and> (day (metrics state) = getUtcDay isoString \<longrightarrow>
         carriedMetrics state isoString = metrics state)"
proof -
  let ?m = "metrics (bumpMetrics rt state message detection isoString)"
  let ?c = "carriedMetrics state isoString"
  note f = bumpMetrics_fields [of rt state message detection isoString]
  have r: "\<forall>k. countOf (byRule ?m) k = countOf (byRule ?c) k
      + count_list (map (\<lambda>term. js ''term:'' @ toLowerCase rt term) (matchedTerms detection)) k
      + count_list (map (\<lambda>signal. js ''price:'' @ toLowerCase rt signal)
          (matchedPriceSignals detection)) k"
    by (simp add: f(4) countOf_foldl_bumpCount)
  have kr: "fst ` set (byRule ?m) = fst ` set (byRule ?c)
      \<union> (\<lambda>term. js ''term:'' @ toLowerCase rt term) ` set (matchedTerms detection)
      \<union> (\<lambda>signal. js ''price:'' @ toLowerCase rt signal) ` set (matchedPriceSignals detection)"
    by (simp add: f(4) keys_foldl_bumpCount)
  have c: "\<forall>c. countOf (byChannel ?m) c =
      countOf (byChannel ?c) c + (if c = channelId message then 1 else 0)"
    by (simp add: f(3) countOf_bumpCount)
  have kc: "fst ` set (byChannel ?m) = insert (channelId message) (fst ` set (byChannel ?c))"
    by (simp add: f(3) keys_bumpCount)
  have n: "day (metrics state) \<noteq> getUtcDay isoString \<longrightarrow>
      triggersToday ?c = 0 \<and> byChannel ?c = [] \<and> byRule ?c = [] \<and> triggersToday ?m = 1"
    by (simp add: f(2)) (simp add: carriedMetrics_def)
  have o: "day (metrics state) = getUtcDay isoString \<longrightarrow> ?c = metrics state"
    by (simp add: carriedMetrics_def)
  from f(1) f(2) c r kc kr n o show ?thesis by blast
qed

text \<open>
  The instance: the restricted term \<open>Sell\<close> and the Polish price keyword \<open>ZLOTY\<close>,
  spelt with the l with stroke (321 is its capital, 322 the small letter), are configured
  with capitals. The first event of a new day counts from nothing; an event of the stored
  day adds to the stored counters. The rule-keys are \<open>term:sell\<close> and \<open>price:\<close> followed
  by the keyword in small letters.
\<close>

theorem metrics_update_witness:
  "day (metrics ((initialState (js ''2024-05-01T10:00:00.000Z''))\<lparr>metrics :=
        \<lparr>day = js ''2024-05-01'', triggersToday = 5, byChannel = [(js ''7'', 5)],
         byRule = [(js ''term:sell'', 5)]\<rparr>\<rparr>))
     \<noteq> getUtcDay (js ''2024-05-02T00:00:01.000Z'')
   \<and> detectContent sampleRuntime (js ''I SELL it, 5 z'' @ [322] @ js ''oty'')
        (compiledDetectors (defaultConfig\<lparr>restrictedTerms := [js ''Sell''],
           priceKeywords := [js ''Z'' @ [321] @ js ''OTY'']\<rparr>))
        (defaultConfig\<lparr>restrictedTerms := [js ''Sell''],
           priceKeywords := [js ''Z'' @ [321] @ js ''OTY'']\<rparr>)
      = \<lparr>triggered = True, matchedTerms = [js ''Sell''],
         matchedPriceSignals = [js ''Z'' @ [321] @ js ''OTY''],
         triggerTypes = [js ''word match'', js ''price pattern'']\<rparr>
   \<and> triggersToday (metrics (bumpMetrics sampleRuntime
        ((initialState (js ''2024-05-01T10:00:00.000Z''))\<lparr>metrics :=
          \<lparr>day = js ''2024-05-01'', triggersToday = 5, byChannel = [(js ''7'', 5)],
           byRule = [(js ''term:sell'', 5)]\<rparr>\<rparr>)
        sampleMessage
        \<lparr>triggered = True, matchedTerms = [js ''Sell''],
         matchedPriceSignals = [js ''Z'' @ [321] @ js ''OTY''],
         triggerTypes = [js ''word match'', js ''price pattern'']\<rparr>
        (js ''2024-05-02T00:00:01.000Z''))) = 1
   \<and> metrics (bumpMetrics sampleRuntime
        ((initialState (js ''2024-05-01T10:00:00.000Z''))\<lparr>metrics :=
          \<lparr>day = js ''2024-05-01'', triggersToday = 5, byChannel = [(js ''7'', 5)],
           byRule = [(js ''term:sell'', 5)]\<rparr>\<rparr>)
        sampleMessage
        \<lparr>triggered = True, matchedTerms = [js ''Sell''],
         matchedPriceSignals = [js ''Z'' @ [321] @ js ''OTY''],
         triggerTypes = [js ''word match'', js ''price pattern'']\<rparr>
        (js ''2024-05-02T00:00:01.000Z''))
      = \<lparr>day = js ''2024-05-02'', triggersToday = 1, byChannel = [(js ''7'', 1)],
         byRule = [(js ''term:sell'', 1), (js ''price:z'' @ [322] @ js ''oty'', 1)]\<rparr>
   \<and> metrics (bumpMetrics sampleRuntime
        ((initialState (js ''2024-05-01T10:00:00.000Z''))\<lparr>metrics :=
          \<lparr>day = js ''2024-05-01'', triggersToday = 5, byChannel = [(js ''7'', 5)],
           byRule = [(js ''term:sell'', 5)]\<rparr>\<rparr>)
        sampleMessage
        \<lparr>triggered = True, matchedTerms = [js ''Sell''],
         matchedPriceSignals = [js ''Z'' @ [321] @ js ''OTY''],
         triggerTypes = [js ''word match'', js ''price pattern'']\<rparr>
        (js ''2024-05-01T23:59:59.999Z''))
      = \<lparr>day = js ''2024-05-01'', triggersToday = 6, byChannel = [(js ''7'', 6)],
         byRule = [(js ''term:sell'', 6), (js ''price:z'' @ [322] @ js ''oty'', 1)]\<rparr>
   \<and> metrics (bumpMetrics sampleRuntime
        ((initialState (js ''2024-05-01T10:00:00.000Z''))\<lparr>metrics :=
          \<lparr>day = js ''2024-05-01'', triggersToday = 5, byChannel = [(js ''7'', 5)],
           byRule = [(js ''term:sell'', 5)]\<rparr>\<rparr>)
        sampleMessage
        (detectContent sampleRuntime (js ''DM me, $400 Shipped'') (compiledDetectors defaultConfig)
           defaultConfig)
        (js ''2024-05-01T23:59:59.999Z''))
      = \<lparr>day = js ''2024-05-01'', triggersToday = 6, byChannel = [(js ''7'', 6)],
         byRule = [(js ''term:sell'', 5), (js ''price:$400'', 1), (js ''price:$'', 1),
                   (js ''price:shipped'', 1)]\<rparr>"
proof -
  let ?s = "(initialState (js ''2024-05-01T10:00:00.000Z''))\<lparr>metrics :=
        \<lparr>day = js ''2024-05-01'', triggersToday = 5, byChannel = [(js ''7'', 5)],
         byRule = [(js ''term:sell'', 5)]\<rparr>\<rparr>"
  let ?v = "\<lparr>triggered = True, matchedTerms = [js ''Sell''],
         matchedPriceSignals = [js ''Z'' @ [321] @ js ''OTY''],
         triggerTypes = [js ''word match'', js ''price pattern'']\<rparr>"
  let ?c = "defaultConfig\<lparr>restrictedTerms := [js ''Sell''],
           priceKeywords := [js ''Z'' @ [321] @ js ''OTY'']\<rparr>"
  have h: "day (metrics ?s) \<noteq> getUtcDay (js ''2024-05-02T00:00:01.000Z'')"
    by code_simp
  have v: "detectContent sampleRuntime (js ''I SELL it, 5 z'' @ [322] @ js ''oty'')
      (compiledDetectors ?c) ?c = ?v"
    by code_simp
  from metrics_update [of sampleRuntime ?s sampleMessage ?v "js ''2024-05-02T00:00:01.000Z''"] h
  have t: "triggersToday (metrics (bumpMetrics sampleRuntime ?s sampleMessage ?v
      (js ''2024-05-02T00:00:01.000Z''))) = 1"
    by blast
  have a: "metrics (bumpMetrics sampleRuntime ?s sampleMessage ?v (js ''2024-05-02T00:00:01.000Z''))
      = \<lparr>day = js ''2024-05-02'', triggersToday = 1, byChannel = [(js ''7'', 1)],
         byRule = [(js ''term:sell'', 1), (js ''price:z'' @ [322] @ js ''oty'', 1)]\<rparr>"
    by code_simp
  have b: "metrics (bumpMetrics sampleRuntime ?s sampleMessage ?v (js ''2024-05-01T23:59:59.999Z''))
      = \<lparr>day = js ''2024-05-01'', triggersToday = 6, byChannel = [(js ''7'', 6)],
         byRule = [(js ''term:sell'', 6), (js ''price:z'' @ [322] @ js ''oty'', 1)]\<rparr>"
    by code_simp
  have c: "metrics (bumpMetrics sampleRuntime ?s sampleMessage
        (detectContent sampleRuntime (js ''DM me, $400 Shipped'') (compiledDetectors defaultConfig)
           defaultConfig)
        (js ''2024-05-01T23:59:59.999Z''))
      = \<lparr>day = js ''2024-05-01'', triggersToday = 6, byChannel = [(js ''7'', 6)],
         byRule = [(js ''term:sell'', 5), (js ''price:$400'', 1), (js ''price:$'', 1),
                   (js ''price:shipped'', 1)]\<rparr>"
    by code_simp
  from h v t a b c show ?thesis by blast
qed

text \<open>
  C5. With price-pattern detection enabled and no exception match, a text that holds a
  currency symbol (dollar, pound or euro sign) followed at once, or after one white-space
  character, by a digit (the start of an amount, whose decimal fraction is optional), or
  that holds a bare currency symbol, or that holds as a whole word a configured price
  keyword that begins and ends with a word character (a letter from \<open>a\<close> to \<open>z\<close> or \<open>A\<close>
  to \<open>Z\<close>, a digit or the underscore), has the price-pattern trigger type
  (\<open>'price pattern'\<close>); so has a text in which an occurrence
  of any configured price keyword has a word boundary of the pattern language at both
  ends. In particular the message \<open>DM me, $400 shipped\<close> under the default configuration
  is triggered, with the price-pattern trigger type alone and with \<open>$400\<close> and \<open>shipped\<close>
  among its price signals.

  The claim as the specification has it, for every configured keyword, does not hold: a
  keyword with another character at one of its ends, as \<open>o.b.o.\<close>, is not found where it
  stands between two spaces (the instance after the theorem and its witness).
\<close>

theorem price_pattern_detection:
  "(buildDetectors config = Inr detectors \<longrightarrow> enablePricePattern config \<longrightarrow>
      (\<forall>p \<in> set (exceptionPatterns config). \<not> containsIgnoringCase rt p content) \<longrightarrow>
      (containsPricedAmount content \<or> containsCurrencySymbol content
       \<or> (\<exists>k \<in> set (priceKeywords config). wordEdged k \<and> containsWholeWord rt k content)
       \<or> (\<exists>k \<in> set (priceKeywords config). containsBounded rt k content)) \<longrightarrow>
      js ''price pattern'' \<in> set (triggerTypes (detectContent rt content detectors config)))
   \<and> buildDetectors defaultConfig = Inr (compiledDetectors defaultConfig)
   \<and> detectContent rt (js ''DM me, $400 shipped'') (compiledDetectors defaultConfig) defaultConfig
       = \<lparr>triggered = True, matchedTerms = [],
          matchedPriceSignals = [js ''$400'', js ''$'', js ''shipped''],
          triggerTypes = [js ''price pattern'']\<rparr>"
proof (intro conjI impI)
  assume b: "buildDetectors config = Inr detectors" and p: "enablePricePattern config"
    and x: "\<forall>p \<in> set (exceptionPatterns config). \<not> containsIgnoringCase rt p content"
    and c: "containsPricedAmount content \<or> containsCurrencySymbol content
       \<or> (\<exists>k \<in> set (priceKeywords config). wordEdged k \<and> containsWholeWord rt k content)
       \<or> (\<exists>k \<in> set (priceKeywords config). containsBounded rt k content)"
  let ?v = "detectContent rt content detectors config"
  have d: "detectors = compiledDetectors config"
    using b by (rule detectors_compiled)
  have e: "testedLabels rt (exceptionChecks detectors) content = []"
    using x by (simp add: d exceptionMatches_compiled)
  have k: "testedLabels rt (priceKeywordChecks detectors) content =
      filter (\<lambda>k. containsBounded rt k content) (priceKeywords config)"
    by (simp add: d matchedKeywords_compiled)
  from c have "matchAll rt symbolAmountRegex content @ matchAll rt rawSymbolRegex content
      @ testedLabels rt (priceKeywordChecks detectors) content \<noteq> []"
  proof (elim disjE)
    assume "containsPricedAmount content"
    then show ?thesis using containsPricedAmount_matches by simp
  next
    assume "containsCurrencySymbol content"
    then show ?thesis using containsCurrencySymbol_matches by simp
  next
    assume "\<exists>k \<in> set (priceKeywords config). wordEdged k \<and> containsWholeWord rt k content"
    then have "\<exists>k \<in> set (priceKeywords config). containsBounded rt k content"
      using containsWholeWord_bounded by blast
    then have "filter (\<lambda>k. containsBounded rt k content) (priceKeywords config) \<noteq> []"
      by (simp add: filter_empty_conv)
    then show ?thesis by (simp add: k)
  next
    assume "\<exists>k \<in> set (priceKeywords config). containsBounded rt k content"
    then have "filter (\<lambda>k. containsBounded rt k content) (priceKeywords config) \<noteq> []"
      by (simp add: filter_empty_conv)
    then show ?thesis by (simp add: k)
  qed
  then have "matchedPriceSignals ?v \<noteq> []"
    using p by (simp add: detectContent_no_exception(2) [OF e] newSet_empty)
  with pricePattern_iff [OF e, of config]
  show "js ''price pattern'' \<in> set (triggerTypes ?v)"
    by blast
next
  show "buildDetectors defaultConfig = Inr (compiledDetectors defaultConfig)"
    by (rule buildDetectors_compiled)
next
  show "detectContent rt (js ''DM me, $400 shipped'') (compiledDetectors defaultConfig) defaultConfig
       = \<lparr>triggered = True, matchedTerms = [],
          matchedPriceSignals = [js ''$400'', js ''$'', js ''shipped''],
          triggerTypes = [js ''price pattern'']\<rparr>"
    by code_simp
qed

text \<open>
  The instances: an amount after a pound sign (163) and a space; the keyword \<open>shipped\<close> in
  capitals. The pattern reports the amount with its fraction, and finds nothing after a
  bare symbol.
\<close>

theorem price_pattern_detection_witness:
  "buildDetectors (defaultConfig\<lparr>exceptionPatterns := [js ''wholesale'']\<rparr>)
     = Inr (compiledDetectors (defaultConfig\<lparr>exceptionPatterns := [js ''wholesale'']\<rparr>))
   \<and> enablePricePattern (defaultConfig\<lparr>exceptionPatterns := [js ''wholesale'']\<rparr>)
   \<and> \<not> containsIgnoringCase sampleRuntime (js ''wholesale'') (js ''pay '' @ [163, 32, 51, 48])
   \<and> containsPricedAmount (js ''pay '' @ [163, 32, 51, 48])
   \<and> js ''price pattern'' \<in> set (triggerTypes (detectContent sampleRuntime
         (js ''pay '' @ [163, 32, 51, 48])
         (compiledDetectors (defaultConfig\<lparr>exceptionPatterns := [js ''wholesale'']\<rparr>))
         (defaultConfig\<lparr>exceptionPatterns := [js ''wholesale'']\<rparr>)))
   \<and> \<not> containsIgnoringCase sampleRuntime (js ''wholesale'') (js ''It is SHIPPED today'')
   \<and> wordEdged (js ''shipped'')
   \<and> containsWholeWord sampleRuntime (js ''shipped'') (js ''It is SHIPPED today'')
   \<and> js ''price pattern'' \<in> set (triggerTypes (detectContent sampleRuntime
         (js ''It is SHIPPED today'')
         (compiledDetectors (defaultConfig\<lparr>exceptionPatterns := [js ''wholesale'']\<rparr>))
         (defaultConfig\<lparr>exceptionPatterns := [js ''wholesale'']\<rparr>)))
   \<and> matchAll sampleRuntime symbolAmountRegex (js ''pay '' @ [163, 32, 51, 48]) = [[163, 32, 51, 48]]
   \<and> matchAll sampleRuntime symbolAmountRegex (js ''$50 or '' @ [8364] @ js ''12.5'') =
       [js ''$50'', [8364] @ js ''12.5'']
   \<and> matchAll sampleRuntime symbolAmountRegex (js ''a $ b'') = []
   \<and> containsCurrencySymbol (js ''a $ b'')"
proof -
  let ?c = "defaultConfig\<lparr>exceptionPatterns := [js ''wholesale'']\<rparr>"
  let ?s = "js ''pay '' @ [163, 32, 51, 48]"
  let ?t = "js ''It is SHIPPED today''"
  have h1: "buildDetectors ?c = Inr (compiledDetectors ?c)"
    by (rule buildDetectors_compiled)
  have h2: "enablePricePattern ?c"
    by (simp add: defaultConfig_def)
  have n: "\<not> containsIgnoringCase sampleRuntime (js ''wholesale'') ?s"
    by code_simp
  have h3: "\<forall>p \<in> set (exceptionPatterns ?c). \<not> containsIgnoringCase sampleRuntime p ?s"
    using n by simp
  have h4: "containsPricedAmount ?s"
    by code_simp
  have n': "\<not> containsIgnoringCase sampleRuntime (js ''wholesale'') ?t"
    by code_simp
  have h3': "\<forall>p \<in> set (exceptionPatterns ?c). \<not> containsIgnoringCase sampleRuntime p ?t"
    using n' by simp
  have h5: "wordEdged (js ''shipped'')"
    by code_simp
  have h6: "containsWholeWord sampleRuntime (js ''shipped'') ?t"
    by code_simp
  have h7: "js ''shipped'' \<in> set (priceKeywords ?c)"
    by (simp add: defaultConfig_def)
  have e1: "matchAll sampleRuntime symbolAmountRegex ?s = [[163, 32, 51, 48]]"
    by code_simp
  have e2: "matchAll sampleRuntime symbolAmountRegex (js ''$50 or '' @ [8364] @ js ''12.5'') =
       [js ''$50'', [8364] @ js ''12.5'']"
    by code_simp
  have e3: "matchAll sampleRuntime symbolAmountRegex (js ''a $ b'') = []"
    by code_simp
  have e4: "containsCurrencySymbol (js ''a $ b'')"
    by code_simp
  from price_pattern_detection [of ?c "compiledDetectors ?c" sampleRuntime ?s] h1 h2 h3 h4
  have a: "js ''price pattern'' \<in> set (triggerTypes (detectContent sampleRuntime ?s
      (compiledDetectors ?c) ?c))"
    by blast
  from price_pattern_detection [of ?c "compiledDetectors ?c" sampleRuntime ?t] h1 h2 h3' h5 h6 h7
  have b: "js ''price pattern'' \<in> set (triggerTypes (detectContent sampleRuntime ?t
      (compiledDetectors ?c) ?c))"
    by blast
  from h1 h2 n h4 a n' h5 h6 b e1 e2 e3 e4 show ?thesis
    by blast
qed

text \<open>
  The price keyword \<open>o.b.o.\<close> stands between two spaces in \<open>400 o.b.o. only\<close>, price
  detection is enabled, no exception pattern is configured, and the verdict has no
  trigger type: after the last full stop comes a space, which is no word boundary.
\<close>

theorem price_pattern_detection_counterexample:
  "buildDetectors (defaultConfig\<lparr>priceKeywords := [js ''o.b.o.'']\<rparr>)
     = Inr (compiledDetectors (defaultConfig\<lparr>priceKeywords := [js ''o.b.o.'']\<rparr>))
   \<and> enablePricePattern (defaultConfig\<lparr>priceKeywords := [js ''o.b.o.'']\<rparr>)
   \<and> exceptionPatterns (defaultConfig\<lparr>priceKeywords := [js ''o.b.o.'']\<rparr>) = []
   \<and> js ''o.b.o.'' \<in> set (priceKeywords (defaultConfig\<lparr>priceKeywords := [js ''o.b.o.'']\<rparr>))
   \<and> containsWholeWord sampleRuntime (js ''o.b.o.'') (js ''400 o.b.o. only'')
   \<and> js ''price pattern'' \<notin> set (triggerTypes (detectContent sampleRuntime (js ''400 o.b.o. only'')
         (compiledDetectors (defaultConfig\<lparr>priceKeywords := [js ''o.b.o.'']\<rparr>))
         (defaultConfig\<lparr>priceKeywords := [js ''o.b.o.'']\<rparr>)))
   \<and> detectContent sampleRuntime (js ''400 o.b.o. only'')
         (compiledDetectors (defaultConfig\<lparr>priceKeywords := [js ''o.b.o.'']\<rparr>))
         (defaultConfig\<lparr>priceKeywords := [js ''o.b.o.'']\<rparr>)
       = \<lparr>triggered = False, matchedTerms = [], matchedPriceSignals = [], triggerTypes = []\<rparr>"
proof -
  let ?c = "defaultConfig\<lparr>priceKeywords := [js ''o.b.o.'']\<rparr>"
  have h1: "buildDetectors ?c = Inr (compiledDetectors ?c)"
    by (rule buildDetectors_compiled)
  have h2: "enablePricePattern ?c" "exceptionPatterns ?c = []"
    by (simp_all add: defaultConfig_def)
  have h3: "js ''o.b.o.'' \<in> set (priceKeywords ?c)"
    by simp
  have h4: "containsWholeWord sampleRuntime (js ''o.b.o.'') (js ''400 o.b.o. only'')"
    by code_simp
  have h5: "detectContent sampleRuntime (js ''400 o.b.o. only'') (compiledDetectors ?c) ?c
       = \<lparr>triggered = False, matchedTerms = [], matchedPriceSignals = [], triggerTypes = []\<rparr>"
    by code_simp
  from h5 have h6: "js ''price pattern'' \<notin> set (triggerTypes (detectContent sampleRuntime
      (js ''400 o.b.o. only'') (compiledDetectors ?c) ?c))"
    by simp
  from h1 h2 h3 h4 h6 h5 show ?thesis
    by blast
qed

text \<open>
  C6. For every triggered message and every outcome of the outward calls. When the
  cooldown suppresses the warning, the status is \<open>cooldown_suppressed\<close> and no reply is
  attempted: the run is the log step alone. When the reply is attempted and rejected, the
  error is caught and the status is \<open>failed\<close> with the text of the error; when it
  resolves, the status is \<open>sent\<close>. In all three cases \<open>sendModLog\<close> runs next with that
  status, and neither it nor \<open>handleTriggeredMessage\<close> nor \<open>onMessageCreate\<close> ever
  throws. The log step resolves the log channel and, when there is one, sends the
  composed text, which has the line \<open>Warning status: <status>\<close> (and
  \<open>Warning error: <text>\<close> after a failure); a rejected send, like a failed resolution,
  ends in a diagnostic, and when no log channel is found the step writes a diagnostic and
  sends nothing.
\<close>

theorem warning_outcome_and_log:
  "(fst (isCoolingDown state message config (dateNow w)) \<longrightarrow>
      handleTriggeredMessage rt message detection config state w =
        sendModLog rt message detection config
          (snd (isCoolingDown state message config (dateNow w))) (js ''cooldown_suppressed'') [] w
      \<and> Reply t \<notin> set (fst (handleTriggeredMessage rt message detection config state w)))
   \<and> (\<not> fst (isCoolingDown state message config (dateNow w)) \<longrightarrow>
      replyOutcome w (buildWarningMessage rt config detection message) = Some e \<longrightarrow>
        handleTriggeredMessage rt message detection config state w =
          (Reply (buildWarningMessage rt config detection message)
             # fst (sendModLog rt message detection config
                      (snd (isCoolingDown state message config (dateNow w)))
                      (js ''failed'') (formatError e) w),
           snd (sendModLog rt message detection config
                  (snd (isCoolingDown state message config (dateNow w)))
                  (js ''failed'') (formatError e) w)))
   \<and> (\<not> fst (isCoolingDown state message config (dateNow w)) \<longrightarrow>
      replyOutcome w (buildWarningMessage rt config detection message) = None \<longrightarrow>
        handleTriggeredMessage rt message detection config state w =
          (Reply (buildWarningMessage rt config detection message)
             # fst (sendModLog rt message detection config
                      (snd (isCoolingDown state message config (dateNow w)))
                      (js ''sent'') [] w),
           snd (sendModLog rt message detection config
                  (snd (isCoolingDown state message config (dateNow w)))
                  (js ''sent'') [] w)))
   \<and> snd (snd (handleTriggeredMessage rt message detection config state w)) = None
   \<and> snd (snd (onMessageCreate rt message config detectors state w)) = None
   \<and> snd (snd (sendModLog rt message detection config state1 warningStatus warningError w)) = None
   \<and> (fst (resolveModLogChannel rt message config state1 w) = Inr (Some ch) \<longrightarrow>
        Send ch (buildModLogMessage message detection config warningStatus warningError
                   (snd (resolveModLogChannel rt message config state1 w)))
          \<in> set (fst (sendModLog rt message detection config state1 warningStatus warningError w))
        \<and> (sendOutcome w ch (buildModLogMessage message detection config warningStatus
               warningError (snd (resolveModLogChannel rt message config state1 w))) = Some e1 \<longrightarrow>
            fst (sendModLog rt message detection config state1 warningStatus warningError w) =
              [Send ch (buildModLogMessage message detection config warningStatus warningError
                          (snd (resolveModLogChannel rt message config state1 w))),
               ConsoleError [js ''Rule Guardian: failed to send mod-log message:'',
                             formatError e1]]))
   \<and> (fst (resolveModLogChannel rt message config state1 w) = Inr None \<longrightarrow>
        fst (sendModLog rt message detection config state1 warningStatus warningError w) =
          [ConsoleError [js ''Rule Guardian: mod-log channel not found. Configure RG_MOD_LOG_CHANNEL_ID or RG_MOD_LOG_CHANNEL_NAME.'']])
   \<and> (fst (resolveModLogChannel rt message config state1 w) = Inl e2 \<longrightarrow>
        fst (sendModLog rt message detection config state1 warningStatus warningError w) =
          [ConsoleError [js ''Rule Guardian: failed to send mod-log message:'', formatError e2]])
   \<and> buildModLogMessage message detection config warningStatus warningError state2 =
        join [10] (buildModLogLines message detection config warningStatus warningError state2)
   \<and> js ''Warning status: '' @ warningStatus
        \<in> set (buildModLogLines message detection config warningStatus warningError state2)
   \<and> (warningError \<noteq> [] \<longrightarrow>
        js ''Warning error: '' @ warningError
          \<in> set (buildModLogLines message detection config warningStatus warningError state2))"
proof (intro conjI impI)
  assume s: "fst (isCoolingDown state message config (dateNow w))"
  from handleTriggeredMessage_suppressed [OF s]
  show h: "handleTriggeredMessage rt message detection config state w =
      sendModLog rt message detection config
        (snd (isCoolingDown state message config (dateNow w))) (js ''cooldown_suppressed'') [] w" .
  show "Reply t \<notin> set (fst (handleTriggeredMessage rt message detection config state w))"
    by (simp only: h sendModLog_no_reply) simp
next
  assume "\<not> fst (isCoolingDown state message config (dateNow w))"
    and "replyOutcome w (buildWarningMessage rt config detection message) = Some e"
  then show "handleTriggeredMessage rt message detection config state w =
      (Reply (buildWarningMessage rt config detection message)
         # fst (sendModLog rt message detection config
                  (snd (isCoolingDown state message config (dateNow w)))
                  (js ''failed'') (formatError e) w),
       snd (sendModLog rt message detection config
              (snd (isCoolingDown state message config (dateNow w)))
              (js ''failed'') (formatError e) w))"
    by (rule handleTriggeredMessage_failed)
next
  assume "\<not> fst (isCoolingDown state message config (dateNow w))"
    and "replyOutcome w (buildWarningMessage rt config detection message) = None"
  then show "handleTriggeredMessage rt message detection config state w =
      (Reply (buildWarningMessage rt config detection message)
         # fst (sendModLog rt message detection config
                  (snd (isCoolingDown state message config (dateNow w)))
                  (js ''sent'') [] w),
       snd (sendModLog rt message detection config
              (snd (isCoolingDown state message config (dateNow w)))
              (js ''sent'') [] w))"
    by (rule handleTriggeredMessage_sent)
next
  show "snd (snd (handleTriggeredMessage rt message detection config state w)) = None"
    by (rule handleTriggeredMessage_returns)
next
  show "snd (snd (onMessageCreate rt message config detectors state w)) = None"
    by (rule onMessageCreate_returns)
next
  show "snd (snd (sendModLog rt message detection config state1 warningStatus warningError w)) = None"
    by (rule sendModLog_returns)
next
  assume "fst (resolveModLogChannel rt message config state1 w) = Inr (Some ch)"
  then show "Send ch (buildModLogMessage message detection config warningStatus warningError
                   (snd (resolveModLogChannel rt message config state1 w)))
          \<in> set (fst (sendModLog rt message detection config state1 warningStatus warningError w))"
    by (rule sendModLog_sends)
next
  assume "fst (resolveModLogChannel rt message config state1 w) = Inr (Some ch)"
    and "sendOutcome w ch (buildModLogMessage message detection config warningStatus
               warningError (snd (resolveModLogChannel rt message config state1 w))) = Some e1"
  then show "fst (sendModLog rt message detection config state1 warningStatus warningError w) =
       [Send ch (buildModLogMessage message detection config warningStatus warningError
                   (snd (resolveModLogChannel rt message config state1 w))),
        ConsoleError [js ''Rule Guardian: failed to send mod-log message:'', formatError e1]]"
    by (rule sendModLog_send_throws)
next
  assume "fst (resolveModLogChannel rt message config state1 w) = Inr None"
  then show "fst (sendModLog rt message detection config state1 warningStatus warningError w) =
      [ConsoleError [js ''Rule Guardian: mod-log channel not found. Configure RG_MOD_LOG_CHANNEL_ID or RG_MOD_LOG_CHANNEL_NAME.'']]"
    by (rule sendModLog_not_found)
next
  assume "fst (resolveModLogChannel rt message config state1 w) = Inl e2"
  then show "fst (sendModLog rt message detection config state1 warningStatus warningError w) =
      [ConsoleError [js ''Rule Guardian: failed to send mod-log message:'', formatError e2]]"
    by (rule sendModLog_resolve_throws)
next
  show "buildModLogMessage message detection config warningStatus warningError state2 =
      join [10] (buildModLogLines message detection config warningStatus warningError state2)"
    by (simp add: buildModLogMessage_def)
next
  show "js ''Warning status: '' @ warningStatus
      \<in> set (buildModLogLines message detection config warningStatus warningError state2)"
    by (rule buildModLogLines_status)
next
  assume "warningError \<noteq> []"
  then show "js ''Warning error: '' @ warningError
      \<in> set (buildModLogLines message detection config warningStatus warningError state2)"
    by (rule buildModLogLines_error)
qed

theorem warning_outcome_and_log_witness:
  "\<not> fst (isCoolingDown sampleState sampleMessage defaultConfig (dateNow failingWorld))
   \<and> replyOutcome failingWorld (buildWarningMessage sampleRuntime defaultConfig sampleVerdict sampleMessage)
       = Some (ErrorObject (js ''Missing Permissions''))
   \<and> handleTriggeredMessage sampleRuntime sampleMessage sampleVerdict defaultConfig sampleState failingWorld =
       (Reply (buildWarningMessage sampleRuntime defaultConfig sampleVerdict sampleMessage)
          # fst (sendModLog sampleRuntime sampleMessage sampleVerdict defaultConfig
                   (snd (isCoolingDown sampleState sampleMessage defaultConfig (dateNow failingWorld)))
                   (js ''failed'') (formatError (ErrorObject (js ''Missing Permissions'')))
                   failingWorld),
        snd (sendModLog sampleRuntime sampleMessage sampleVerdict defaultConfig
               (snd (isCoolingDown sampleState sampleMessage defaultConfig (dateNow failingWorld)))
               (js ''failed'') (formatError (ErrorObject (js ''Missing Permissions'')))
               failingWorld))
   \<and> fst (handleTriggeredMessage sampleRuntime sampleMessage sampleVerdict defaultConfig sampleState failingWorld)
       = [Reply (js ''Please refrain from using prices in #chatter and send prices only in DMs.''),
          Send \<lparr>chanId = js ''99'', chanName = js ''Mod-Log'', chanType = GuildText\<rparr>
            (join [10]
               [js ''**Rule Guardian Trigger**'',
                js ''User: <@1001> ('' @ [96] @ js ''ann'' @ [96] @ js '')'',
                js ''Channel: <#7>'',
                js ''Timestamp: <t:1700000000:F>'',
                js ''Trigger type(s): price pattern'',
                js ''Jump link: https://discord.com/channels/42/7/9'',
                js ''Warning status: failed'',
                js ''Daily trigger count: 1'',
                js ''Top channels today: <#7> (1)'',
                js ''Top rules today: price:$400 (1), price:$ (1), price:shipped (1)'',
                js ''Matched: price_signals=[$400, $, shipped]'',
                js ''Warning error: Missing Permissions'']),
          ConsoleError [js ''Rule Guardian: failed to send mod-log message:'', js ''rate limited'']]
   \<and> snd (snd (handleTriggeredMessage sampleRuntime sampleMessage sampleVerdict defaultConfig sampleState
        failingWorld)) = None
   \<and> fst (handleTriggeredMessage sampleRuntime sampleMessage sampleVerdict
        (defaultConfig\<lparr>warningCooldownMs := 30000\<rparr>)
        (sampleState\<lparr>cooldowns := [(js ''1001:7'', 1700000000000)]\<rparr>) failingWorld)
       = [Send \<lparr>chanId = js ''99'', chanName = js ''Mod-Log'', chanType = GuildText\<rparr>
            (join [10]
               [js ''**Rule Guardian Trigger**'',
                js ''User: <@1001> ('' @ [96] @ js ''ann'' @ [96] @ js '')'',
                js ''Channel: <#7>'',
                js ''Timestamp: <t:1700000000:F>'',
                js ''Trigger type(s): price pattern'',
                js ''Jump link: https://discord.com/channels/42/7/9'',
                js ''Warning status: cooldown_suppressed'',
                js ''Daily trigger count: 1'',
                js ''Top channels today: <#7> (1)'',
                js ''Top rules today: price:$400 (1), price:$ (1), price:shipped (1)'',
                js ''Matched: price_signals=[$400, $, shipped]'']),
          ConsoleError [js ''Rule Guardian: failed to send mod-log message:'', js ''rate limited'']]"
proof -
  have h1: "\<not> fst (isCoolingDown sampleState sampleMessage defaultConfig (dateNow failingWorld))"
    by code_simp
  have h2: "replyOutcome failingWorld (buildWarningMessage sampleRuntime defaultConfig sampleVerdict sampleMessage)
      = Some (ErrorObject (js ''Missing Permissions''))"
    by (simp add: failingWorld_def)
  from warning_outcome_and_log
    [of sampleState sampleMessage defaultConfig failingWorld sampleRuntime sampleVerdict _
        "ErrorObject (js ''Missing Permissions'')"] h1 h2
  have a: "handleTriggeredMessage sampleRuntime sampleMessage sampleVerdict defaultConfig sampleState failingWorld =
       (Reply (buildWarningMessage sampleRuntime defaultConfig sampleVerdict sampleMessage)
          # fst (sendModLog sampleRuntime sampleMessage sampleVerdict defaultConfig
                   (snd (isCoolingDown sampleState sampleMessage defaultConfig (dateNow failingWorld)))
                   (js ''failed'') (formatError (ErrorObject (js ''Missing Permissions'')))
                   failingWorld),
        snd (sendModLog sampleRuntime sampleMessage sampleVerdict defaultConfig
               (snd (isCoolingDown sampleState sampleMessage defaultConfig (dateNow failingWorld)))
               (js ''failed'') (formatError (ErrorObject (js ''Missing Permissions'')))
               failingWorld))"
    by blast
  from warning_outcome_and_log
    [of sampleState sampleMessage defaultConfig failingWorld sampleRuntime sampleVerdict]
  have r: "snd (snd (handleTriggeredMessage sampleRuntime sampleMessage sampleVerdict defaultConfig sampleState
        failingWorld)) = None"
    by blast
  have b: "fst (handleTriggeredMessage sampleRuntime sampleMessage sampleVerdict defaultConfig sampleState
        failingWorld)
       = [Reply (js ''Please refrain from using prices in #chatter and send prices only in DMs.''),
          Send \<lparr>chanId = js ''99'', chanName = js ''Mod-Log'', chanType = GuildText\<rparr>
            (join [10]
               [js ''**Rule Guardian Trigger**'',
                js ''User: <@1001> ('' @ [96] @ js ''ann'' @ [96] @ js '')'',
                js ''Channel: <#7>'',
                js ''Timestamp: <t:1700000000:F>'',
                js ''Trigger type(s): price pattern'',
                js ''Jump link: https://discord.com/channels/42/7/9'',
                js ''Warning status: failed'',
                js ''Daily trigger count: 1'',
                js ''Top channels today: <#7> (1)'',
                js ''Top rules today: price:$400 (1), price:$ (1), price:shipped (1)'',
                js ''Matched: price_signals=[$400, $, shipped]'',
                js ''Warning error: Missing Permissions'']),
          ConsoleError [js ''Rule Guardian: failed to send mod-log message:'', js ''rate limited'']]"
    by code_simp
  have c: "fst (handleTriggeredMessage sampleRuntime sampleMessage sampleVerdict
        (defaultConfig\<lparr>warningCooldownMs := 30000\<rparr>)
        (sampleState\<lparr>cooldowns := [(js ''1001:7'', 1700000000000)]\<rparr>) failingWorld)
       = [Send \<lparr>chanId = js ''99'', chanName = js ''Mod-Log'', chanType = GuildText\<rparr>
            (join [10]
               [js ''**Rule Guardian Trigger**'',
                js ''User: <@1001> ('' @ [96] @ js ''ann'' @ [96] @ js '')'',
                js ''Channel: <#7>'',
                js ''Timestamp: <t:1700000000:F>'',
                js ''Trigger type(s): price pattern'',
                js ''Jump link: https://discord.com/channels/42/7/9'',
                js ''Warning status: cooldown_suppressed'',
                js ''Daily trigger count: 1'',
                js ''Top channels today: <#7> (1)'',
                js ''Top rules today: price:$400 (1), price:$ (1), price:shipped (1)'',
                js ''Matched: price_signals=[$400, $, shipped]'']),
          ConsoleError [js ''Rule Guardian: failed to send mod-log message:'', js ''rate limited'']]"
    by code_simp
  from h1 h2 a r b c show ?thesis
    by blast
qed

text \<open>
  C7. The strings of \<open>matchedTerms\<close> and \<open>matchedPriceSignals\<close> are stored as they are
  configured (terms and keywords) or as they stand in the text (symbol-amount matches and
  bare symbols); the classifier does not lower-case them, and \<open>new Set\<close> removes
  duplicates by string equality. So: neither collection holds a string twice; the matched
  terms are configured terms; a matched price signal is a configured keyword, or it is a
  slice of the text made of currency symbols, white space, digits, full stops and commas
  only, which holds no letter and is its own lower-case form. When every configured
  restricted term and price keyword is its own lower-case form, every stored string is
  lower-cased and no two elements of a collection differ in letter case only (have the
  same lower-case form).

  The claim as the specification has it, for every configuration, does not hold: with the
  terms \<open>Sell\<close> and \<open>SELL\<close> and the keyword \<open>USD\<close> configured, the text \<open>sell for usd\<close>
  stores all three as they are configured (the instance after the theorem and its
  witness).
\<close>

theorem stored_matches:
  assumes "buildDetectors config = Inr detectors"
  shows "distinct (matchedTerms (detectContent rt content detectors config))
       \<and> distinct (matchedPriceSignals (detectContent rt content detectors config))
       \<and> set (matchedTerms (detectContent rt content detectors config)) \<subseteq> set (restrictedTerms config)
       \<and> (\<forall>m \<in> set (matchedPriceSignals (detectContent rt content detectors config)).
            m \<in> set (priceKeywords config)
            \<or> (sliceOf m content \<and> list_all priceUnit m \<and> toLowerCase rt m = m))
       \<and> ((\<forall>t \<in> set (restrictedTerms config). toLowerCase rt t = t) \<longrightarrow>
          (\<forall>k \<in> set (priceKeywords config). toLowerCase rt k = k) \<longrightarrow>
            (\<forall>m \<in> set (matchedTerms (detectContent rt content detectors config)). toLowerCase rt m = m)
          \<and> (\<forall>m \<in> set (matchedPriceSignals (detectContent rt content detectors config)).
               toLowerCase rt m = m)
          \<and> (\<forall>a \<in> set (matchedTerms (detectContent rt content detectors config)).
               \<forall>b \<in> set (matchedTerms (detectContent rt content detectors config)).
                 toLowerCase rt a = toLowerCase rt b \<longrightarrow> a = b)
          \<and> (\<forall>a \<in> set (matchedPriceSignals (detectContent rt content detectors config)).
               \<forall>b \<in> set (matchedPriceSignals (detectContent rt content detectors config)).
                 toLowerCase rt a = toLowerCase rt b \<longrightarrow> a = b))"
proof -
  let ?v = "detectContent rt content detectors config"
  note m = matched_lists_compiled [OF assms, of rt content]
  have p: "\<forall>m \<in> set (matchedPriceSignals ?v).
      m \<in> set (priceKeywords config)
      \<or> (sliceOf m content \<and> list_all priceUnit m \<and> toLowerCase rt m = m)"
  proof
    fix x assume "x \<in> set (matchedPriceSignals ?v)"
    with m(2) have "x \<in> set (matchAll rt symbolAmountRegex content)
        \<or> x \<in> set (matchAll rt rawSymbolRegex content) \<or> x \<in> set (priceKeywords config)"
      by blast
    then have "x \<in> set (priceKeywords config) \<or> (sliceOf x content \<and> list_all priceUnit x)"
      using symbolAmount_match_lower [of x rt content] rawSymbol_match_lower [of x rt content]
      by blast
    then show "x \<in> set (priceKeywords config)
        \<or> (sliceOf x content \<and> list_all priceUnit x \<and> toLowerCase rt x = x)"
      using toLowerCase_priceUnits [of x rt] by blast
  qed
  have l: "(\<forall>t \<in> set (restrictedTerms config). toLowerCase rt t = t) \<longrightarrow>
          (\<forall>k \<in> set (priceKeywords config). toLowerCase rt k = k) \<longrightarrow>
            (\<forall>m \<in> set (matchedTerms ?v). toLowerCase rt m = m)
          \<and> (\<forall>m \<in> set (matchedPriceSignals ?v). toLowerCase rt m = m)
          \<and> (\<forall>a \<in> set (matchedTerms ?v). \<forall>b \<in> set (matchedTerms ?v).
                 toLowerCase rt a = toLowerCase rt b \<longrightarrow> a = b)
          \<and> (\<forall>a \<in> set (matchedPriceSignals ?v). \<forall>b \<in> set (matchedPriceSignals ?v).
                 toLowerCase rt a = toLowerCase rt b \<longrightarrow> a = b)"
  proof (intro impI)
    assume t: "\<forall>t \<in> set (restrictedTerms config). toLowerCase rt t = t"
      and k: "\<forall>k \<in> set (priceKeywords config). toLowerCase rt k = k"
    from t m(1) have a: "\<forall>m \<in> set (matchedTerms ?v). toLowerCase rt m = m"
      by blast
    from k p have b: "\<forall>m \<in> set (matchedPriceSignals ?v). toLowerCase rt m = m"
      by blast
    from a have "\<forall>a \<in> set (matchedTerms ?v). \<forall>b \<in> set (matchedTerms ?v).
        toLowerCase rt a = toLowerCase rt b \<longrightarrow> a = b"
      by simp
    moreover from b have "\<forall>a \<in> set (matchedPriceSignals ?v). \<forall>b \<in> set (matchedPriceSignals ?v).
        toLowerCase rt a = toLowerCase rt b \<longrightarrow> a = b"
      by simp
    ultimately show "(\<forall>m \<in> set (matchedTerms ?v). toLowerCase rt m = m)
          \<and> (\<forall>m \<in> set (matchedPriceSignals ?v). toLowerCase rt m = m)
          \<and> (\<forall>a \<in> set (matchedTerms ?v). \<forall>b \<in> set (matchedTerms ?v).
                 toLowerCase rt a = toLowerCase rt b \<longrightarrow> a = b)
          \<and> (\<forall>a \<in> set (matchedPriceSignals ?v). \<forall>b \<in> set (matchedPriceSignals ?v).
                 toLowerCase rt a = toLowerCase rt b \<longrightarrow> a = b)"
      using a b by blast
  qed
  from m(3) m(4) m(1) p l show ?thesis by blast
qed

text \<open>
  The instance: the terms and keywords are configured in small letters, one of them the
  Polish keyword with the small l with stroke (322; 321 is its capital, 163 the pound
  sign); the text has them in capitals and twice.
\<close>

theorem stored_matches_witness:
  "buildDetectors (defaultConfig\<lparr>priceKeywords := [js ''usd'', js ''z'' @ [322] @ js ''oty'']\<rparr>)
     = Inr (compiledDetectors
         (defaultConfig\<lparr>priceKeywords := [js ''usd'', js ''z'' @ [322] @ js ''oty'']\<rparr>))
   \<and> toLowerCase sampleRuntime (js ''sell'') = js ''sell''
   \<and> toLowerCase sampleRuntime (js ''usd'') = js ''usd''
   \<and> toLowerCase sampleRuntime (js ''z'' @ [322] @ js ''oty'') = js ''z'' @ [322] @ js ''oty''
   \<and> detectContent sampleRuntime
        (js ''SELL for '' @ [163] @ js ''5 USD, sell for '' @ [163] @ js ''5 Usd or Z'' @ [321]
           @ js ''OTY'')
        (compiledDetectors
           (defaultConfig\<lparr>priceKeywords := [js ''usd'', js ''z'' @ [322] @ js ''oty'']\<rparr>))
        (defaultConfig\<lparr>priceKeywords := [js ''usd'', js ''z'' @ [322] @ js ''oty'']\<rparr>)
       = \<lparr>triggered = True, matchedTerms = [js ''sell''],
          matchedPriceSignals =
            [[163] @ js ''5'', [163], js ''usd'', js ''z'' @ [322] @ js ''oty''],
          triggerTypes = [js ''word match'', js ''price pattern'']\<rparr>
   \<and> toLowerCase sampleRuntime ([163] @ js ''5'') = [163] @ js ''5''
   \<and> list_all priceUnit ([163] @ js ''5'')"
proof -
  let ?c = "defaultConfig\<lparr>priceKeywords := [js ''usd'', js ''z'' @ [322] @ js ''oty'']\<rparr>"
  let ?s = "js ''SELL for '' @ [163] @ js ''5 USD, sell for '' @ [163] @ js ''5 Usd or Z'' @ [321]
           @ js ''OTY''"
  let ?v = "detectContent sampleRuntime ?s (compiledDetectors ?c) ?c"
  have h1: "buildDetectors ?c = Inr (compiledDetectors ?c)"
    by (rule buildDetectors_compiled)
  have l: "toLowerCase sampleRuntime (js ''sell'') = js ''sell''"
    "toLowerCase sampleRuntime (js ''usd'') = js ''usd''"
    "toLowerCase sampleRuntime (js ''z'' @ [322] @ js ''oty'') = js ''z'' @ [322] @ js ''oty''"
    by code_simp+
  have h2: "\<forall>t \<in> set (restrictedTerms ?c). toLowerCase sampleRuntime t = t"
    using l by (simp add: defaultConfig_def)
  have h3: "\<forall>k \<in> set (priceKeywords ?c). toLowerCase sampleRuntime k = k"
    using l by simp
  have v: "?v = \<lparr>triggered = True, matchedTerms = [js ''sell''],
          matchedPriceSignals =
            [[163] @ js ''5'', [163], js ''usd'', js ''z'' @ [322] @ js ''oty''],
          triggerTypes = [js ''word match'', js ''price pattern'']\<rparr>"
    by code_simp
  have u: "list_all priceUnit ([163] @ js ''5'')"
    by code_simp
  from stored_matches [OF h1, of sampleRuntime ?s] h2 h3
  have "\<forall>m \<in> set (matchedPriceSignals ?v). toLowerCase sampleRuntime m = m"
    by blast
  then have "toLowerCase sampleRuntime ([163] @ js ''5'') = [163] @ js ''5''"
    by (simp only: v) simp
  with h1 l v u show ?thesis by blast
qed

theorem stored_matches_counterexample:
  "buildDetectors (defaultConfig\<lparr>restrictedTerms := [js ''Sell'', js ''SELL''],
       priceKeywords := [js ''USD'']\<rparr>)
     = Inr (compiledDetectors (defaultConfig\<lparr>restrictedTerms := [js ''Sell'', js ''SELL''],
         priceKeywords := [js ''USD'']\<rparr>))
   \<and> detectContent sampleRuntime (js ''sell for usd'')
        (compiledDetectors (defaultConfig\<lparr>restrictedTerms := [js ''Sell'', js ''SELL''],
           priceKeywords := [js ''USD'']\<rparr>))
        (defaultConfig\<lparr>restrictedTerms := [js ''Sell'', js ''SELL''],
           priceKeywords := [js ''USD'']\<rparr>)
       = \<lparr>triggered = True, matchedTerms = [js ''Sell'', js ''SELL''],
          matchedPriceSignals = [js ''USD''],
          triggerTypes = [js ''word match'', js ''price pattern'']\<rparr>
   \<and> toLowerCase sampleRuntime (js ''Sell'') \<noteq> js ''Sell''
   \<and> toLowerCase sampleRuntime (js ''USD'') \<noteq> js ''USD''
   \<and> js ''Sell'' \<noteq> js ''SELL''
   \<and> toLowerCase sampleRuntime (js ''Sell'') = toLowerCase sampleRuntime (js ''SELL'')"
proof (intro conjI)
  show "buildDetectors (defaultConfig\<lparr>restrictedTerms := [js ''Sell'', js ''SELL''],
       priceKeywords := [js ''USD'']\<rparr>)
     = Inr (compiledDetectors (defaultConfig\<lparr>restrictedTerms := [js ''Sell'', js ''SELL''],
         priceKeywords := [js ''USD'']\<rparr>))"
    by (rule buildDetectors_compiled)
qed code_simp+

text \<open>
  C8. A warning-eligible trigger for a (user, channel) key sets the entry of that key to
  the current timestamp exactly when the cooldown check does not suppress the warning;
  a suppressed trigger returns before the update and leaves the whole state as it was.
  No entry of another key changes, nor do the metrics and the log-channel cache, and
  whatever the reply and the log step do afterwards, the entries stay as the check left
  them. (Keys are the strings \<open>user:channel\<close>; for user ids without a colon, as Discord's
  are, distinct pairs have distinct keys: \<open>cooldownKey_inj\<close>.)
\<close>

theorem cooldown_entry_update:
  "(fst (isCoolingDown state message config now) \<longrightarrow>
      snd (isCoolingDown state message config now) = state)
   \<and> (\<not> fst (isCoolingDown state message config now) \<longrightarrow>
      mapGet (cooldowns (snd (isCoolingDown state message config now))) (cooldownKey message)
        = Some now)
   \<and> (\<forall>k. k \<noteq> cooldownKey message \<longrightarrow>
      mapGet (cooldowns (snd (isCoolingDown state message config now))) k
        = mapGet (cooldowns state) k)
   \<and> modLogChannelIds (snd (isCoolingDown state message config now)) = modLogChannelIds state
   \<and> metrics (snd (isCoolingDown state message config now)) = metrics state
   \<and> cooldowns (fst (snd (handleTriggeredMessage rt message detection config state w)))
       = cooldowns (snd (isCoolingDown state message config (dateNow w)))"
proof -
  have "(fst (isCoolingDown state message config now) \<longrightarrow>
      snd (isCoolingDown state message config now) = state)
   \<and> (\<not> fst (isCoolingDown state message config now) \<longrightarrow>
      mapGet (cooldowns (snd (isCoolingDown state message config now))) (cooldownKey message)
        = Some now)
   \<and> (\<forall>k. k \<noteq> cooldownKey message \<longrightarrow>
      mapGet (cooldowns (snd (isCoolingDown state message config now))) k
        = mapGet (cooldowns state) k)
   \<and> modLogChannelIds (snd (isCoolingDown state message config now)) = modLogChannelIds state
   \<and> metrics (snd (isCoolingDown state message config now)) = metrics state"
    by (simp add: isCoolingDown_def Let_def mapGet_mapSet split: option.splits)
  with handleTriggeredMessage_cooldowns [of rt message detection config state w]
  show ?thesis by blast
qed

theorem cooldown_entry_update_witness:
  "\<not> fst (isCoolingDown
        ((initialState (js ''2024-05-01T10:00:00.000Z''))\<lparr>cooldowns :=
           [(js ''1001:7'', 400), (js ''1002:7'', 39000)]\<rparr>)
        sampleMessage (defaultConfig\<lparr>warningCooldownMs := 30000\<rparr>) 40000)
   \<and> js ''1002:7'' \<noteq> cooldownKey sampleMessage
   \<and> cooldowns (snd (isCoolingDown
        ((initialState (js ''2024-05-01T10:00:00.000Z''))\<lparr>cooldowns :=
           [(js ''1001:7'', 400), (js ''1002:7'', 39000)]\<rparr>)
        sampleMessage (defaultConfig\<lparr>warningCooldownMs := 30000\<rparr>) 40000))
       = [(js ''1001:7'', 40000), (js ''1002:7'', 39000)]
   \<and> mapGet (cooldowns (snd (isCoolingDown
        ((initialState (js ''2024-05-01T10:00:00.000Z''))\<lparr>cooldowns :=
           [(js ''1001:7'', 400), (js ''1002:7'', 39000)]\<rparr>)
        sampleMessage (defaultConfig\<lparr>warningCooldownMs := 30000\<rparr>) 40000)))
        (cooldownKey sampleMessage) = Some 40000
   \<and> mapGet (cooldowns (snd (isCoolingDown
        ((initialState (js ''2024-05-01T10:00:00.000Z''))\<lparr>cooldowns :=
           [(js ''1001:7'', 400), (js ''1002:7'', 39000)]\<rparr>)
        sampleMessage (defaultConfig\<lparr>warningCooldownMs := 30000\<rparr>) 40000)))
        (js ''1002:7'') = Some 39000"
proof -
  let ?s = "(initialState (js ''2024-05-01T10:00:00.000Z''))\<lparr>cooldowns :=
           [(js ''1001:7'', 400), (js ''1002:7'', 39000)]\<rparr>"
  let ?c = "defaultConfig\<lparr>warningCooldownMs := 30000\<rparr>"
  have k: "cooldownKey sampleMessage = js ''1001:7''"
    by (simp add: cooldownKey_def sampleMessage_def js_def)
  have n: "js ''1002:7'' \<noteq> cooldownKey sampleMessage"
    by (simp add: k js_def)
  have f: "\<not> fst (isCoolingDown ?s sampleMessage ?c 40000)"
    by (simp add: isCoolingDown_def Let_def k mapGet_def)
  have c: "cooldowns (snd (isCoolingDown ?s sampleMessage ?c 40000))
      = [(js ''1001:7'', 40000), (js ''1002:7'', 39000)]"
    by (simp add: isCoolingDown_def Let_def k mapGet_def)
  have g: "mapGet (cooldowns ?s) (js ''1002:7'') = Some 39000"
    by (simp add: mapGet_def js_def)
  from cooldown_entry_update [of ?s sampleMessage ?c 40000] f n g
  have "mapGet (cooldowns (snd (isCoolingDown ?s sampleMessage ?c 40000)))
          (cooldownKey sampleMessage) = Some 40000"
    and "mapGet (cooldowns (snd (isCoolingDown ?s sampleMessage ?c 40000))) (js ''1002:7'')
          = Some 39000"
    by simp_all
  with f n c show ?thesis by blast
qed

theorem cooldown_entry_update_counterexample:
  "isCoolingDown
     ((initialState (js ''2024-05-01T10:00:00.000Z''))\<lparr>cooldowns := [(js ''1001:7'', 40000)]\<rparr>)
     sampleMessage (defaultConfig\<lparr>warningCooldownMs := 30000\<rparr>) 50000
   = (True,
      (initialState (js ''2024-05-01T10:00:00.000Z''))\<lparr>cooldowns := [(js ''1001:7'', 40000)]\<rparr>)
   \<and> mapGet (cooldowns (snd (isCoolingDown
        ((initialState (js ''2024-05-01T10:00:00.000Z''))\<lparr>cooldowns := [(js ''1001:7'', 40000)]\<rparr>)
        sampleMessage (defaultConfig\<lparr>warningCooldownMs := 30000\<rparr>) 50000)))
        (cooldownKey sampleMessage) = Some 40000
   \<and> (40000 :: int) \<noteq> 50000"
proof -
  have k: "cooldownKey sampleMessage = js ''1001:7''"
    by (simp add: cooldownKey_def sampleMessage_def js_def)
  show ?thesis
    by (simp add: isCoolingDown_def Let_def k mapGet_def)
qed

text \<open>
  C9. A message whose text is absent is classified as the empty string; the verdict has
  \<open>triggered = false\<close> (and nothing matched), and the pipeline returns without an
  outward call, a change of state or an error.
\<close>

theorem absent_text_not_triggered:
  assumes "buildDetectors config = Inr detectors"
    and "content' message = None"
  shows "contentOrEmpty message = []
       \<and> detectContent rt (contentOrEmpty message) detectors config =
           \<lparr>triggered = False, matchedTerms = [], matchedPriceSignals = [], triggerTypes = []\<rparr>
       \<and> onMessageCreate rt message config detectors state w = ([], state, None)"
proof -
  have d: "detectors = compiledDetectors config"
    using assms(1) by (rule detectors_compiled)
  have c: "contentOrEmpty message = []"
    by (simp add: contentOrEmpty_def assms(2))
  have v: "detectContent rt (contentOrEmpty message) detectors config =
      \<lparr>triggered = False, matchedTerms = [], matchedPriceSignals = [], triggerTypes = []\<rparr>"
    by (simp only: c d detectContent_empty)
  have "onMessageCreate rt message config detectors state w = ([], state, None)"
    by (simp add: onMessageCreate_def Let_def v)
  with c v show ?thesis by blast
qed

theorem absent_text_not_triggered_witness:
  "buildDetectors (defaultConfig\<lparr>restrictedTerms := [js ''sell'', js ''$'']\<rparr>)
     = Inr (compiledDetectors (defaultConfig\<lparr>restrictedTerms := [js ''sell'', js ''$'']\<rparr>))
   \<and> content' (sampleMessage\<lparr>content' := None\<rparr>) = None
   \<and> shouldProcessMessage sampleRuntime (sampleMessage\<lparr>content' := None\<rparr>)
        (defaultConfig\<lparr>restrictedTerms := [js ''sell'', js ''$'']\<rparr>)
   \<and> detectContent sampleRuntime (contentOrEmpty (sampleMessage\<lparr>content' := None\<rparr>))
        (compiledDetectors (defaultConfig\<lparr>restrictedTerms := [js ''sell'', js ''$'']\<rparr>))
        (defaultConfig\<lparr>restrictedTerms := [js ''sell'', js ''$'']\<rparr>)
       = \<lparr>triggered = False, matchedTerms = [], matchedPriceSignals = [], triggerTypes = []\<rparr>
   \<and> onMessageCreate sampleRuntime (sampleMessage\<lparr>content' := None\<rparr>)
        (defaultConfig\<lparr>restrictedTerms := [js ''sell'', js ''$'']\<rparr>)
        (compiledDetectors (defaultConfig\<lparr>restrictedTerms := [js ''sell'', js ''$'']\<rparr>))
        sampleState failingWorld
       = ([], sampleState, None)"
proof -
  let ?c = "defaultConfig\<lparr>restrictedTerms := [js ''sell'', js ''$'']\<rparr>"
  let ?m = "sampleMessage\<lparr>content' := None\<rparr>"
  have h1: "buildDetectors ?c = Inr (compiledDetectors ?c)"
    by (rule buildDetectors_compiled)
  have h2: "content' ?m = None"
    by simp
  have p: "shouldProcessMessage sampleRuntime ?m ?c"
    by code_simp
  from absent_text_not_triggered [OF h1 h2, of sampleRuntime sampleState failingWorld] h1 h2 p
  show ?thesis by blast
qed

text \<open>
  C10. With price-pattern detection enabled and no exception match: for every match \<open>m\<close>
  of the symbol-plus-amount pattern in the text (such as \<open>$400\<close>), the price signals of
  the verdict hold \<open>m\<close> and also its one-character currency symbol \<open>take 1 m\<close> as a
  separate element, because the bare symbols are collected on their own; so the mention
  gives two distinct price signals, and a metrics update for the verdict raises the
  counters of the two distinct rule-keys \<open>price:\<close> followed by \<open>m\<close> and \<open>price:\<close> followed
  by the symbol (both signals are their own lower-case form).

  The claim as the specification has it, for every text in which the pattern matches, does
  not hold: when an exception pattern matches the text the verdict holds no price signal
  at all (the instance after the theorem and its witness).
\<close>

theorem priced_mention_two_signals:
  assumes "buildDetectors config = Inr detectors"
    and "enablePricePattern config"
    and "\<forall>p \<in> set (exceptionPatterns config). \<not> containsIgnoringCase rt p content"
    and "m \<in> set (matchAll rt symbolAmountRegex content)"
  shows "m \<in> set (matchedPriceSignals (detectContent rt content detectors config))
       \<and> take 1 m \<in> set (matchedPriceSignals (detectContent rt content detectors config))
       \<and> length (take 1 m) = 1 \<and> set (take 1 m) \<subseteq> set currencySymbols
       \<and> take 1 m \<noteq> m
       \<and> triggered (detectContent rt content detectors config)
       \<and> toLowerCase rt m = m \<and> toLowerCase rt (take 1 m) = take 1 m
       \<and> js ''price:'' @ take 1 m \<noteq> js ''price:'' @ m
       \<and> countOf (byRule (metrics (bumpMetrics rt state message
             (detectContent rt content detectors config) isoString))) (js ''price:'' @ m)
           > countOf (byRule (carriedMetrics state isoString)) (js ''price:'' @ m)
       \<and> countOf (byRule (metrics (bumpMetrics rt state message
             (detectContent rt content detectors config) isoString))) (js ''price:'' @ take 1 m)
           > countOf (byRule (carriedMetrics state isoString)) (js ''price:'' @ take 1 m)"
proof -
  let ?v = "detectContent rt content detectors config"
  have d: "detectors = compiledDetectors config"
    using assms(1) by (rule detectors_compiled)
  have e: "testedLabels rt (exceptionChecks detectors) content = []"
    using assms(3) by (simp add: d exceptionMatches_compiled)
  from symbolAmount_match [OF assms(4)] obtain c rest where
    m: "m = c # rest" "rest \<noteq> []" "c \<in> set currencySymbols" "c \<in> set content"
    by blast
  have t: "take 1 m = [c]" by (simp add: m(1))
  have s: "set (matchedPriceSignals ?v) =
      set (matchAll rt symbolAmountRegex content) \<union> set (matchAll rt rawSymbolRegex content)
      \<union> set (testedLabels rt (priceKeywordChecks detectors) content)"
    using assms(2) by (simp add: detectContent_no_exception(2) [OF e] set_newSet Un_assoc)
  have a: "m \<in> set (matchedPriceSignals ?v)"
    using assms(4) by (simp add: s)
  have r: "[c] \<in> set (matchAll rt rawSymbolRegex content)"
    using m(3,4) by (simp add: matchAll_rawSymbol)
  then have b: "[c] \<in> set (matchedPriceSignals ?v)"
    by (simp add: s)
  have n: "[c] \<noteq> m"
    using m(2) by (simp add: m(1))
  from a have "matchedPriceSignals ?v \<noteq> []" by auto
  then have tr: "triggered ?v"
    by (simp add: detectContent_no_exception(4) [OF e] detectContent_no_exception(3) [OF e])
  have lm: "toLowerCase rt m = m"
    using symbolAmount_match_lower(1) [OF assms(4)] by (rule toLowerCase_priceUnits)
  have lc: "toLowerCase rt [c] = [c]"
    using rawSymbol_match_lower(1) [OF r] by (rule toLowerCase_priceUnits)
  have k: "js ''price:'' @ [c] \<noteq> js ''price:'' @ m"
    using n by simp
  note u = bumpMetrics_fields(4) [of rt state message ?v isoString]
  have cnt: "\<And>x. x \<in> set (matchedPriceSignals ?v) \<Longrightarrow> toLowerCase rt x = x \<Longrightarrow>
      countOf (byRule (metrics (bumpMetrics rt state message ?v isoString))) (js ''price:'' @ x)
        > countOf (byRule (carriedMetrics state isoString)) (js ''price:'' @ x)"
  proof -
    fix x assume x: "x \<in> set (matchedPriceSignals ?v)" and l: "toLowerCase rt x = x"
    from x have "js ''price:'' @ toLowerCase rt x
        \<in> set (map (\<lambda>s. js ''price:'' @ toLowerCase rt s) (matchedPriceSignals ?v))"
      by simp
    then have "js ''price:'' @ x
        \<in> set (map (\<lambda>s. js ''price:'' @ toLowerCase rt s) (matchedPriceSignals ?v))"
      by (simp only: l)
    from count_list_pos [OF this] show
      "countOf (byRule (metrics (bumpMetrics rt state message ?v isoString))) (js ''price:'' @ x)
        > countOf (byRule (carriedMetrics state isoString)) (js ''price:'' @ x)"
      by (simp add: u countOf_foldl_bumpCount)
  qed
  from a b n tr lm lc k cnt [OF a lm] cnt [OF b lc] m(3) show ?thesis
    unfolding t by simp
qed

theorem priced_mention_two_signals_witness:
  "buildDetectors (defaultConfig\<lparr>exceptionPatterns := [js ''wholesale'']\<rparr>)
     = Inr (compiledDetectors (defaultConfig\<lparr>exceptionPatterns := [js ''wholesale'']\<rparr>))
   \<and> enablePricePattern (defaultConfig\<lparr>exceptionPatterns := [js ''wholesale'']\<rparr>)
   \<and> \<not> containsIgnoringCase sampleRuntime (js ''wholesale'') (js ''retail $400'')
   \<and> js ''$400'' \<in> set (matchAll sampleRuntime symbolAmountRegex (js ''retail $400''))
   \<and> js ''$'' \<in> set (matchedPriceSignals (detectContent sampleRuntime (js ''retail $400'')
        (compiledDetectors (defaultConfig\<lparr>exceptionPatterns := [js ''wholesale'']\<rparr>))
        (defaultConfig\<lparr>exceptionPatterns := [js ''wholesale'']\<rparr>)))
   \<and> matchedPriceSignals (detectContent sampleRuntime (js ''retail $400'')
        (compiledDetectors (defaultConfig\<lparr>exceptionPatterns := [js ''wholesale'']\<rparr>))
        (defaultConfig\<lparr>exceptionPatterns := [js ''wholesale'']\<rparr>)) = [js ''$400'', js ''$'']
   \<and> byRule (metrics (bumpMetrics sampleRuntime (initialState (js ''2024-05-01T10:00:00.000Z''))
        sampleMessage
        (detectContent sampleRuntime (js ''retail $400'')
          (compiledDetectors (defaultConfig\<lparr>exceptionPatterns := [js ''wholesale'']\<rparr>))
          (defaultConfig\<lparr>exceptionPatterns := [js ''wholesale'']\<rparr>))
        (js ''2024-05-01T10:00:05.000Z'')))
       = [(js ''price:$400'', 1), (js ''price:$'', 1)]"
proof -
  let ?c = "defaultConfig\<lparr>exceptionPatterns := [js ''wholesale'']\<rparr>"
  let ?s = "js ''retail $400''"
  have h1: "buildDetectors ?c = Inr (compiledDetectors ?c)"
    by (rule buildDetectors_compiled)
  have h2: "enablePricePattern ?c"
    by (simp add: defaultConfig_def)
  have n: "\<not> containsIgnoringCase sampleRuntime (js ''wholesale'') ?s"
    by code_simp
  have h3: "\<forall>p \<in> set (exceptionPatterns ?c). \<not> containsIgnoringCase sampleRuntime p ?s"
    using n by simp
  have h4: "js ''$400'' \<in> set (matchAll sampleRuntime symbolAmountRegex ?s)"
    by code_simp
  have t: "take 1 (js ''$400'') = js ''$''"
    by (simp add: js_def)
  from priced_mention_two_signals [OF h1 h2 h3 h4]
  have a: "js ''$'' \<in> set (matchedPriceSignals (detectContent sampleRuntime ?s
      (compiledDetectors ?c) ?c))"
    by (simp only: t)
  have b: "matchedPriceSignals (detectContent sampleRuntime ?s (compiledDetectors ?c) ?c)
      = [js ''$400'', js ''$'']"
    by code_simp
  have c: "byRule (metrics (bumpMetrics sampleRuntime (initialState (js ''2024-05-01T10:00:00.000Z''))
        sampleMessage (detectContent sampleRuntime ?s (compiledDetectors ?c) ?c)
        (js ''2024-05-01T10:00:05.000Z'')))
       = [(js ''price:$400'', 1), (js ''price:$'', 1)]"
    by code_simp
  from h1 h2 n h4 a b c show ?thesis by blast
qed

text \<open>
  The exception pattern \<open>wholesale\<close> occurs in \<open>Wholesale $400\<close>: the pattern matches
  \<open>$400\<close> in the text, and the verdict holds no price signal.
\<close>

theorem priced_mention_two_signals_counterexample:
  "buildDetectors (defaultConfig\<lparr>exceptionPatterns := [js ''wholesale'']\<rparr>)
     = Inr (compiledDetectors (defaultConfig\<lparr>exceptionPatterns := [js ''wholesale'']\<rparr>))
   \<and> matchAll sampleRuntime symbolAmountRegex (js ''Wholesale $400'') = [js ''$400'']
   \<and> detectContent sampleRuntime (js ''Wholesale $400'')
        (compiledDetectors (defaultConfig\<lparr>exceptionPatterns := [js ''wholesale'']\<rparr>))
        (defaultConfig\<lparr>exceptionPatterns := [js ''wholesale'']\<rparr>)
       = \<lparr>triggered = False, matchedTerms = [], matchedPriceSignals = [], triggerTypes = []\<rparr>"
proof (intro conjI)
  show "buildDetectors (defaultConfig\<lparr>exceptionPatterns := [js ''wholesale'']\<rparr>)
     = Inr (compiledDetectors (defaultConfig\<lparr>exceptionPatterns := [js ''wholesale'']\<rparr>))"
    by (rule buildDetectors_compiled)
qed code_simp+

end
